(* ===== verification/Prelude.thy ===== *)
theory Prelude
  imports Main "HOL-Library.Word" "HOL-Library.AList"
begin

text \<open>
  Shared vocabulary of the development.

  \<^item> Outcomes of C++ code: a value, a thrown exception, or a crash (failed \<open>assert\<close>,
    undefined behaviour, \<open>std::terminate\<close>), and the state-and-exception programs
    \<open>('w, 'a) prog\<close> built from them. A thrown exception keeps the state reached so far, as C++ does.
  \<^item> Associative containers (\<open>std::unordered_map\<close>) as association lists with distinct keys.
    No definition depends on the order of such a list; an iteration over the container takes the
    iteration order as an argument of its own.
  \<^item> Hoare triples over such programs, and the proof collections \<open>prog_simps\<close> (symbolic execution on
    concrete states), \<open>wp\<close> (weakest preconditions of programs on any state) and \<open>job_wp\<close> (the same for
    programs that work on one job of a session).
\<close>

named_theorems prog_simps
named_theorems wp
named_theorems job_wp

section \<open>Outcomes and programs\<close>

datatype exn = Bad_Alloc | Std_Exception | Other_Exception

datatype crash = Assertion_failed | Undefined_behaviour | Terminated

datatype 'a outcome = Ret 'a | Throw exn | Crash crash

type_synonym ('w, 'a) prog = "'w \<Rightarrow> 'a outcome \<times> 'w"

definition return :: "'a \<Rightarrow> ('w, 'a) prog" where
  "return x w = (Ret x, w)"

definition throw :: "exn \<Rightarrow> ('w, 'a) prog" where
  "throw e w = (Throw e, w)"

definition crash :: "crash \<Rightarrow> ('w, 'a) prog" where
  "crash c w = (Crash c, w)"

definition bind :: "('w, 'a) prog \<Rightarrow> ('a \<Rightarrow> ('w, 'b) prog) \<Rightarrow> ('w, 'b) prog" where
  "bind p f w = (case p w of
       (Ret x, w') \<Rightarrow> f x w'
     | (Throw e, w') \<Rightarrow> (Throw e, w')
     | (Crash c, w') \<Rightarrow> (Crash c, w'))"

definition andthen :: "('w, 'a) prog \<Rightarrow> ('w, 'b) prog \<Rightarrow> ('w, 'b) prog" where
  "andthen p q = bind p (\<lambda>_. q)"

definition gets :: "('w \<Rightarrow> 'a) \<Rightarrow> ('w, 'a) prog" where
  "gets f w = (Ret (f w), w)"

definition modify :: "('w \<Rightarrow> 'w) \<Rightarrow> ('w, unit) prog" where
  "modify f w = (Ret (), f w)"

definition check_assert :: "bool \<Rightarrow> bool \<Rightarrow> ('w, unit) prog" where
  "check_assert enabled ok = (if enabled \<and> \<not> ok then crash Assertion_failed else return ())"

primrec for_each :: "'a list \<Rightarrow> ('a \<Rightarrow> ('w, unit) prog) \<Rightarrow> ('w, unit) prog" where
  "for_each [] f = return ()"
| "for_each (x # xs) f = andthen (f x) (for_each xs f)"

primrec map_each :: "'a list \<Rightarrow> ('a \<Rightarrow> ('w, 'b) prog) \<Rightarrow> ('w, 'b list) prog" where
  "map_each [] f = return []"
| "map_each (x # xs) f = bind (f x) (\<lambda>y. bind (map_each xs f) (\<lambda>ys. return (y # ys)))"

lemmas prog_defs = return_def throw_def crash_def bind_def andthen_def gets_def modify_def
  check_assert_def

lemma return_apply [prog_simps]: "return x w = (Ret x, w)"
  by (simp add: return_def)

lemma throw_apply [prog_simps]: "throw e w = (Throw e, w)"
  by (simp add: throw_def)

lemma crash_apply [prog_simps]: "crash c w = (Crash c, w)"
  by (simp add: crash_def)

lemma gets_apply [prog_simps]: "gets f w = (Ret (f w), w)"
  by (simp add: gets_def)

lemma modify_apply [prog_simps]: "modify f w = (Ret (), f w)"
  by (simp add: modify_def)

lemma bind_return_left [simp]: "bind (return x) f = f x"
  by (rule ext) (simp add: prog_defs)

lemma bind_assoc: "bind (bind p f) g = bind p (\<lambda>x. bind (f x) g)"
  by (rule ext) (auto simp: bind_def split: prod.splits outcome.splits)

lemma bind_Ret [prog_simps]: "p w = (Ret x, w') \<Longrightarrow> bind p f w = f x w'"
  by (simp add: bind_def)

lemma bind_Throw [prog_simps]: "p w = (Throw e, w') \<Longrightarrow> bind p f w = (Throw e, w')"
  by (simp add: bind_def)

lemma bind_Crash [prog_simps]: "p w = (Crash c, w') \<Longrightarrow> bind p f w = (Crash c, w')"
  by (simp add: bind_def)

lemma bind_gets [prog_simps]: "bind (gets f) g w = g (f w) w"
  by (simp add: prog_defs)

lemma andthen_apply [prog_simps]: "andthen p q w = bind p (\<lambda>_. q) w"
  by (simp add: andthen_def)

section \<open>Hoare triples\<close>

text \<open>
  \<open>hoare P p R X\<close>: started in a state that satisfies \<open>P\<close>, the program \<open>p\<close> returns a value and a
  state related by \<open>R\<close>, or throws in a state that satisfies \<open>X\<close>, or the process ends by a failed
  assertion or \<open>std::terminate\<close>; it never reaches undefined behaviour. The rules \<open>wp\<close> compute
  a precondition backwards.
\<close>

definition hoare ::
  "('w \<Rightarrow> bool) \<Rightarrow> ('w, 'a) prog \<Rightarrow> ('a \<Rightarrow> 'w \<Rightarrow> bool) \<Rightarrow> ('w \<Rightarrow> bool) \<Rightarrow> bool" where
  "hoare P p R X \<longleftrightarrow> (\<forall>w. P w \<longrightarrow> (case p w of
       (Ret x, w') \<Rightarrow> R x w'
     | (Throw e, w') \<Rightarrow> X w'
     | (Crash c, w') \<Rightarrow> c \<noteq> Undefined_behaviour))"

lemma hoareI:
  assumes "\<And>w x w'. P w \<Longrightarrow> p w = (Ret x, w') \<Longrightarrow> R x w'"
    and "\<And>w e w'. P w \<Longrightarrow> p w = (Throw e, w') \<Longrightarrow> X w'"
    and "\<And>w w'. P w \<Longrightarrow> p w \<noteq> (Crash Undefined_behaviour, w')"
  shows "hoare P p R X"
  unfolding hoare_def
proof (intro allI impI)
  fix w assume w: "P w"
  obtain r w' where p: "p w = (r, w')" by fastforce
  with w assms show "case p w of (Ret x, w') \<Rightarrow> R x w' | (Throw e, w') \<Rightarrow> X w'
      | (Crash c, w') \<Rightarrow> c \<noteq> Undefined_behaviour"
    by (cases r) auto
qed

lemma hoare_RetD: "hoare P p R X \<Longrightarrow> P w \<Longrightarrow> p w = (Ret x, w') \<Longrightarrow> R x w'"
  by (auto simp: hoare_def dest!: spec [of _ w])

lemma hoare_ThrowD: "hoare P p R X \<Longrightarrow> P w \<Longrightarrow> p w = (Throw e, w') \<Longrightarrow> X w'"
  by (auto simp: hoare_def dest!: spec [of _ w])

lemma hoare_CrashD: "hoare P p R X \<Longrightarrow> P w \<Longrightarrow> p w \<noteq> (Crash Undefined_behaviour, w')"
  by (auto simp: hoare_def dest!: spec [of _ w])

lemma hoare_conseq:
  assumes "hoare P' p R' X'" and "\<And>w. P w \<Longrightarrow> P' w" and "\<And>x w. R' x w \<Longrightarrow> R x w" and "\<And>w. X' w \<Longrightarrow> X w"
  shows "hoare P p R X"
  using assms by (intro hoareI) (metis hoare_RetD hoare_ThrowD hoare_CrashD)+

lemma hoare_pre: "hoare P' p R X \<Longrightarrow> (\<And>w. P w \<Longrightarrow> P' w) \<Longrightarrow> hoare P p R X"
  by (rule hoare_conseq)

lemma hoare_return [wp]: "hoare (R x) (return x) R X"
  by (auto simp: hoare_def return_def)

lemma hoare_throw [wp]: "hoare X (throw e) R X"
  by (auto simp: hoare_def throw_def)

lemma hoare_gets [wp]: "hoare (\<lambda>w. R (f w) w) (gets f) R X"
  by (auto simp: hoare_def gets_def)

lemma hoare_modify [wp]: "hoare (\<lambda>w. R () (f w)) (modify f) R X"
  by (auto simp: hoare_def modify_def)

lemma hoare_bind [wp]:
  assumes "\<And>x. hoare (M x) (f x) R X" and "hoare P p M X"
  shows "hoare P (bind p f) R X"
  unfolding hoare_def
proof (intro allI impI)
  fix w assume w: "P w"
  obtain r w1 where p: "p w = (r, w1)" by fastforce
  with w assms(2) have "case r of Ret x \<Rightarrow> M x w1 | Throw e \<Rightarrow> X w1 | Crash c \<Rightarrow> c \<noteq> Undefined_behaviour"
    by (auto simp: hoare_def split: outcome.splits)
  with p assms(1) show "case bind p f w of (Ret x, w') \<Rightarrow> R x w' | (Throw e, w') \<Rightarrow> X w'
      | (Crash c, w') \<Rightarrow> c \<noteq> Undefined_behaviour"
    by (cases r) (auto simp: bind_def hoare_def)
qed

lemma hoare_andthen [wp]: "hoare M q R X \<Longrightarrow> hoare P p (\<lambda>_. M) X \<Longrightarrow> hoare P (andthen p q) R X"
  unfolding andthen_def by (rule hoare_bind)

lemma hoare_if [wp]:
  "hoare P p R X \<Longrightarrow> hoare Q q R X \<Longrightarrow>
   hoare (\<lambda>w. (b \<longrightarrow> P w) \<and> (\<not> b \<longrightarrow> Q w)) (if b then p else q) R X"
  by (auto simp: hoare_def)

lemma hoare_case_option [wp]:
  "hoare P p R X \<Longrightarrow> (\<And>x. hoare (Q x) (f x) R X) \<Longrightarrow>
   hoare (\<lambda>w. (v = None \<longrightarrow> P w) \<and> (\<forall>x. v = Some x \<longrightarrow> Q x w)) (case v of None \<Rightarrow> p | Some x \<Rightarrow> f x) R X"
  by (cases v) (auto simp: hoare_def)

lemma hoare_case_prod [wp]:
  "(\<And>a b. hoare (P a b) (f a b) R X) \<Longrightarrow>
   hoare (\<lambda>w. \<forall>a b. v = (a, b) \<longrightarrow> P a b w) (case v of (a, b) \<Rightarrow> f a b) R X"
  by (cases v) (auto simp: hoare_def)

lemma hoare_let [wp]: "hoare P (f v) R X \<Longrightarrow> hoare P (let x = v in f x) R X"
  by simp

lemma hoare_for_each:
  "(\<And>x. x \<in> set xs \<Longrightarrow> hoare I (f x) (\<lambda>_. I) X) \<Longrightarrow> hoare I (for_each xs f) (\<lambda>_. I) X"
  by (induction xs) (auto intro: hoare_return hoare_andthen)

section \<open>Association lists\<close>

lemma map_of_update [simp]: "map_of (AList.update k v xs) = (map_of xs)(k \<mapsto> v)"
  by (rule update_conv')

lemma map_of_delete [simp]: "map_of (AList.delete k xs) = (map_of xs)(k := None)"
  by (rule delete_conv')

lemma length_update:
  "length (AList.update k v xs) = (if k \<in> fst ` set xs then length xs else Suc (length xs))"
  by (induction xs) auto

lemma length_update_known: "map_of xs k = Some u \<Longrightarrow> length (AList.update k v xs) = length xs"
  by (auto simp: length_update dest!: map_of_SomeD intro: rev_image_eqI)

lemma length_update_new: "map_of xs k = None \<Longrightarrow> length (AList.update k v xs) = Suc (length xs)"
  by (simp add: length_update map_of_eq_None_iff)

lemma length_alist_delete_le: "length (AList.delete k xs) \<le> length xs"
  by (induction xs) auto

lemma distinct_keys_delete: "distinct (map fst xs) \<Longrightarrow> distinct (map fst (AList.delete k xs))"
  by (rule distinct_delete)

lemma distinct_keys_update: "distinct (map fst xs) \<Longrightarrow> distinct (map fst (AList.update k v xs))"
  by (rule distinct_update)

section \<open>Lists\<close>

lemma length_filter_eq_sum:
  assumes "distinct ks" and "\<And>x. x \<in> set xs \<Longrightarrow> f x \<in> set ks"
  shows "length xs = (\<Sum>k\<leftarrow>ks. length (filter (\<lambda>x. f x = k) xs))"
  using assms(2)
proof (induction xs)
  case Nil
  then show ?case by (induction ks) auto
next
  case (Cons x xs)
  have "(\<Sum>k\<leftarrow>ks. length (filter (\<lambda>y. f y = k) (x # xs)))
      = (\<Sum>k\<leftarrow>ks. length (filter (\<lambda>y. f y = k) xs)) + (\<Sum>k\<leftarrow>ks. if f x = k then 1 else 0)"
    by (simp add: sum_list_addf [symmetric] if_distrib cong: if_cong)
  also have "(\<Sum>k\<leftarrow>ks. if f x = k then 1 else (0::nat)) = 1"
    using assms(1) Cons.prems [of x] by (simp add: sum_list_distinct_conv_sum_set)
  finally show ?case using Cons by simp
qed

lemma find_Some_mem: "List.find P xs = Some x \<Longrightarrow> x \<in> set xs \<and> P x"
  by (auto simp: find_Some_iff)

lemma map_if_absent: "(\<And>x. x \<in> set xs \<Longrightarrow> \<not> P x) \<Longrightarrow> map (\<lambda>x. if P x then f x else x) xs = xs"
  by (simp add: map_idI)

section \<open>Invariants of step relations\<close>

text \<open>What every transition system promises whose steps keep a predicate that holds at the start.\<close>

locale inductive_invariant =
  fixes start :: "'s \<Rightarrow> bool" and step :: "'s \<Rightarrow> 's \<Rightarrow> bool" and good :: "'s \<Rightarrow> bool"
  assumes start_good: "start s \<Longrightarrow> good s"
    and step_good: "good s \<Longrightarrow> step s t \<Longrightarrow> good t"
begin

lemma steps_good: "step\<^sup>*\<^sup>* s t \<Longrightarrow> good s \<Longrightarrow> good t"
  by (induction rule: rtranclp_induct) (auto intro: step_good)

lemma reachable_good: "start s \<Longrightarrow> step\<^sup>*\<^sup>* s t \<Longrightarrow> good t"
  using steps_good start_good by blast

end

end
