(* ===== verification/Event_Channel.thy ===== *)
theory Event_Channel
  imports Prelude
begin

text \<open>
  The contract between the session and its event mailbox: events are posted for an owner (a torrent)
  and taken one at a time; per owner nothing is lost, duplicated or reordered, and the channel stays
  within its capacity. The locales state what a provider promises; the client lemmas are about whole
  runs of posts and reads.
\<close>

datatype ('i, 'k, 'v) channel_action = Post 'i 'k 'v | Take

text \<open>A run of actions: what was read (with its owner), and the final state.\<close>

fun channel_run ::
  "('i \<Rightarrow> 'k \<Rightarrow> 'v \<Rightarrow> 'm \<Rightarrow> 'm) \<Rightarrow> ('m \<Rightarrow> ('i \<times> 'v \<times> 'm) option) \<Rightarrow>
   ('i, 'k, 'v) channel_action list \<Rightarrow> 'm \<Rightarrow> ('i \<times> 'v) list \<times> 'm" where
  "channel_run post recv [] m = ([], m)"
| "channel_run post recv (Post i k v # acts) m = channel_run post recv acts (post i k v m)"
| "channel_run post recv (Take # acts) m = (case recv m of
       None \<Rightarrow> channel_run post recv acts m
     | Some (i, v, m') \<Rightarrow>
         (let (out, m'') = channel_run post recv acts m' in ((i, v) # out, m'')))"

text \<open>Every post of the run is acceptable at the moment it happens.\<close>

fun channel_ok ::
  "('m \<Rightarrow> 'i \<Rightarrow> 'k \<Rightarrow> 'v \<Rightarrow> bool) \<Rightarrow> ('i \<Rightarrow> 'k \<Rightarrow> 'v \<Rightarrow> 'm \<Rightarrow> 'm) \<Rightarrow>
   ('m \<Rightarrow> ('i \<times> 'v \<times> 'm) option) \<Rightarrow> ('i, 'k, 'v) channel_action list \<Rightarrow> 'm \<Rightarrow> bool" where
  "channel_ok acc post recv [] m \<longleftrightarrow> True"
| "channel_ok acc post recv (Post i k v # acts) m \<longleftrightarrow>
     acc m i k v \<and> channel_ok acc post recv acts (post i k v m)"
| "channel_ok acc post recv (Take # acts) m \<longleftrightarrow> (case recv m of
       None \<Rightarrow> channel_ok acc post recv acts m
     | Some (i, v, m') \<Rightarrow> channel_ok acc post recv acts m')"

fun posted :: "'i \<Rightarrow> ('i, 'k, 'v) channel_action list \<Rightarrow> 'v list" where
  "posted i [] = []"
| "posted i (Post i' k v # acts) = (if i' = i then v # posted i acts else posted i acts)"
| "posted i (Take # acts) = posted i acts"

definition taken :: "'i \<Rightarrow> ('i \<times> 'v) list \<Rightarrow> 'v list" where
  "taken i out = map snd (filter (\<lambda>x. fst x = i) out)"

lemma taken_Nil [simp]: "taken i [] = []"
  by (simp add: taken_def)

lemma taken_Cons [simp]:
  "taken i (x # out) = (if fst x = i then snd x # taken i out else taken i out)"
  by (simp add: taken_def)

locale event_channel =
  fixes invar :: "'m \<Rightarrow> bool"
    and acc :: "'m \<Rightarrow> 'i \<Rightarrow> 'k \<Rightarrow> 'v \<Rightarrow> bool"
    and post :: "'i \<Rightarrow> 'k \<Rightarrow> 'v \<Rightarrow> 'm \<Rightarrow> 'm"
    and recv :: "'m \<Rightarrow> ('i \<times> 'v \<times> 'm) option"
    and queue :: "'i \<Rightarrow> 'm \<Rightarrow> 'v list"
  assumes invar_post: "invar m \<Longrightarrow> acc m i k v \<Longrightarrow> invar (post i k v m)"
    and queue_post: "invar m \<Longrightarrow> acc m i k v \<Longrightarrow>
      queue i' (post i k v m) = (if i' = i then queue i m @ [v] else queue i' m)"
    and invar_recv: "invar m \<Longrightarrow> recv m = Some (i, v, m') \<Longrightarrow> invar m'"
    and queue_recv: "invar m \<Longrightarrow> recv m = Some (i, v, m') \<Longrightarrow>
      queue i' m = (if i' = i then v # queue i' m' else queue i' m')"
    and recv_None: "invar m \<Longrightarrow> recv m = None \<Longrightarrow> queue i' m = []"
begin

lemma invar_run:
  "invar m \<Longrightarrow> channel_ok acc post recv acts m \<Longrightarrow> invar (snd (channel_run post recv acts m))"
proof (induction acts arbitrary: m)
  case (Cons a acts)
  then show ?case
    by (cases a) (auto simp: invar_post case_prod_beta dest: invar_recv split: option.splits)
qed simp

lemma run_fifo:
  assumes "invar m" and "channel_ok acc post recv acts m"
  shows "taken i (fst (channel_run post recv acts m)) @ queue i (snd (channel_run post recv acts m))
     = queue i m @ posted i acts"
  using assms
proof (induction acts arbitrary: m)
  case Nil
  then show ?case by simp
next
  case (Cons a acts)
  show ?case
  proof (cases a)
    case (Post i' k v)
    with Cons.prems have "acc m i' k v" and "channel_ok acc post recv acts (post i' k v m)" by auto
    with Cons.IH [of "post i' k v m"] Cons.prems(1) Post show ?thesis
      by (auto simp: invar_post queue_post)
  next
    case Take
    show ?thesis
    proof (cases "recv m")
      case None
      with Cons Take show ?thesis by simp
    next
      case (Some x)
      obtain i' v m' where x: "x = (i', v, m')" by (cases x) auto
      with Some have t: "recv m = Some (i', v, m')" by simp
      have "channel_ok acc post recv acts m'" using Cons.prems(2) Take t by simp
      with Cons.IH [OF invar_recv [OF Cons.prems(1) t]]
        queue_recv [OF Cons.prems(1) t, of i] Take t show ?thesis
        by (auto simp: case_prod_beta)
    qed
  qed
qed

end

locale bounded_channel = event_channel invar acc post recv queue
  for invar :: "'m \<Rightarrow> bool" and acc :: "'m \<Rightarrow> 'i \<Rightarrow> 'k \<Rightarrow> 'v \<Rightarrow> bool"
    and post :: "'i \<Rightarrow> 'k \<Rightarrow> 'v \<Rightarrow> 'm \<Rightarrow> 'm" and recv :: "'m \<Rightarrow> ('i \<times> 'v \<times> 'm) option"
    and queue :: "'i \<Rightarrow> 'm \<Rightarrow> 'v list" +
  fixes occupancy :: "'m \<Rightarrow> nat" and capacity :: nat
  assumes occupancy_le: "invar m \<Longrightarrow> occupancy m \<le> capacity"
begin

lemma run_bounded:
  "invar m \<Longrightarrow> channel_ok acc post recv acts m \<Longrightarrow>
   occupancy (snd (channel_run post recv acts m)) \<le> capacity"
  by (rule occupancy_le [OF invar_run])

end

end
