(* ===== verification/Event_Mailbox.thy ===== *)
theory Event_Mailbox
  imports Prelude Event_Channel
begin

text \<open>
  \<open>ltkit::EventMailbox\<close> (\<open>src/Native/src/EventMailbox.hpp\<close>): the bounded mailbox that keeps
  lifecycle and error events in order and one latest status per torrent.

  Modelling choices.
  \<^item> \<open>std::list<Entry> critical_\<close> is a list of records; every list node has an address
    (\<open>entry_node\<close>), so that the pointer \<open>Job::last_error\<close> is the address of a node. A new node
    gets an address no live node has (\<open>fresh_node\<close>); the addresses of freed nodes may be reused,
    as an allocator would. Following a pointer to no live node is undefined behaviour.
  \<^item> \<open>std::unordered_map<std::string, Job> jobs_\<close> is an association list; the iteration order of
    \<open>front\<close> and \<open>pop\<close> is their argument \<open>ks\<close>. The container is not changed between the two.
  \<^item> \<open>assert\<close> is active when the first argument \<open>dbg\<close> is true (a build without \<open>NDEBUG\<close>).
  \<^item> \<open>Entry::count\<close> is a 64-bit word; \<open>Job::pending\<close> is a natural number (it never exceeds 9).
\<close>

section \<open>State\<close>

datatype Kind = K_metadata | K_completed | K_stopped | K_invalid_selection | K_error

fun kind_index :: "Kind \<Rightarrow> nat" where
  "kind_index K_metadata = 0"
| "kind_index K_completed = 1"
| "kind_index K_stopped = 2"
| "kind_index K_invalid_selection = 3"
| "kind_index K_error = 4"

definition max_jobs :: nat where
  "max_jobs = 256"

definition max_critical_entries :: nat where
  "max_critical_entries = max_jobs * 9"

record Entry =
  entry_node :: nat
  entry_id :: string
  entry_json :: string
  entry_count :: "64 word"

record Job =
  delivered_or_pending :: "bool list"
  Job_status :: "string option"
  Job_last_error :: "nat option"
  Job_pending :: nat
  Job_retired :: bool

definition new_Job :: Job where
  "new_Job = \<lparr>delivered_or_pending = replicate 4 False, Job_status = None,
     Job_last_error = None, Job_pending = 0, Job_retired = False\<rparr>"

record EventMailbox =
  critical_list :: "Entry list"
  mailbox_jobs :: "(string \<times> Job) list"

definition empty_mailbox :: EventMailbox where
  "empty_mailbox = \<lparr>critical_list = [], mailbox_jobs = []\<rparr>"

abbreviation job_at :: "EventMailbox \<Rightarrow> string \<Rightarrow> Job option" where
  "job_at m i \<equiv> map_of (mailbox_jobs m) i"

definition put_Job :: "string \<Rightarrow> Job \<Rightarrow> EventMailbox \<Rightarrow> EventMailbox" where
  "put_Job i j m = m\<lparr>mailbox_jobs := AList.update i j (mailbox_jobs m)\<rparr>"

definition erase_Job :: "string \<Rightarrow> EventMailbox \<Rightarrow> EventMailbox" where
  "erase_Job i m = m\<lparr>mailbox_jobs := AList.delete i (mailbox_jobs m)\<rparr>"

definition fresh_node :: "Entry list \<Rightarrow> nat" where
  "fresh_node es = Suc (foldr max (map entry_node es) 0)"

section \<open>Operations\<close>

definition can_add :: "string \<Rightarrow> EventMailbox \<Rightarrow> bool" where
  "can_add i m \<longleftrightarrow> length (mailbox_jobs m) < max_jobs \<and> job_at m i = None"

definition mailbox_add :: "bool \<Rightarrow> string \<Rightarrow> (EventMailbox, unit) prog" where
  "mailbox_add dbg i m =
     (if dbg \<and> \<not> can_add i m then (Crash Assertion_failed, m)
      else (Ret (), case job_at m i of None \<Rightarrow> put_Job i new_Job m | Some _ \<Rightarrow> m))"

definition retire :: "string \<Rightarrow> EventMailbox \<Rightarrow> EventMailbox" where
  "retire i m = (case job_at m i of
       None \<Rightarrow> m
     | Some found \<Rightarrow>
         (let found = found\<lparr>Job_retired := True, Job_status := None\<rparr>
          in if Job_pending found = 0 then erase_Job i m else put_Job i found m))"

definition bump_count :: "nat \<Rightarrow> Entry list \<Rightarrow> Entry list" where
  "bump_count p es =
     map (\<lambda>e. if entry_node e = p then e\<lparr>entry_count := entry_count e + 1\<rparr> else e) es"

definition push_critical :: "bool \<Rightarrow> string \<Rightarrow> Kind \<Rightarrow> string \<Rightarrow> Job \<Rightarrow> (EventMailbox, unit) prog" where
  "push_critical dbg i kind json job m =
     (let n = fresh_node (critical_list m);
          es = critical_list m @
            [\<lparr>entry_node = n, entry_id = i, entry_json = json, entry_count = 1\<rparr>];
          job = job\<lparr>Job_status := None, Job_pending := Job_pending job + 1,
            Job_last_error := (if kind = K_error then Some n else Job_last_error job)\<rparr>;
          m' = put_Job i job (m\<lparr>critical_list := es\<rparr>)
      in if dbg \<and> \<not> length es \<le> max_critical_entries then (Crash Assertion_failed, m')
         else (Ret (), m'))"

definition critical :: "bool \<Rightarrow> string \<Rightarrow> Kind \<Rightarrow> string \<Rightarrow> (EventMailbox, unit) prog" where
  "critical dbg i kind json m = (case job_at m i of
       None \<Rightarrow> (Throw Std_Exception, m)
     | Some job \<Rightarrow>
         if kind = K_error then
           (case Job_last_error job of
              Some p \<Rightarrow>
                (case List.find (\<lambda>e. entry_node e = p) (critical_list m) of
                   None \<Rightarrow> (Crash Undefined_behaviour, m)
                 | Some e \<Rightarrow>
                     if dbg \<and> entry_json e \<noteq> json then (Crash Assertion_failed, m)
                     else (Ret (), m\<lparr>critical_list := bump_count p (critical_list m)\<rparr>))
            | None \<Rightarrow> push_critical dbg i kind json job m)
         else if delivered_or_pending job ! kind_index kind then (Ret (), m)
         else push_critical dbg i kind json
                (job\<lparr>delivered_or_pending := (delivered_or_pending job)[kind_index kind := True],
                     Job_last_error := None\<rparr>) m)"

definition mailbox_status :: "string \<Rightarrow> string \<Rightarrow> (EventMailbox, unit) prog" where
  "mailbox_status i json m = (case job_at m i of
       None \<Rightarrow> (Throw Std_Exception, m)
     | Some job \<Rightarrow>
         if Job_retired job \<or> delivered_or_pending job ! kind_index K_completed
            \<or> delivered_or_pending job ! kind_index K_invalid_selection then (Ret (), m)
         else (Ret (), put_Job i (job\<lparr>Job_status := Some json\<rparr>) m))"

fun first_status :: "string list \<Rightarrow> EventMailbox \<Rightarrow> (string \<times> string) option" where
  "first_status [] m = None"
| "first_status (k # ks) m = (case job_at m k of
       None \<Rightarrow> first_status ks m
     | Some job \<Rightarrow> (case Job_status job of
           Some json \<Rightarrow> Some (k, json)
         | None \<Rightarrow> first_status ks m))"

definition mailbox_front :: "string list \<Rightarrow> EventMailbox \<Rightarrow> string option" where
  "mailbox_front ks m = (case critical_list m of
       e # _ \<Rightarrow> Some (entry_json e)
     | [] \<Rightarrow> map_option snd (first_status ks m))"

definition mailbox_pop :: "string list \<Rightarrow> (EventMailbox, unit) prog" where
  "mailbox_pop ks m = (case critical_list m of
       entry # rest \<Rightarrow>
         (let entry = entry\<lparr>entry_count := entry_count entry - 1\<rparr>
          in if entry_count entry \<noteq> 0 then (Ret (), m\<lparr>critical_list := entry # rest\<rparr>)
             else case job_at m (entry_id entry) of
               None \<Rightarrow> (Crash Undefined_behaviour, m\<lparr>critical_list := entry # rest\<rparr>)
             | Some job \<Rightarrow>
                 (let job = job\<lparr>Job_last_error := (if Job_last_error job = Some (entry_node entry)
                              then None else Job_last_error job),
                            Job_pending := Job_pending job - 1\<rparr>;
                      m' = m\<lparr>critical_list := rest\<rparr>
                  in if Job_retired job \<and> Job_pending job = 0
                     then (Ret (), erase_Job (entry_id entry) m')
                     else (Ret (), put_Job (entry_id entry) job m')))
     | [] \<Rightarrow> (case first_status ks m of
           None \<Rightarrow> (Ret (), m)
         | Some (k, _) \<Rightarrow> (case job_at m k of
               None \<Rightarrow> (Ret (), m)
             | Some job \<Rightarrow> (Ret (), put_Job k (job\<lparr>Job_status := None\<rparr>) m))))"

definition critical_size :: "EventMailbox \<Rightarrow> nat" where
  "critical_size m = length (critical_list m)"

definition job_count :: "EventMailbox \<Rightarrow> nat" where
  "job_count m = length (mailbox_jobs m)"

section \<open>Invariant\<close>

definition entries_of :: "string \<Rightarrow> Entry list \<Rightarrow> Entry list" where
  "entries_of i es = filter (\<lambda>e. entry_id e = i) es"

definition flags_set :: "Job \<Rightarrow> nat" where
  "flags_set j = length (filter id (delivered_or_pending j))"

text \<open>
  What a job record and the event list agree on. The third conjunct is the counting argument behind
  \<open>max_critical_entries\<close>: every one-shot transition accounts for itself and for the error run it
  closed, and an open error run for one more.
\<close>

definition Job_ok :: "Entry list \<Rightarrow> string \<Rightarrow> Job \<Rightarrow> bool" where
  "Job_ok es i j \<longleftrightarrow>
     length (delivered_or_pending j) = 4 \<and>
     Job_pending j = length (entries_of i es) \<and>
     Job_pending j \<le> 2 * flags_set j + (if Job_last_error j = None then 0 else 1) \<and>
     (\<forall>p. Job_last_error j = Some p \<longrightarrow>
        entries_of i es \<noteq> [] \<and> entry_node (last (entries_of i es)) = p) \<and>
     (Job_retired j \<longrightarrow> Job_pending j \<noteq> 0 \<and> Job_status j = None) \<and>
     (delivered_or_pending j ! kind_index K_completed \<or>
      delivered_or_pending j ! kind_index K_invalid_selection \<longrightarrow> Job_status j = None)"

definition mailbox_inv :: "EventMailbox \<Rightarrow> bool" where
  "mailbox_inv m \<longleftrightarrow>
     distinct (map fst (mailbox_jobs m)) \<and>
     length (mailbox_jobs m) \<le> max_jobs \<and>
     distinct (map entry_node (critical_list m)) \<and>
     (\<forall>e \<in> set (critical_list m). job_at m (entry_id e) \<noteq> None) \<and>
     (\<forall>i j. job_at m i = Some j \<longrightarrow> Job_ok (critical_list m) i j)"

text \<open>Occurrence counters: no entry has been counted down to zero or wrapped around.\<close>

definition counts_ok :: "EventMailbox \<Rightarrow> bool" where
  "counts_ok m \<longleftrightarrow> (\<forall>e \<in> set (critical_list m). entry_count e \<noteq> 0)"

definition headroom :: "EventMailbox \<Rightarrow> bool" where
  "headroom m \<longleftrightarrow> (\<forall>e \<in> set (critical_list m). entry_count e + 1 \<noteq> 0)"


section \<open>Basic facts\<close>

lemma critical_list_put [simp]: "critical_list (put_Job i j m) = critical_list m"
  by (simp add: put_Job_def)

lemma critical_list_erase [simp]: "critical_list (erase_Job i m) = critical_list m"
  by (simp add: erase_Job_def)

lemma mailbox_jobs_put [simp]: "mailbox_jobs (put_Job i j m) = AList.update i j (mailbox_jobs m)"
  by (simp add: put_Job_def)

lemma mailbox_jobs_erase [simp]: "mailbox_jobs (erase_Job i m) = AList.delete i (mailbox_jobs m)"
  by (simp add: erase_Job_def)

lemma entries_of_Nil [simp]: "entries_of i [] = []"
  by (simp add: entries_of_def)

lemma entries_of_Cons [simp]:
  "entries_of i (e # es) = (if entry_id e = i then e # entries_of i es else entries_of i es)"
  by (simp add: entries_of_def)

lemma entries_of_append [simp]: "entries_of i (es @ fs) = entries_of i es @ entries_of i fs"
  by (simp add: entries_of_def)

lemma set_entries_of: "set (entries_of i es) = {e \<in> set es. entry_id e = i}"
  by (auto simp: entries_of_def)

lemma node_le_foldr: "e \<in> set es \<Longrightarrow> entry_node e \<le> foldr max (map entry_node es) 0"
  by (induction es) auto

lemma fresh_node_fresh: "e \<in> set es \<Longrightarrow> entry_node e \<noteq> fresh_node es"
  using node_le_foldr [of e es] by (simp add: fresh_node_def)

lemma bump_count_nodes [simp]: "map entry_node (bump_count p es) = map entry_node es"
  by (simp add: bump_count_def)

lemma entries_of_bump: "entries_of i (bump_count p es) = bump_count p (entries_of i es)"
  by (induction es) (auto simp: bump_count_def)

lemma bump_count_length [simp]: "length (bump_count p es) = length es"
  by (simp add: bump_count_def)

lemma last_bump_node [simp]:
  "es \<noteq> [] \<Longrightarrow> entry_node (last (bump_count p es)) = entry_node (last es)"
  by (simp add: bump_count_def last_map)

lemma bump_count_Nil [simp]: "bump_count p es = [] \<longleftrightarrow> es = []"
  by (simp add: bump_count_def)

lemma bump_count_id_mem: "e \<in> set (bump_count p es) \<Longrightarrow> \<exists>e' \<in> set es. entry_id e' = entry_id e"
  by (auto simp: bump_count_def)

lemma flags_set_le: "length (delivered_or_pending j) = 4 \<Longrightarrow> flags_set j \<le> 4"
  unfolding flags_set_def by (metis length_filter_le)

lemma flags_set_mark:
  assumes "b < length bs" and "\<not> bs ! b"
  shows "length (filter id (bs[b := True])) = Suc (length (filter id bs))"
proof -
  have bs: "bs = take b bs @ False # drop (Suc b) bs"
    using assms by (metis id_take_nth_drop)
  have "bs[b := True] = take b bs @ True # drop (Suc b) bs"
    using assms(1) by (rule upd_conv_take_nth_drop)
  moreover have "length (filter id bs) = length (filter id (take b bs @ False # drop (Suc b) bs))"
    using bs by simp
  ultimately show ?thesis by simp
qed

lemma kind_index_less: "kind \<noteq> K_error \<Longrightarrow> kind_index kind < 4"
  by (cases kind) auto

section \<open>Every operation keeps the invariant\<close>

lemma mailbox_invI:
  assumes "distinct (map fst (mailbox_jobs m))" and "length (mailbox_jobs m) \<le> max_jobs"
    and "distinct (map entry_node (critical_list m))"
    and "\<And>e. e \<in> set (critical_list m) \<Longrightarrow> job_at m (entry_id e) \<noteq> None"
    and "\<And>i j. job_at m i = Some j \<Longrightarrow> Job_ok (critical_list m) i j"
  shows "mailbox_inv m"
  using assms by (auto simp: mailbox_inv_def)

lemma mailbox_invD:
  assumes "mailbox_inv m"
  shows "distinct (map fst (mailbox_jobs m))" and "length (mailbox_jobs m) \<le> max_jobs"
    and "distinct (map entry_node (critical_list m))"
    and "e \<in> set (critical_list m) \<Longrightarrow> job_at m (entry_id e) \<noteq> None"
    and "job_at m i = Some j \<Longrightarrow> Job_ok (critical_list m) i j"
  using assms by (auto simp: mailbox_inv_def)

lemma Job_ok_new: "entries_of i es = [] \<Longrightarrow> Job_ok es i new_Job"
  by (simp add: Job_ok_def new_Job_def)

lemma inv_empty_mailbox: "mailbox_inv empty_mailbox"
  by (simp add: mailbox_inv_def empty_mailbox_def)

text \<open>Replacing the record of a known torrent: the other torrents are not affected.\<close>

lemma inv_put_Job:
  assumes inv: "mailbox_inv m" and known: "job_at m i = Some j"
    and ok: "Job_ok (critical_list m) i j'"
  shows "mailbox_inv (put_Job i j' m)"
proof (rule mailbox_invI)
  show "length (mailbox_jobs (put_Job i j' m)) \<le> max_jobs"
    using mailbox_invD(2) [OF inv] length_update_known [OF known] by simp
qed (use mailbox_invD [OF inv] ok in \<open>auto simp: distinct_keys_update split: if_splits\<close>)

lemma inv_erase_Job:
  assumes inv: "mailbox_inv m" and none: "entries_of i (critical_list m) = []"
  shows "mailbox_inv (erase_Job i m)"
proof (rule mailbox_invI)
  show "length (mailbox_jobs (erase_Job i m)) \<le> max_jobs"
    using mailbox_invD(2) [OF inv] length_alist_delete_le [of i "mailbox_jobs m"] by simp
next
  fix e assume e: "e \<in> set (critical_list (erase_Job i m))"
  then have "entry_id e \<noteq> i"
    using none by (auto simp: entries_of_def filter_empty_conv)
  with e show "job_at (erase_Job i m) (entry_id e) \<noteq> None"
    using mailbox_invD(4) [OF inv, of e] by simp
qed (use mailbox_invD [OF inv] in \<open>auto simp: distinct_keys_delete split: if_splits\<close>)

lemma inv_add:
  assumes inv: "mailbox_inv m" and room: "can_add i m"
  shows "mailbox_inv (snd (mailbox_add dbg i m))"
proof -
  from room have new: "job_at m i = None" and len: "length (mailbox_jobs m) < max_jobs"
    by (auto simp: can_add_def)
  have none: "entries_of i (critical_list m) = []"
    using mailbox_invD(4) [OF inv] new by (fastforce simp: entries_of_def filter_empty_conv)
  have "mailbox_inv (put_Job i new_Job m)"
  proof (rule mailbox_invI)
    show "length (mailbox_jobs (put_Job i new_Job m)) \<le> max_jobs"
      using len length_update_new [OF new] by simp
  qed (use mailbox_invD [OF inv] Job_ok_new [OF none] in
        \<open>auto simp: distinct_keys_update split: if_splits\<close>)
  with room new show ?thesis by (simp add: mailbox_add_def)
qed

lemma inv_retire:
  assumes inv: "mailbox_inv m"
  shows "mailbox_inv (retire i m)"
proof (cases "job_at m i")
  case None
  with inv show ?thesis by (simp add: retire_def)
next
  case (Some j)
  have ok: "Job_ok (critical_list m) i j" using inv Some by (rule mailbox_invD(5))
  show ?thesis
  proof (cases "Job_pending j = 0")
    case True
    with ok have "entries_of i (critical_list m) = []" by (simp add: Job_ok_def)
    with inv have "mailbox_inv (erase_Job i m)" by (rule inv_erase_Job)
    with Some True show ?thesis by (simp add: retire_def)
  next
    case False
    with ok have "Job_ok (critical_list m) i (j\<lparr>Job_retired := True, Job_status := None\<rparr>)"
      by (auto simp: Job_ok_def flags_set_def)
    with inv Some False show ?thesis by (simp add: retire_def inv_put_Job)
  qed
qed

lemma inv_status:
  assumes inv: "mailbox_inv m"
  shows "mailbox_inv (snd (mailbox_status i json m))"
proof (cases "job_at m i")
  case None
  with inv show ?thesis by (simp add: mailbox_status_def)
next
  case (Some j)
  have "Job_ok (critical_list m) i j" using inv Some by (rule mailbox_invD(5))
  then have "\<not> (Job_retired j \<or> delivered_or_pending j ! kind_index K_completed
      \<or> delivered_or_pending j ! kind_index K_invalid_selection) \<Longrightarrow>
      Job_ok (critical_list m) i (j\<lparr>Job_status := Some json\<rparr>)"
    by (auto simp: Job_ok_def flags_set_def)
  with inv Some show ?thesis by (auto simp: mailbox_status_def inv_put_Job)
qed


text \<open>The new entry of a torrent goes behind everything already queued.\<close>

lemma inv_push:
  assumes inv: "mailbox_inv m" and known: "job_at m i = Some j0"
    and flags: "length (delivered_or_pending j) = 4"
    and pend: "Job_pending j = length (entries_of i (critical_list m))"
    and room: "Job_pending j + 1 \<le> 2 * flags_set j + (if kind = K_error then 1 else 0)"
    and err: "kind \<noteq> K_error \<Longrightarrow> Job_last_error j = None"
  shows "mailbox_inv (snd (push_critical dbg i kind json j m))"
proof -
  let ?n = "fresh_node (critical_list m)"
  let ?e = "\<lparr>entry_node = ?n, entry_id = i, entry_json = json, entry_count = 1\<rparr>"
  let ?j = "j\<lparr>Job_status := None, Job_pending := Job_pending j + 1,
    Job_last_error := (if kind = K_error then Some ?n else Job_last_error j)\<rparr>"
  let ?m = "put_Job i ?j (m\<lparr>critical_list := critical_list m @ [?e]\<rparr>)"
  have "mailbox_inv ?m"
  proof (rule mailbox_invI)
    show "length (mailbox_jobs ?m) \<le> max_jobs"
      using mailbox_invD(2) [OF inv] length_update_known [OF known] by simp
    show "distinct (map entry_node (critical_list ?m))"
      using mailbox_invD(3) [OF inv] fresh_node_fresh [of _ "critical_list m"] by fastforce
    show "job_at ?m (entry_id e) \<noteq> None" if "e \<in> set (critical_list ?m)" for e
      using that mailbox_invD(4) [OF inv, of e] by auto
    show "Job_ok (critical_list ?m) i' j'" if at: "job_at ?m i' = Some j'" for i' j'
    proof (cases "i' = i")
      case True
      with at flags pend room err show ?thesis
        by (cases "kind = K_error") (auto simp: Job_ok_def flags_set_def)
    next
      case False
      with at mailbox_invD(5) [OF inv, of i' j'] show ?thesis
        by (auto simp: Job_ok_def)
    qed
  qed (use mailbox_invD [OF inv] in \<open>auto simp: distinct_keys_update\<close>)
  then show ?thesis by (simp add: push_critical_def Let_def)
qed

lemma inv_bump:
  assumes inv: "mailbox_inv m"
  shows "mailbox_inv (m\<lparr>critical_list := bump_count p (critical_list m)\<rparr>)"
proof (rule mailbox_invI)
  fix i j assume "job_at (m\<lparr>critical_list := bump_count p (critical_list m)\<rparr>) i = Some j"
  then have "Job_ok (critical_list m) i j" using inv by (simp add: mailbox_invD(5))
  then show "Job_ok (critical_list (m\<lparr>critical_list := bump_count p (critical_list m)\<rparr>)) i j"
    by (auto simp: Job_ok_def entries_of_bump)
next
  fix e assume "e \<in> set (critical_list (m\<lparr>critical_list := bump_count p (critical_list m)\<rparr>))"
  then obtain e' where "e' \<in> set (critical_list m)" and "entry_id e' = entry_id e"
    by (auto dest: bump_count_id_mem)
  then show "job_at (m\<lparr>critical_list := bump_count p (critical_list m)\<rparr>) (entry_id e) \<noteq> None"
    using mailbox_invD(4) [OF inv, of e'] by simp
qed (use mailbox_invD [OF inv] in auto)

lemma inv_critical:
  assumes inv: "mailbox_inv m"
  shows "mailbox_inv (snd (critical dbg i kind json m))"
proof (cases "job_at m i")
  case None
  with inv show ?thesis by (simp add: critical_def)
next
  case (Some j)
  have ok: "Job_ok (critical_list m) i j" using inv Some by (rule mailbox_invD(5))
  show ?thesis
  proof (cases "kind = K_error")
    case err: True
    show ?thesis
    proof (cases "Job_last_error j")
      case None
      with ok inv Some err have "mailbox_inv (snd (push_critical dbg i kind json j m))"
        by (intro inv_push) (auto simp: Job_ok_def)
      with Some err None show ?thesis by (simp add: critical_def)
    next
      case (Some p)
      with \<open>job_at m i = Some j\<close> err inv inv_bump [OF inv, of p] show ?thesis
        by (auto simp: critical_def split: option.splits)
    qed
  next
    case one_shot: False
    let ?b = "kind_index kind"
    let ?j = "j\<lparr>delivered_or_pending := (delivered_or_pending j)[?b := True], Job_last_error := None\<rparr>"
    have "mailbox_inv (snd (push_critical dbg i kind json ?j m))"
      if fresh: "\<not> delivered_or_pending j ! ?b"
    proof -
      have "flags_set ?j = Suc (flags_set j)"
        using ok fresh kind_index_less [OF one_shot]
        by (simp add: flags_set_def flags_set_mark Job_ok_def)
      with ok inv Some one_shot show ?thesis
        by (intro inv_push) (auto simp: Job_ok_def split: if_splits)
    qed
    with Some one_shot inv show ?thesis by (auto simp: critical_def)
  qed
qed

lemma inv_pop_entry:
  assumes inv: "mailbox_inv m" and front: "critical_list m = e # rest"
    and known: "job_at m (entry_id e) = Some j"
    and j': "j' = j\<lparr>Job_last_error := (if Job_last_error j = Some (entry_node e) then None
               else Job_last_error j), Job_pending := Job_pending j - 1\<rparr>"
  shows "mailbox_inv (if Job_retired j' \<and> Job_pending j' = 0
     then erase_Job (entry_id e) (m\<lparr>critical_list := rest\<rparr>)
     else put_Job (entry_id e) j' (m\<lparr>critical_list := rest\<rparr>))"
proof -
  let ?i = "entry_id e"
  let ?r = "m\<lparr>critical_list := rest\<rparr>"
  have ok: "Job_ok (critical_list m) ?i j" using inv known by (rule mailbox_invD(5))
  have dist: "distinct (map entry_node (e # rest))" using mailbox_invD(3) [OF inv] front by simp
  have same: "Job_last_error j = Some (entry_node e) \<longleftrightarrow>
      Job_last_error j \<noteq> None \<and> entries_of ?i rest = []"
  proof (cases "entries_of ?i rest = []")
    case True
    with ok front show ?thesis by (auto simp: Job_ok_def)
  next
    case False
    then have "last (entries_of ?i rest) \<in> set rest"
      using last_in_set [OF False] by (simp add: set_entries_of)
    then have "entry_node (last (entries_of ?i rest)) \<noteq> entry_node e"
      using dist by (simp, metis imageI)
    with ok front False show ?thesis by (auto simp: Job_ok_def)
  qed
  have ok': "Job_ok rest ?i j'" if "\<not> (Job_retired j' \<and> Job_pending j' = 0)"
    using ok front same that unfolding Job_ok_def j' by (auto simp: flags_set_def split: if_splits)
  have other: "Job_ok rest i' k" if "job_at m i' = Some k" and "i' \<noteq> ?i" for i' k
    using mailbox_invD(5) [OF inv that(1)] that(2) front by (auto simp: Job_ok_def)
  show ?thesis
  proof (cases "Job_retired j' \<and> Job_pending j' = 0")
    case True
    then have none: "entries_of ?i rest = []" using ok front by (simp add: Job_ok_def j')
    have "mailbox_inv (erase_Job ?i ?r)"
    proof (rule mailbox_invI)
      show "length (mailbox_jobs (erase_Job ?i ?r)) \<le> max_jobs"
        using mailbox_invD(2) [OF inv] length_alist_delete_le [of ?i "mailbox_jobs m"] by simp
      show "job_at (erase_Job ?i ?r) (entry_id f) \<noteq> None"
        if "f \<in> set (critical_list (erase_Job ?i ?r))" for f
        using that none mailbox_invD(4) [OF inv, of f] front
        by (auto simp: entries_of_def filter_empty_conv)
    qed (use mailbox_invD [OF inv] front other in \<open>auto simp: distinct_keys_delete split: if_splits\<close>)
    with True show ?thesis by simp
  next
    case False
    have "mailbox_inv (put_Job ?i j' ?r)"
    proof (rule mailbox_invI)
      show "length (mailbox_jobs (put_Job ?i j' ?r)) \<le> max_jobs"
        using mailbox_invD(2) [OF inv] length_update_known [OF known] by simp
    qed (use mailbox_invD [OF inv] front other ok' [OF False] in
          \<open>auto simp: distinct_keys_update split: if_splits\<close>)
    with False show ?thesis by (simp only: if_False)
  qed
qed

lemma inv_set_count:
  assumes inv: "mailbox_inv m" and front: "critical_list m = e # rest"
  shows "mailbox_inv (m\<lparr>critical_list := e\<lparr>entry_count := c\<rparr> # rest\<rparr>)"
proof -
  have "Job_ok (e\<lparr>entry_count := c\<rparr> # rest) i j" if "job_at m i = Some j" for i j
    using mailbox_invD(5) [OF inv that] front by (auto simp: Job_ok_def)
  then show ?thesis using mailbox_invD [OF inv] front by (intro mailbox_invI) auto
qed

lemma inv_pop:
  assumes inv: "mailbox_inv m"
  shows "mailbox_inv (snd (mailbox_pop ks m))"
proof (cases "critical_list m")
  case (Cons e rest)
  note set_count = inv_set_count [OF inv Cons]
  show ?thesis
  proof (cases "job_at m (entry_id e)")
    case None
    with set_count Cons show ?thesis by (simp add: mailbox_pop_def Let_def)
  next
    case (Some j)
    from inv_pop_entry [OF inv Cons Some refl] set_count Cons Some show ?thesis
      by (auto simp: mailbox_pop_def Let_def split: if_splits)
  qed
next
  case Nil
  have "mailbox_inv (put_Job k (j\<lparr>Job_status := None\<rparr>) m)" if "job_at m k = Some j" for k j
    using mailbox_invD(5) [OF inv that] that inv
    by (intro inv_put_Job) (auto simp: Job_ok_def flags_set_def)
  with Nil inv show ?thesis by (auto simp: mailbox_pop_def split: option.splits)
qed


section \<open>Capacity\<close>

lemma Job_ok_bound:
  assumes "Job_ok es i j"
  shows "length (entries_of i es) \<le> 9"
proof -
  have "flags_set j \<le> 4" using assms by (simp add: Job_ok_def flags_set_le)
  moreover have "length (entries_of i es) \<le> 2 * flags_set j + (if Job_last_error j = None then 0 else 1)"
    using assms by (simp add: Job_ok_def)
  ultimately show ?thesis by (simp split: if_splits)
qed

lemma capacity_per_job:
  assumes inv: "mailbox_inv m"
  shows "length (critical_list m) \<le> 9 * length (mailbox_jobs m)"
proof -
  let ?ks = "map fst (mailbox_jobs m)"
  have mem: "entry_id e \<in> set ?ks" if "e \<in> set (critical_list m)" for e
    using mailbox_invD(4) [OF inv that] map_of_eq_None_iff [of "mailbox_jobs m" "entry_id e"]
    by auto
  have "length (critical_list m) = (\<Sum>k\<leftarrow>?ks. length (entries_of k (critical_list m)))"
    unfolding entries_of_def using mailbox_invD(1) [OF inv] mem by (rule length_filter_eq_sum)
  also have "\<dots> \<le> (\<Sum>k\<leftarrow>?ks. 9)"
  proof (rule sum_list_mono)
    fix k assume "k \<in> set ?ks"
    then obtain j where "job_at m k = Some j"
      using map_of_eq_None_iff [of "mailbox_jobs m" k] by (cases "job_at m k") auto
    then show "length (entries_of k (critical_list m)) \<le> 9"
      by (rule Job_ok_bound [OF mailbox_invD(5) [OF inv]])
  qed
  finally show ?thesis by (simp add: sum_list_triv o_def)
qed

lemma capacity_total:
  assumes inv: "mailbox_inv m"
  shows "length (critical_list m) \<le> max_critical_entries"
  using capacity_per_job [OF inv] mailbox_invD(2) [OF inv]
  by (simp add: max_critical_entries_def)

lemma push_never_asserts:
  assumes "mailbox_inv (snd (push_critical dbg i kind json j m))"
  shows "fst (push_critical dbg i kind json j m) = Ret ()"
  using capacity_total [OF assms] by (auto simp: push_critical_def Let_def split: if_splits)

section \<open>Pending events as a queue\<close>

text \<open>
  The abstraction: an entry stands for \<open>entry_count\<close> occurrences of its payload. \<open>deliveries\<close>
  is what a consumer reads, in order; \<open>queue_of\<close> is the part that belongs to one torrent.
\<close>

definition expand :: "Entry list \<Rightarrow> string list" where
  "expand es = concat (map (\<lambda>e. replicate (unat (entry_count e)) (entry_json e)) es)"

definition deliveries :: "EventMailbox \<Rightarrow> string list" where
  "deliveries m = expand (critical_list m)"

definition queue_of :: "string \<Rightarrow> EventMailbox \<Rightarrow> string list" where
  "queue_of i m = expand (entries_of i (critical_list m))"

text \<open>The payload of the open error run of a torrent, when there is one.\<close>

definition error_run :: "string \<Rightarrow> EventMailbox \<Rightarrow> string option" where
  "error_run i m = (case job_at m i of
       None \<Rightarrow> None
     | Some j \<Rightarrow> (case Job_last_error j of
           None \<Rightarrow> None
         | Some p \<Rightarrow> map_option entry_json (List.find (\<lambda>e. entry_node e = p) (critical_list m))))"

lemma expand_Nil [simp]: "expand [] = []"
  by (simp add: expand_def)

lemma expand_Cons [simp]:
  "expand (e # es) = replicate (unat (entry_count e)) (entry_json e) @ expand es"
  by (simp add: expand_def)

lemma expand_append [simp]: "expand (es @ fs) = expand es @ expand fs"
  by (simp add: expand_def)

lemma bump_count_other: "(\<And>e. e \<in> set es \<Longrightarrow> entry_node e \<noteq> p) \<Longrightarrow> bump_count p es = es"
  unfolding bump_count_def by (rule map_if_absent) auto

lemma unat_Suc_word: "(c::64 word) + 1 \<noteq> 0 \<Longrightarrow> unat (c + 1) = Suc (unat c)"
  by (metis add.commute unatSuc)

lemma unat_pred_word: "(c::64 word) \<noteq> 0 \<Longrightarrow> unat c = Suc (unat (c - 1))"
  by (metis diff_add_cancel unat_Suc_word)

lemma replicate_snoc: "replicate (Suc n) x = replicate n x @ [x]"
  by (simp add: replicate_append_same)

lemma expand_bump_last:
  assumes "es \<noteq> []" and "distinct (map entry_node es)" and "entry_count (last es) + 1 \<noteq> 0"
  shows "expand (bump_count (entry_node (last es)) es) = expand es @ [entry_json (last es)]"
proof -
  obtain fs e where es: "es = fs @ [e]" using assms(1) by (metis append_butlast_last_id)
  have "bump_count (entry_node e) fs = fs"
    using assms(2) es by (intro bump_count_other) (simp, metis imageI)
  moreover have "bump_count (entry_node e) [e] = [e\<lparr>entry_count := entry_count e + 1\<rparr>]"
    by (simp add: bump_count_def)
  ultimately have "bump_count (entry_node e) es = fs @ [e\<lparr>entry_count := entry_count e + 1\<rparr>]"
    using es by (simp add: bump_count_def)
  then show ?thesis
    using es assms(3) by (simp add: unat_Suc_word replicate_append_same)
qed

lemma find_last_node:
  assumes inv: "mailbox_inv m" and "job_at m i = Some j" and "Job_last_error j = Some p"
  shows "List.find (\<lambda>e. entry_node e = p) (critical_list m) = Some (last (entries_of i (critical_list m)))"
    and "entry_node (last (entries_of i (critical_list m))) = p"
    and "entries_of i (critical_list m) \<noteq> []"
    and "last (entries_of i (critical_list m)) \<in> set (critical_list m)"
proof -
  let ?l = "last (entries_of i (critical_list m))"
  have "Job_ok (critical_list m) i j" using inv assms(2) by (rule mailbox_invD(5))
  then show ne: "entries_of i (critical_list m) \<noteq> []" and p: "entry_node ?l = p"
    using assms(3) by (auto simp: Job_ok_def)
  show mem: "?l \<in> set (critical_list m)"
    using last_in_set [OF ne] by (simp add: set_entries_of)
  have inj: "inj_on entry_node (set (critical_list m))"
    using mailbox_invD(3) [OF inv] by (simp add: distinct_map)
  show "List.find (\<lambda>e. entry_node e = p) (critical_list m) = Some ?l"
  proof (cases "List.find (\<lambda>e. entry_node e = p) (critical_list m)")
    case None
    with mem p show ?thesis by (auto simp: find_None_iff)
  next
    case (Some e)
    then have "e \<in> set (critical_list m)" and "entry_node e = p" by (auto dest: find_Some_mem)
    with inj mem p have "e = ?l" by (auto dest: inj_onD)
    with Some show ?thesis by simp
  qed
qed

lemma error_run_last:
  assumes "mailbox_inv m" and "job_at m i = Some j" and "Job_last_error j = Some p"
  shows "error_run i m = Some (entry_json (last (entries_of i (critical_list m))))"
  using find_last_node(1) [OF assms] assms(2,3) by (simp add: error_run_def)


section \<open>Posting an event\<close>

text \<open>An event is accepted when it is an error, or a one-shot transition not seen before.\<close>

definition accepts :: "string \<Rightarrow> Kind \<Rightarrow> EventMailbox \<Rightarrow> bool" where
  "accepts i kind m \<longleftrightarrow> (case job_at m i of
       None \<Rightarrow> False
     | Some j \<Rightarrow> kind = K_error \<or> \<not> delivered_or_pending j ! kind_index kind)"

lemma push_critical_queue:
  "queue_of i' (snd (push_critical dbg i kind json j m)) =
     (if i' = i then queue_of i m @ [json] else queue_of i' m)"
  by (simp add: push_critical_def Let_def queue_of_def)

lemma push_critical_deliveries:
  "deliveries (snd (push_critical dbg i kind json j m)) = deliveries m @ [json]"
  by (simp add: push_critical_def Let_def deliveries_def)

lemma bump_queue:
  assumes inv: "mailbox_inv m" and known: "job_at m i = Some j" and run: "Job_last_error j = Some p"
    and room: "headroom m" and json: "error_run i m = Some json"
  shows "queue_of i' (m\<lparr>critical_list := bump_count p (critical_list m)\<rparr>) =
     (if i' = i then queue_of i m @ [json] else queue_of i' m)"
proof -
  let ?es = "entries_of i (critical_list m)"
  note last = find_last_node [OF inv known run]
  have dist: "distinct (map entry_node ?es)"
    using mailbox_invD(3) [OF inv] by (simp add: entries_of_def distinct_map_filter)
  have "entry_count (last ?es) + 1 \<noteq> 0" using room last(4) by (simp add: headroom_def)
  then have same: "expand (bump_count p ?es) = expand ?es @ [json]"
    using expand_bump_last [OF last(3) dist] last(2) error_run_last [OF inv known run] json by simp
  have other: "bump_count p (entries_of i' (critical_list m)) = entries_of i' (critical_list m)"
    if "i' \<noteq> i"
  proof (rule bump_count_other)
    fix e assume "e \<in> set (entries_of i' (critical_list m))"
    then have e: "e \<in> set (critical_list m)" and "entry_id e = i'" by (auto simp: set_entries_of)
    moreover have "entry_id (last ?es) = i" using last_in_set [OF last(3)] by (simp add: set_entries_of)
    ultimately have "e \<noteq> last ?es" using that by auto
    then show "entry_node e \<noteq> p"
      using e last(2,4) mailbox_invD(3) [OF inv] by (auto simp: distinct_map dest: inj_onD)
  qed
  show ?thesis using same other by (simp add: queue_of_def entries_of_bump)
qed

text \<open>The three ways an event is taken in, and the two ways a known torrent's event is not.\<close>

lemma critical_unknown: "job_at m i = None \<Longrightarrow> critical dbg i kind json m = (Throw Std_Exception, m)"
  by (simp add: critical_def)

lemma critical_duplicate:
  assumes "job_at m i = Some j" and "kind \<noteq> K_error" and "delivered_or_pending j ! kind_index kind"
  shows "critical dbg i kind json m = (Ret (), m)"
  using assms by (simp add: critical_def)

lemma critical_push:
  assumes inv: "mailbox_inv m" and known: "job_at m i = Some j"
    and new: "accepts i kind m" and no_run: "kind = K_error \<Longrightarrow> Job_last_error j = None"
  shows "\<exists>j'. critical dbg i kind json m = push_critical dbg i kind json j' m
     \<and> fst (push_critical dbg i kind json j' m) = Ret ()
     \<and> delivered_or_pending j' = (if kind = K_error then delivered_or_pending j
         else (delivered_or_pending j)[kind_index kind := True])"
proof -
  define j' where "j' = (if kind = K_error then j
    else j\<lparr>delivered_or_pending := (delivered_or_pending j)[kind_index kind := True],
           Job_last_error := None\<rparr>)"
  have eq: "critical dbg i kind json m = push_critical dbg i kind json j' m"
    using known new no_run by (cases "kind = K_error") (auto simp: critical_def accepts_def j'_def)
  moreover have "fst (push_critical dbg i kind json j' m) = Ret ()"
    using inv_critical [OF inv, of dbg i kind json] eq by (simp add: push_never_asserts)
  ultimately show ?thesis by (auto simp: j'_def)
qed

lemma critical_bump:
  assumes inv: "mailbox_inv m" and known: "job_at m i = Some j" and run: "Job_last_error j = Some p"
    and same: "dbg \<Longrightarrow> error_run i m = Some json"
  shows "critical dbg i K_error json m =
     (Ret (), m\<lparr>critical_list := bump_count p (critical_list m)\<rparr>)"
  using find_last_node(1) [OF inv known run] error_run_last [OF inv known run] known run same
  by (auto simp: critical_def)

lemma critical_posts:
  assumes inv: "mailbox_inv m" and new: "accepts i kind m" and room: "headroom m"
    and same: "kind = K_error \<Longrightarrow> error_run i m \<in> {None, Some json}"
  shows "fst (critical dbg i kind json m) = Ret ()"
    and "queue_of i' (snd (critical dbg i kind json m)) =
      (if i' = i then queue_of i m @ [json] else queue_of i' m)"
proof -
  obtain j where known: "job_at m i = Some j" using new by (auto simp: accepts_def split: option.splits)
  have "fst (critical dbg i kind json m) = Ret () \<and>
    queue_of i' (snd (critical dbg i kind json m)) =
      (if i' = i then queue_of i m @ [json] else queue_of i' m)"
  proof (cases "kind = K_error \<and> Job_last_error j \<noteq> None")
    case True
    then obtain p where run: "Job_last_error j = Some p" by auto
    have json: "error_run i m = Some json"
      using same True error_run_last [OF inv known run] by auto
    show ?thesis
      using critical_bump [OF inv known run, of dbg json] json True
        bump_queue [OF inv known run room json] by simp
  next
    case False
    with critical_push [OF inv known new, of dbg json] show ?thesis
      by (auto simp: push_critical_queue)
  qed
  then show "fst (critical dbg i kind json m) = Ret ()"
    and "queue_of i' (snd (critical dbg i kind json m)) =
      (if i' = i then queue_of i m @ [json] else queue_of i' m)" by auto
qed

lemma counts_ok_critical:
  assumes ok: "counts_ok m" and room: "headroom m"
  shows "counts_ok (snd (critical dbg i kind json m))"
  using assms
  by (auto simp: counts_ok_def headroom_def critical_def push_critical_def bump_count_def Let_def
      split: option.splits)

section \<open>Reading an event\<close>

lemma critical_list_put_update [simp]:
  "critical_list (put_Job i j (m\<lparr>critical_list := es\<rparr>)) = es"
  "critical_list (erase_Job i (m\<lparr>critical_list := es\<rparr>)) = es"
  by (simp_all add: put_Job_def erase_Job_def)

lemma pop_entry:
  assumes inv: "mailbox_inv m" and ok: "counts_ok m" and front: "critical_list m = e # rest"
  shows "\<exists>m'. mailbox_pop ks m = (Ret (), m') \<and> mailbox_front ks m = Some (entry_json e)
     \<and> deliveries m = entry_json e # deliveries m' \<and> counts_ok m'
     \<and> (\<forall>i. queue_of i m = (if i = entry_id e then entry_json e # queue_of i m' else queue_of i m'))"
proof -
  have c: "entry_count e \<noteq> 0" using ok front by (simp add: counts_ok_def)
  obtain j where known: "job_at m (entry_id e) = Some j"
    using mailbox_invD(4) [OF inv, of e] front by auto
  define c' where "c' = entry_count e - 1"
  have rep: "replicate (unat (entry_count e)) x = x # replicate (unat c') x" for x :: string
    unfolding c'_def by (subst unat_pred_word [OF c]) simp
  show ?thesis
  proof (cases "entry_count e - 1 = 0")
    case True
    then have "entry_count e = 1" by simp
    with front known ok show ?thesis
      by (auto simp: mailbox_pop_def mailbox_front_def Let_def deliveries_def queue_of_def counts_ok_def)
  next
    case False
    then have "c' \<noteq> 0" and pop: "mailbox_pop ks m = (Ret (), m\<lparr>critical_list := e\<lparr>entry_count := c'\<rparr> # rest\<rparr>)"
      using front by (simp_all add: mailbox_pop_def c'_def)
    moreover have "mailbox_front ks m = Some (entry_json e)" using front by (simp add: mailbox_front_def)
    ultimately show ?thesis
      using ok front rep by (simp add: deliveries_def queue_of_def counts_ok_def)
  qed
qed

text \<open>A consumer that reads \<open>n\<close> events: look at the front, copy it, pop it.\<close>

fun consume :: "string list \<Rightarrow> nat \<Rightarrow> EventMailbox \<Rightarrow> string list \<times> EventMailbox" where
  "consume ks 0 m = ([], m)"
| "consume ks (Suc n) m = (case mailbox_front ks m of
       None \<Rightarrow> ([], m)
     | Some json \<Rightarrow> (let (out, m') = consume ks n (snd (mailbox_pop ks m)) in (json # out, m')))"

lemma consume_deliveries:
  assumes "mailbox_inv m" and "counts_ok m" and "n = length (deliveries m)"
  shows "fst (consume ks n m) = deliveries m \<and> critical_list (snd (consume ks n m)) = []
     \<and> mailbox_inv (snd (consume ks n m))"
  using assms
proof (induction n arbitrary: m)
  case 0
  have "critical_list m = []"
  proof (cases "critical_list m")
    case (Cons e rest)
    with pop_entry [OF 0(1,2) Cons, of ks] 0(3) show ?thesis by auto
  qed
  with 0 show ?case by (simp add: deliveries_def)
next
  case (Suc n)
  obtain e rest where front: "critical_list m = e # rest"
    using Suc.prems(3) by (cases "critical_list m") (auto simp: deliveries_def)
  obtain m' where pop: "mailbox_pop ks m = (Ret (), m')" and top: "mailbox_front ks m = Some (entry_json e)"
    and del: "deliveries m = entry_json e # deliveries m'" and ok: "counts_ok m'"
    using pop_entry [OF Suc.prems(1,2) front, of ks] by auto
  have inv': "mailbox_inv m'" using inv_pop [OF Suc.prems(1), of ks] pop by simp
  have "n = length (deliveries m')" using Suc.prems(3) del by simp
  from Suc.IH [OF inv' ok this] pop top del show ?case by (simp add: case_prod_beta)
qed


section \<open>The mailbox as an event channel\<close>

definition mailbox_accepts :: "EventMailbox \<Rightarrow> string \<Rightarrow> Kind \<Rightarrow> string \<Rightarrow> bool" where
  "mailbox_accepts m i kind json \<longleftrightarrow>
     accepts i kind m \<and> headroom m \<and> (kind = K_error \<longrightarrow> error_run i m \<in> {None, Some json})"

definition mailbox_post :: "bool \<Rightarrow> string \<Rightarrow> Kind \<Rightarrow> string \<Rightarrow> EventMailbox \<Rightarrow> EventMailbox" where
  "mailbox_post dbg i kind json m = snd (critical dbg i kind json m)"

definition mailbox_take :: "string list \<Rightarrow> EventMailbox \<Rightarrow> (string \<times> string \<times> EventMailbox) option" where
  "mailbox_take ks m = (case critical_list m of
       [] \<Rightarrow> None
     | e # _ \<Rightarrow> Some (entry_id e, entry_json e, snd (mailbox_pop ks m)))"

definition mailbox_good :: "EventMailbox \<Rightarrow> bool" where
  "mailbox_good m \<longleftrightarrow> mailbox_inv m \<and> counts_ok m"

interpretation mb: bounded_channel mailbox_good mailbox_accepts "mailbox_post dbg"
  "mailbox_take ks" queue_of critical_size max_critical_entries for dbg ks
proof (unfold_locales, goal_cases)
  case (1 m i k v)
  then show ?case
    by (simp add: mailbox_good_def mailbox_post_def mailbox_accepts_def inv_critical counts_ok_critical)
next
  case (2 m i k v i')
  then show ?case
    unfolding mailbox_good_def mailbox_post_def mailbox_accepts_def
    by (intro critical_posts) auto
next
  case (3 m i v m')
  then obtain e rest where front: "critical_list m = e # rest" and m': "m' = snd (mailbox_pop ks m)"
    by (auto simp: mailbox_take_def split: list.splits)
  with 3 pop_entry [of m e rest ks] inv_pop [of m ks] show ?case
    by (auto simp: mailbox_good_def)
next
  case (4 m i v m' i')
  then obtain e rest where front: "critical_list m = e # rest" and m': "m' = snd (mailbox_pop ks m)"
    and "i = entry_id e" and "v = entry_json e"
    by (auto simp: mailbox_take_def split: list.splits)
  with 4 pop_entry [of m e rest ks] show ?case by (auto simp: mailbox_good_def)
next
  case (5 m i')
  then show ?case by (simp add: mailbox_take_def queue_of_def split: list.splits)
next
  case (6 m)
  then show ?case by (simp add: mailbox_good_def critical_size_def capacity_total)
qed

section \<open>Reachable mailboxes\<close>

text \<open>
  The session's use of the mailbox: admission is guarded by \<open>can_add\<close>; every other operation may
  be called at any time. A call that throws leaves the mailbox as it was.
\<close>

inductive mailbox_step :: "bool \<Rightarrow> EventMailbox \<Rightarrow> EventMailbox \<Rightarrow> bool" for dbg where
  step_add: "can_add i m \<Longrightarrow> mailbox_add dbg i m = (Ret (), m') \<Longrightarrow> mailbox_step dbg m m'"
| step_retire: "mailbox_step dbg m (retire i m)"
| step_critical: "critical dbg i kind json m = (Ret (), m') \<Longrightarrow> mailbox_step dbg m m'"
| step_status: "mailbox_status i json m = (Ret (), m') \<Longrightarrow> mailbox_step dbg m m'"
| step_pop: "mailbox_pop ks m = (Ret (), m') \<Longrightarrow> mailbox_step dbg m m'"

inductive mailbox_reachable :: "bool \<Rightarrow> EventMailbox \<Rightarrow> bool" for dbg where
  reach_empty: "mailbox_reachable dbg empty_mailbox"
| reach_step: "mailbox_reachable dbg m \<Longrightarrow> mailbox_step dbg m m' \<Longrightarrow> mailbox_reachable dbg m'"

lemma mailbox_step_inv: "mailbox_step dbg m m' \<Longrightarrow> mailbox_inv m \<Longrightarrow> mailbox_inv m'"
proof (induction rule: mailbox_step.induct)
  case (step_add i m m')
  then show ?case using inv_add [of m i dbg] by simp
next
  case (step_retire m i)
  then show ?case by (simp add: inv_retire)
next
  case (step_critical i kind json m m')
  then show ?case using inv_critical [of m dbg i kind json] by simp
next
  case (step_status i json m m')
  then show ?case using inv_status [of m i json] by simp
next
  case (step_pop ks m m')
  then show ?case using inv_pop [of m ks] by simp
qed

lemma mailbox_reachable_inv: "mailbox_reachable dbg m \<Longrightarrow> mailbox_inv m"
  by (induction rule: mailbox_reachable.induct) (auto intro: inv_empty_mailbox mailbox_step_inv)


lemma critical_outcome:
  assumes inv: "mailbox_inv m"
  shows "fst (critical dbg i kind json m) =
    (if job_at m i = None then Throw Std_Exception
     else if dbg \<and> kind = K_error \<and> error_run i m \<notin> {None, Some json} then Crash Assertion_failed
     else Ret ())"
proof (cases "job_at m i")
  case None
  then show ?thesis by (simp add: critical_unknown)
next
  case (Some j)
  show ?thesis
  proof (cases "kind = K_error \<and> Job_last_error j \<noteq> None")
    case True
    then obtain p where run: "Job_last_error j = Some p" by auto
    from True find_last_node(1) [OF inv Some run] error_run_last [OF inv Some run] Some run
    show ?thesis by (simp add: critical_def)
  next
    case False
    have "kind = K_error \<Longrightarrow> error_run i m = None" using False Some by (simp add: error_run_def)
    moreover have "fst (critical dbg i kind json m) = Ret ()"
    proof (cases "accepts i kind m")
      case True
      with critical_push [OF inv Some True, of dbg json] False show ?thesis by auto
    next
      case False
      with Some show ?thesis by (auto simp: accepts_def critical_duplicate)
    qed
    ultimately show ?thesis using Some by auto
  qed
qed

lemma pop_outcome:
  assumes inv: "mailbox_inv m"
  shows "fst (mailbox_pop ks m) = Ret ()"
proof (cases "critical_list m")
  case (Cons e rest)
  then obtain j where "job_at m (entry_id e) = Some j" using mailbox_invD(4) [OF inv, of e] by auto
  with Cons show ?thesis by (simp add: mailbox_pop_def Let_def)
qed (auto simp: mailbox_pop_def split: option.splits)

text \<open>Reading never brings a torrent back, and never changes whether it is retired.\<close>

lemma pop_jobs:
  "job_at (snd (mailbox_pop ks m)) i = Some j' \<Longrightarrow>
   \<exists>j. job_at m i = Some j \<and> Job_retired j = Job_retired j'"
  by (auto simp: mailbox_pop_def Let_def split: list.splits option.splits if_splits)

lemma consume_jobs:
  "job_at (snd (consume ks n m)) i = Some j' \<Longrightarrow>
   \<exists>j. job_at m i = Some j \<and> Job_retired j = Job_retired j'"
proof (induction n arbitrary: m)
  case (Suc n)
  show ?case
  proof (cases "mailbox_front ks m")
    case (Some json)
    with Suc.prems have "job_at (snd (consume ks n (snd (mailbox_pop ks m)))) i = Some j'"
      by (simp add: case_prod_beta)
    then obtain k where "job_at (snd (mailbox_pop ks m)) i = Some k" and "Job_retired k = Job_retired j'"
      using Suc.IH by blast
    with pop_jobs show ?thesis by fastforce
  qed (use Suc.prems in simp)
qed simp

lemma no_retired_without_events:
  assumes "mailbox_inv m" and "critical_list m = []" and "job_at m i = Some j"
  shows "\<not> Job_retired j"
  using mailbox_invD(5) [OF assms(1,3)] assms(2) by (auto simp: Job_ok_def)

text \<open>The record of a delivered one-shot transition is kept as long as the torrent is admitted.\<close>

lemma flag_update_mono: "bs ! b \<Longrightarrow> bs[c := True] ! b"
  by (cases "b = c"; cases "c < length bs") (auto simp: list_update_beyond)

lemma step_keeps_flags:
  assumes "mailbox_step dbg m m'" and "job_at m i = Some j" and "job_at m' i = Some j'"
    and "delivered_or_pending j ! b"
  shows "delivered_or_pending j' ! b"
  using assms
proof (induction rule: mailbox_step.induct)
  case (step_critical i' kind json m m')
  then show ?case
    by (cases "i' = i")
      (auto simp: critical_def push_critical_def Let_def flag_update_mono split: option.splits if_splits)
qed (auto simp: mailbox_add_def can_add_def retire_def mailbox_status_def mailbox_pop_def Let_def
      split: option.splits if_splits list.splits)

inductive stays_admitted :: "bool \<Rightarrow> string \<Rightarrow> EventMailbox \<Rightarrow> EventMailbox \<Rightarrow> bool" for dbg i where
  stay_refl: "job_at m i \<noteq> None \<Longrightarrow> stays_admitted dbg i m m"
| stay_step: "stays_admitted dbg i m m' \<Longrightarrow> mailbox_step dbg m' m'' \<Longrightarrow> job_at m'' i \<noteq> None \<Longrightarrow>
     stays_admitted dbg i m m''"

lemma stays_admitted_flags:
  assumes "stays_admitted dbg i m m'" and "job_at m i = Some j" and "delivered_or_pending j ! b"
  shows "\<exists>j'. job_at m' i = Some j' \<and> delivered_or_pending j' ! b"
  using assms
proof (induction rule: stays_admitted.induct)
  case (stay_step m m' m'')
  then show ?case using step_keeps_flags by (metis option.exhaust)
qed auto

lemma critical_marks:
  assumes inv: "mailbox_inv m" and new: "accepts i kind m" and one_shot: "kind \<noteq> K_error"
  shows "\<exists>j'. job_at (snd (critical dbg i kind json m)) i = Some j'
    \<and> delivered_or_pending j' ! kind_index kind"
proof -
  obtain j where known: "job_at m i = Some j" using new by (auto simp: accepts_def split: option.splits)
  have "length (delivered_or_pending j) = 4"
    using mailbox_invD(5) [OF inv known] by (simp add: Job_ok_def)
  then have "kind_index kind < length (delivered_or_pending j)"
    using kind_index_less [OF one_shot] by simp
  with known new one_shot show ?thesis
    by (simp add: critical_def accepts_def push_critical_def Let_def)
qed


section \<open>Properties\<close>

text \<open>
  C31: in every mailbox the session can build, at most \<open>max_critical_entries\<close> (256 * 9) entries are
  retained, at most 256 torrents are admitted, and no torrent holds more than nine entries.
\<close>

theorem mailbox_capacity:
  assumes "mailbox_reachable dbg m"
  shows "critical_size m \<le> max_critical_entries \<and> job_count m \<le> max_jobs
    \<and> (\<forall>i. length (entries_of i (critical_list m)) \<le> 9)"
proof -
  have inv: "mailbox_inv m" using assms by (rule mailbox_reachable_inv)
  have "length (entries_of i (critical_list m)) \<le> 9" for i
  proof (cases "job_at m i")
    case None
    then have "entries_of i (critical_list m) = []"
      using mailbox_invD(4) [OF inv] by (fastforce simp: entries_of_def filter_empty_conv)
    then show ?thesis by simp
  next
    case (Some j)
    then show ?thesis using Job_ok_bound [OF mailbox_invD(5) [OF inv]] by blast
  qed
  with capacity_total [OF inv] mailbox_invD(2) [OF inv] show ?thesis
    by (simp add: critical_size_def job_count_def)
qed

definition sample_mailbox :: EventMailbox where
  "sample_mailbox = \<lparr>critical_list =
       [\<lparr>entry_node = 1, entry_id = ''t'', entry_json = ''e'', entry_count = 1\<rparr>],
     mailbox_jobs = [(''t'', \<lparr>delivered_or_pending = [False, False, False, False], Job_status = None,
       Job_last_error = Some 1, Job_pending = 1, Job_retired = False\<rparr>)]\<rparr>"

lemma sample_mailbox_run:
  "critical dbg ''t'' K_error ''e'' (snd (mailbox_add dbg ''t'' empty_mailbox)) = (Ret (), sample_mailbox)"
  by (simp add: critical_def mailbox_add_def can_add_def empty_mailbox_def put_Job_def new_Job_def
      push_critical_def fresh_node_def max_jobs_def max_critical_entries_def sample_mailbox_def
      numeral_eq_Suc Let_def)

lemma sample_mailbox_reachable: "mailbox_reachable dbg sample_mailbox"
proof -
  have add: "mailbox_add dbg ''t'' empty_mailbox = (Ret (), snd (mailbox_add dbg ''t'' empty_mailbox))"
    and room: "can_add ''t'' empty_mailbox"
    by (simp_all add: mailbox_add_def can_add_def empty_mailbox_def max_jobs_def)
  have "mailbox_reachable dbg (snd (mailbox_add dbg ''t'' empty_mailbox))"
    by (rule reach_step [OF reach_empty step_add [OF room add]])
  then show ?thesis by (rule reach_step) (rule step_critical [OF sample_mailbox_run])
qed

theorem mailbox_capacity_witness:
  "mailbox_reachable True sample_mailbox \<and> critical_size sample_mailbox \<le> max_critical_entries"
  using mailbox_capacity [OF sample_mailbox_reachable [of True]] sample_mailbox_reachable by simp

text \<open>
  no operation of a reachable mailbox reaches undefined behaviour (the pointer \<open>last_error\<close>
  never dangles, \<open>pop\<close> always finds the job of the entry it removes), the capacity assertion never
  fires, \<open>pop\<close> always returns, and \<open>critical\<close> returns for every known torrent, with the one
  exception of the payload assertion on an open error run.
\<close>

theorem mailbox_faultless:
  assumes "mailbox_reachable dbg m"
  shows "fst (mailbox_pop ks m) = Ret () \<and>
    fst (critical dbg i kind json m) =
      (if job_at m i = None then Throw Std_Exception
       else if dbg \<and> kind = K_error \<and> error_run i m \<notin> {None, Some json} then Crash Assertion_failed
       else Ret ())"
  using pop_outcome critical_outcome mailbox_reachable_inv [OF assms] by blast

theorem mailbox_faultless_witness:
  "fst (mailbox_pop [''t''] sample_mailbox) = Ret ()
   \<and> fst (critical True ''t'' K_completed ''c'' sample_mailbox) = Ret ()"
  using mailbox_faultless [OF sample_mailbox_reachable [of True], of "[''t'']" "''t''" K_completed "''c''"]
  by (simp add: sample_mailbox_def)

text \<open>
  C9: the mailbox implements a per-torrent first-in first-out channel. Over any run of posts and
  reads in which every post is accepted, what was read of a torrent followed by what is still
  queued for it is what was queued before followed by what was posted: nothing is lost, duplicated
  or reordered, and repeated errors are read back one by one.
\<close>

theorem mailbox_run_fifo:
  assumes "mailbox_reachable dbg m" and "counts_ok m"
    and "channel_ok mailbox_accepts (mailbox_post dbg) (mailbox_take ks) acts m"
  shows "taken i (fst (channel_run (mailbox_post dbg) (mailbox_take ks) acts m))
      @ queue_of i (snd (channel_run (mailbox_post dbg) (mailbox_take ks) acts m))
    = queue_of i m @ posted i acts"
proof -
  have "mailbox_good m" using assms(1,2) by (simp add: mailbox_good_def mailbox_reachable_inv)
  from mb.run_fifo [OF this assms(3)] show ?thesis .
qed

lemma sample_mailbox_ok: "counts_ok sample_mailbox" and sample_mailbox_headroom: "headroom sample_mailbox"
  by (simp_all add: counts_ok_def headroom_def sample_mailbox_def)

lemma sample_mailbox_accepts: "mailbox_accepts sample_mailbox ''t'' K_error ''e''"
  by (simp add: mailbox_accepts_def accepts_def error_run_def sample_mailbox_headroom)
    (simp add: sample_mailbox_def)

theorem mailbox_run_fifo_witness:
  "taken ''t'' (fst (channel_run (mailbox_post False) (mailbox_take [''t''])
       [Post ''t'' K_error ''e''] sample_mailbox))
     @ queue_of ''t'' (snd (channel_run (mailbox_post False) (mailbox_take [''t''])
       [Post ''t'' K_error ''e''] sample_mailbox))
   = queue_of ''t'' sample_mailbox @ [''e'']"
  using mailbox_run_fifo [OF sample_mailbox_reachable sample_mailbox_ok,
      of False "[''t'']" "[Post ''t'' K_error ''e'']" "''t''"]
  by (simp add: sample_mailbox_accepts)

text \<open>
  C32: a consumer that reads until the critical events are exhausted reads exactly the pending
  deliveries in order, needs exactly as many reads as there are pending occurrences, and afterwards
  every torrent that had been retired has released its reservation.
\<close>

theorem mailbox_drain:
  assumes "mailbox_reachable dbg m" and "counts_ok m" and "n = length (deliveries m)"
  shows "fst (consume ks n m) = deliveries m \<and> critical_size (snd (consume ks n m)) = 0
    \<and> (\<forall>i j. job_at m i = Some j \<and> Job_retired j \<longrightarrow> job_at (snd (consume ks n m)) i = None)"
proof -
  have inv: "mailbox_inv m" using assms(1) by (rule mailbox_reachable_inv)
  note all = consume_deliveries [OF inv assms(2,3), of ks]
  have "job_at (snd (consume ks n m)) i = None" if "job_at m i = Some j" and "Job_retired j" for i j
    using consume_jobs [of ks n m i] no_retired_without_events [of "snd (consume ks n m)" i] all that
    by (cases "job_at (snd (consume ks n m)) i") auto
  with all show ?thesis by (auto simp: critical_size_def)
qed

theorem mailbox_drain_witness:
  "fst (consume [''t''] 1 sample_mailbox) = [''e'']"
  using mailbox_drain [OF sample_mailbox_reachable sample_mailbox_ok, of 1 "[''t'']"]
  by (simp add: deliveries_def sample_mailbox_def)


text \<open>
  a one-shot lifecycle transition is queued at most once per admission: once it was posted, and
  however the mailbox is used while the torrent stays admitted, posting the same kind again changes
  nothing.
\<close>

theorem mailbox_one_shot:
  assumes "mailbox_reachable dbg m" and "accepts i kind m" and "kind \<noteq> K_error"
    and "stays_admitted dbg i (snd (critical dbg i kind json m)) m'"
  shows "critical dbg i kind json' m' = (Ret (), m')"
proof -
  obtain j where "job_at (snd (critical dbg i kind json m)) i = Some j"
    and "delivered_or_pending j ! kind_index kind"
    using critical_marks [OF mailbox_reachable_inv [OF assms(1)] assms(2,3)] by blast
  with stays_admitted_flags [OF assms(4)] obtain j' where "job_at m' i = Some j'"
    and "delivered_or_pending j' ! kind_index kind" by blast
  with assms(3) show ?thesis by (simp add: critical_duplicate)
qed

theorem mailbox_one_shot_witness:
  "critical False ''t'' K_completed ''again'' (snd (critical False ''t'' K_completed ''c'' sample_mailbox))
     = (Ret (), snd (critical False ''t'' K_completed ''c'' sample_mailbox))"
proof -
  have acc: "accepts ''t'' K_completed sample_mailbox" by (simp add: accepts_def sample_mailbox_def)
  have "stays_admitted False ''t'' (snd (critical False ''t'' K_completed ''c'' sample_mailbox))
     (snd (critical False ''t'' K_completed ''c'' sample_mailbox))"
    by (rule stay_refl) (simp add: critical_def push_critical_def Let_def sample_mailbox_def)
  from mailbox_one_shot [OF sample_mailbox_reachable acc _ this] show ?thesis by simp
qed

text \<open>
  no stale telemetry. Once a torrent has completed, was rejected for an invalid selection or was
  retired, it holds no status snapshot, and a later status update is ignored; otherwise an update
  only replaces the torrent's own snapshot, so that of two updates the later one wins.
\<close>

theorem mailbox_status_latest:
  assumes "mailbox_reachable dbg m" and "job_at m i = Some j"
  shows "if Job_retired j \<or> delivered_or_pending j ! kind_index K_completed
           \<or> delivered_or_pending j ! kind_index K_invalid_selection
      then Job_status j = None \<and> mailbox_status i new m = (Ret (), m)
      else map_option Job_status (job_at (snd (mailbox_status i new m)) i) = Some (Some new)
        \<and> mailbox_status i new (snd (mailbox_status i old m)) = mailbox_status i new m
        \<and> deliveries (snd (mailbox_status i new m)) = deliveries m"
proof -
  have "Job_ok (critical_list m) i j"
    using mailbox_invD(5) [OF mailbox_reachable_inv [OF assms(1)] assms(2)] .
  with assms(2) show ?thesis
    by (auto simp: Job_ok_def mailbox_status_def put_Job_def deliveries_def)
qed

theorem mailbox_status_latest_witness:
  "map_option Job_status (job_at (snd (mailbox_status ''t'' ''new'' sample_mailbox)) ''t'') = Some (Some ''new'')"
proof -
  have "job_at sample_mailbox ''t'' = Some (snd (hd (mailbox_jobs sample_mailbox)))"
    by (simp add: sample_mailbox_def)
  from mailbox_status_latest [OF sample_mailbox_reachable this, of "''new''"] show ?thesis
    by (simp add: sample_mailbox_def)
qed

text \<open>
  the error path relies on all error payloads of a torrent being equal, and does not enforce it.
  While an error run is open, posting an error with another payload aborts in a build with assertions;
  in a release build the call succeeds, the new payload is dropped and the old one is delivered once
  more in its place.
\<close>

theorem mailbox_error_payload_dropped:
  assumes "mailbox_reachable dbg m" and "headroom m" and "error_run i m = Some old" and "old \<noteq> json"
  shows "fst (critical True i K_error json m) = Crash Assertion_failed
    \<and> fst (critical False i K_error json m) = Ret ()
    \<and> queue_of i (snd (critical False i K_error json m)) = queue_of i m @ [old]"
proof -
  have inv: "mailbox_inv m" using assms(1) by (rule mailbox_reachable_inv)
  obtain j p where known: "job_at m i = Some j" and run: "Job_last_error j = Some p"
    using assms(3) by (auto simp: error_run_def split: option.splits)
  show ?thesis
    using critical_outcome [OF inv, of True i K_error json] critical_bump [OF inv known run, of False json]
      bump_queue [OF inv known run assms(2,3)] known assms(3,4) by simp
qed

theorem mailbox_error_payload_dropped_witness:
  "queue_of ''t'' (snd (critical False ''t'' K_error ''other'' sample_mailbox)) = [''e'', ''e'']"
proof -
  have "error_run ''t'' sample_mailbox = Some ''e''"
    by (simp add: error_run_def sample_mailbox_def)
  from mailbox_error_payload_dropped [OF sample_mailbox_reachable sample_mailbox_headroom this, of "''other''"]
  show ?thesis by (simp add: queue_of_def sample_mailbox_def)
qed

end
