(* ===== verification/Disk_Checkpoint.thy ===== *)
theory Disk_Checkpoint
  imports Prelude
begin

text \<open>
  \<open>ltkit::DiskCheckpoint\<close> (\<open>src/Native/src/DiskCheckpoint.hpp\<close>): the barrier that lets one native
  checkpoint request run at a time and orders its replies (disk fence first, resume data second).
  Every method is a function from the phase to its result and the new phase. The locale
  \<open>reply_barrier\<close> states the contract the session relies on; it is interpreted on these methods.
\<close>

section \<open>The barrier\<close>

datatype Phase = Idle | Flushing | Saving | Succeeded | Failed

definition barrier_begin :: "bool \<Rightarrow> Phase \<Rightarrow> bool \<times> Phase" where
  "barrier_begin flush p =
     (if p \<noteq> Idle then (False, p) else (True, if flush then Flushing else Saving))"

definition barrier_cache_flushed :: "Phase \<Rightarrow> bool \<times> Phase" where
  "barrier_cache_flushed p = (if p \<noteq> Flushing then (False, p) else (True, Saving))"

definition barrier_resume_saved :: "Phase \<Rightarrow> bool \<times> Phase" where
  "barrier_resume_saved p = (if p \<noteq> Saving then (False, p) else (True, Succeeded))"

definition barrier_pending :: "Phase \<Rightarrow> bool" where
  "barrier_pending p \<longleftrightarrow> p = Flushing \<or> p = Saving"

definition barrier_fail :: "Phase \<Rightarrow> bool \<times> Phase" where
  "barrier_fail p = (if \<not> barrier_pending p then (False, p) else (True, Failed))"

definition barrier_idle :: "Phase \<Rightarrow> bool" where
  "barrier_idle p \<longleftrightarrow> p = Idle"

definition barrier_reset :: "Phase \<Rightarrow> Phase" where
  "barrier_reset p = Idle"

lemmas barrier_defs = barrier_begin_def barrier_cache_flushed_def barrier_resume_saved_def
  barrier_pending_def barrier_fail_def barrier_idle_def barrier_reset_def

section \<open>The contract of the barrier\<close>

text \<open>What happens to a barrier between a request and its outcome.\<close>

datatype barrier_event = Begin bool | Cache_flushed | Resume_saved | Fail

definition barrier_apply :: "barrier_event \<Rightarrow> Phase \<Rightarrow> bool \<times> Phase" where
  "barrier_apply ev p = (case ev of
       Begin flush \<Rightarrow> barrier_begin flush p
     | Cache_flushed \<Rightarrow> barrier_cache_flushed p
     | Resume_saved \<Rightarrow> barrier_resume_saved p
     | Fail \<Rightarrow> barrier_fail p)"

text \<open>The events of a run that the barrier accepted, in order, and the phase it ends in.\<close>

fun accepted_run :: "(barrier_event \<Rightarrow> 'p \<Rightarrow> bool \<times> 'p) \<Rightarrow> barrier_event list \<Rightarrow> 'p \<Rightarrow> barrier_event list \<times> 'p" where
  "accepted_run ap [] p = ([], p)"
| "accepted_run ap (ev # evs) p =
     (let (ok, p') = ap ev p; (acc, q) = accepted_run ap evs p' in (if ok then ev # acc else acc, q))"

locale reply_barrier =
  fixes ap :: "barrier_event \<Rightarrow> 'p \<Rightarrow> bool \<times> 'p"
    and idle :: "'p \<Rightarrow> bool" and fence :: "'p \<Rightarrow> bool" and saving :: "'p \<Rightarrow> bool"
    and success :: "'p \<Rightarrow> bool" and failure :: "'p \<Rightarrow> bool"
  assumes disjoint: "idle p \<Longrightarrow> \<not> fence p \<and> \<not> saving p \<and> \<not> success p \<and> \<not> failure p"
      "fence p \<Longrightarrow> \<not> saving p \<and> \<not> success p \<and> \<not> failure p"
      "saving p \<Longrightarrow> \<not> success p \<and> \<not> failure p" "success p \<Longrightarrow> \<not> failure p"
    and begin_ok: "idle p \<Longrightarrow> ap (Begin flush) p = (True, q) \<Longrightarrow> if flush then fence q else saving q"
    and begin_idle: "idle p \<Longrightarrow> fst (ap (Begin flush) p)"
    and flushed_ok: "fence p \<Longrightarrow> ap Cache_flushed p = (True, q) \<Longrightarrow> saving q"
    and saved_ok: "saving p \<Longrightarrow> ap Resume_saved p = (True, q) \<Longrightarrow> success q"
    and fail_ok: "fence p \<or> saving p \<Longrightarrow> ap Fail p = (True, q) \<Longrightarrow> failure q"
    and accepts_iff: "fst (ap ev p) \<longleftrightarrow> (case ev of Begin _ \<Rightarrow> idle p | Cache_flushed \<Rightarrow> fence p
        | Resume_saved \<Rightarrow> saving p | Fail \<Rightarrow> fence p \<or> saving p)"
    and refuses: "\<not> fst (ap ev p) \<Longrightarrow> snd (ap ev p) = p"
begin

lemma refused_step: "\<not> fst (ap ev p) \<Longrightarrow> ap ev p = (False, p)"
  using refuses [of ev p] by (cases "ap ev p") auto

lemma accepted_step: "fst (ap ev p) \<Longrightarrow> ap ev p = (True, snd (ap ev p))"
  by (cases "ap ev p") auto

lemma final_run:
  assumes "success p \<or> failure p"
  shows "accepted_run ap evs p = ([], p)"
proof (induction evs)
  case (Cons ev evs)
  have "\<not> idle p \<and> \<not> fence p \<and> \<not> saving p" using assms disjoint [of p] by auto
  then have "\<not> fst (ap ev p)" by (simp add: accepts_iff split: barrier_event.splits)
  with Cons refused_step [of ev p] show ?case by simp
qed simp

lemma saving_run:
  assumes "saving p"
  shows "accepted_run ap evs p \<in> {([], p)} \<union> {([Resume_saved], q) | q. success q} \<union> {([Fail], q) | q. failure q}"
  using assms
proof (induction evs)
  case (Cons ev evs)
  show ?case
  proof (cases "fst (ap ev p)")
    case True
    then have "ev = Resume_saved \<or> ev = Fail"
      using Cons.prems disjoint [of p] by (auto simp: accepts_iff split: barrier_event.splits)
    moreover obtain q where step: "ap ev p = (True, q)" using accepted_step [OF True] by blast
    moreover have "success q \<or> failure q"
      using calculation saved_ok [OF Cons.prems] fail_ok [of p] Cons.prems by auto
    ultimately show ?thesis
      using saved_ok [OF Cons.prems] fail_ok [of p] Cons.prems final_run [of q evs] by auto
  next
    case False
    with Cons refused_step [OF False] show ?thesis by (simp add: case_prod_beta)
  qed
qed simp

lemma fence_run:
  assumes "fence p"
  shows "accepted_run ap evs p \<in> {([], p)} \<union> {([Fail], q) | q. failure q}
    \<union> {([Cache_flushed], q) | q. saving q} \<union> {([Cache_flushed, Resume_saved], q) | q. success q}
    \<union> {([Cache_flushed, Fail], q) | q. failure q}"
  using assms
proof (induction evs)
  case (Cons ev evs)
  show ?case
  proof (cases "fst (ap ev p)")
    case True
    then consider "ev = Cache_flushed" | "ev = Fail"
      using Cons.prems disjoint [of p] by (auto simp: accepts_iff split: barrier_event.splits)
    then show ?thesis
    proof cases
      case 1
      obtain q where step: "ap ev p = (True, q)" using accepted_step [OF True] by blast
      then have q: "saving q" using 1 flushed_ok [OF Cons.prems] by simp
      from saving_run [OF q, of evs] 1 step q show ?thesis by auto
    next
      case 2
      obtain q where step: "ap ev p = (True, q)" using accepted_step [OF True] by blast
      then have q: "failure q" using 2 fail_ok [of p] Cons.prems by simp
      with final_run [of q evs] 2 step show ?thesis by simp
    qed
  next
    case False
    with Cons refused_step [OF False] show ?thesis by (simp add: case_prod_beta)
  qed
qed simp

lemma fenced_success:
  assumes "fence p" and "accepted_run ap evs p = (acc, q)" and "success q"
  shows "acc = [Cache_flushed, Resume_saved]"
  using fence_run [OF assms(1), of evs] assms disjoint [of q] by auto

end

interpretation bar: reply_barrier barrier_apply barrier_idle "\<lambda>p. p = Flushing" "\<lambda>p. p = Saving"
  "\<lambda>p. p = Succeeded" "\<lambda>p. p = Failed"
  by unfold_locales
    (auto simp: barrier_apply_def barrier_defs split: barrier_event.splits if_splits Phase.splits)

section \<open>Properties\<close>

text \<open>
  C33: the disk fence. After a request that asked for a flush, and whatever replies arrive in whatever
  order, the barrier reports success only if it accepted exactly one cache-flushed reply and then
  exactly one resume-data reply: early, duplicate and late replies are refused.
\<close>

theorem checkpoint_fence_order:
  assumes "barrier_begin True p = (True, p')" and "accepted_run barrier_apply evs p' = (acc, Succeeded)"
  shows "p = Idle \<and> acc = [Cache_flushed, Resume_saved]"
proof -
  from assms(1) have "p = Idle" and "p' = Flushing" by (auto simp: barrier_begin_def split: if_splits)
  moreover have "acc = [Cache_flushed, Resume_saved]"
    using bar.fenced_success [OF \<open>p' = Flushing\<close> assms(2)] by simp
  ultimately show ?thesis by simp
qed

theorem checkpoint_fence_order_witness:
  "barrier_begin True Idle = (True, Flushing) \<and>
   fst (accepted_run barrier_apply [Resume_saved, Cache_flushed, Cache_flushed, Resume_saved, Fail] Flushing)
     = [Cache_flushed, Resume_saved]"
  using checkpoint_fence_order [of Idle Flushing
      "[Resume_saved, Cache_flushed, Cache_flushed, Resume_saved, Fail]" "[Cache_flushed, Resume_saved]"]
  by (simp add: barrier_defs barrier_apply_def)

text \<open>
  one request at a time. A request that was begun keeps every other request out until the
  barrier is reset, whatever replies arrive (an abandoned request included), and a settled outcome
  is never overturned.
\<close>

theorem checkpoint_exclusive:
  assumes "barrier_begin flush p = (True, p')" and "accepted_run barrier_apply evs p' = (acc, q)"
  shows "\<not> fst (barrier_begin flush' q) \<and> \<not> barrier_idle q \<and> length acc \<le> 2
    \<and> (barrier_pending q \<or> accepted_run barrier_apply evs' q = ([], q))"
proof -
  from assms(1) have "p' = Flushing \<or> p' = Saving" by (auto simp: barrier_begin_def split: if_splits)
  then have q: "q \<noteq> Idle \<and> length acc \<le> 2"
    using bar.fence_run [of p' evs] bar.saving_run [of p' evs] assms(2) by auto
  moreover have "barrier_pending q \<or> accepted_run barrier_apply evs' q = ([], q)"
    using bar.final_run [of q evs'] q by (cases q) (auto simp: barrier_pending_def)
  ultimately show ?thesis by (simp add: barrier_begin_def barrier_idle_def)
qed

theorem checkpoint_exclusive_witness:
  "\<not> fst (barrier_begin True (snd (accepted_run barrier_apply [Resume_saved] Flushing)))"
  using checkpoint_exclusive [of True Idle Flushing "[Resume_saved]" "[]" Flushing True "[]"]
  by (simp add: barrier_defs barrier_apply_def)

end
