(* ===== verification/Selected_Payload.thy ===== *)
theory Selected_Payload
  imports Prelude
begin

text \<open>
  \<open>ltkit::sync_selected_payloads\<close> (\<open>src/Native/src/SelectedPayload.hpp\<close>): a fresh open, stat and
  fsync of every selected file before completion is published.

  The POSIX calls are a parameter: a record of functions over an arbitrary system state \<open>'e\<close>.
  \<open>posix_laws\<close> collects what POSIX documents about them and the theorems rely on: a descriptor
  returned by open is new and refers to the path, fstat reports the attributes of that file, close
  releases the descriptor, and none of the four calls changes a file's attributes.
\<close>

section \<open>The system interface\<close>

record file_stat =
  st_is_reg :: bool
  st_size :: int

record 'e posix =
  sys_open :: "string \<Rightarrow> 'e \<Rightarrow> int \<times> 'e"
  sys_fstat :: "int \<Rightarrow> 'e \<Rightarrow> file_stat option \<times> 'e"
  sys_fsync :: "int \<Rightarrow> 'e \<Rightarrow> int \<times> 'e"
  sys_close :: "int \<Rightarrow> 'e \<Rightarrow> int \<times> 'e"

section \<open>The check\<close>

record SelectedPayload =
  payload_path :: string
  payload_size :: int

text \<open>One iteration of the loop: the new value of \<open>ready\<close> and the system state.\<close>

definition sync_one :: "'e posix \<Rightarrow> SelectedPayload \<Rightarrow> bool \<Rightarrow> 'e \<Rightarrow> bool \<times> 'e" where
  "sync_one os file ready s0 =
     (let (fd, s1) = sys_open os (payload_path file) s0
      in if fd < 0 then (False, s1)
         else
           let (attributes, s2) = sys_fstat os fd s1;
               valid = (case attributes of None \<Rightarrow> False
                 | Some a \<Rightarrow> st_is_reg a \<and> st_size a \<ge> payload_size file);
               (synced, s3) = (if valid then let (r, s) = sys_fsync os fd s2 in (r = 0, s)
                 else (False, s2));
               ready = (if \<not> valid \<or> \<not> synced then False else ready);
               (closed, s4) = sys_close os fd s3
           in (if closed \<noteq> 0 then False else ready, s4))"

fun sync_loop :: "'e posix \<Rightarrow> SelectedPayload list \<Rightarrow> bool \<Rightarrow> 'e \<Rightarrow> bool \<times> 'e" where
  "sync_loop os [] ready s = (ready, s)"
| "sync_loop os (file # files) ready s =
     (let (ready', s') = sync_one os file ready s in sync_loop os files ready' s')"

definition sync_selected_payloads :: "'e posix \<Rightarrow> SelectedPayload list \<Rightarrow> 'e \<Rightarrow> bool \<times> 'e" where
  "sync_selected_payloads os files s = (if files = [] then (False, s) else sync_loop os files True s)"

section \<open>What POSIX documents\<close>

definition posix_laws ::
  "'e posix \<Rightarrow> ('e \<Rightarrow> int \<Rightarrow> string option) \<Rightarrow> ('e \<Rightarrow> string \<Rightarrow> file_stat option) \<Rightarrow> ('e \<Rightarrow> string list) \<Rightarrow> bool" where
  "posix_laws os fdtab attrs opened \<longleftrightarrow>
     (\<forall>p s fd s'. sys_open os p s = (fd, s') \<longrightarrow>
        attrs s' = attrs s \<and> opened s' = opened s @ [p] \<and>
        (if fd < 0 then fdtab s' = fdtab s else fdtab s fd = None \<and> fdtab s' = (fdtab s)(fd \<mapsto> p))) \<and>
     (\<forall>fd s r s'. sys_fstat os fd s = (r, s') \<longrightarrow>
        attrs s' = attrs s \<and> opened s' = opened s \<and> fdtab s' = fdtab s \<and>
        (\<forall>p a. fdtab s fd = Some p \<and> r = Some a \<longrightarrow> attrs s p = Some a)) \<and>
     (\<forall>fd s r s'. sys_fsync os fd s = (r, s') \<longrightarrow>
        attrs s' = attrs s \<and> opened s' = opened s \<and> fdtab s' = fdtab s) \<and>
     (\<forall>fd s r s'. sys_close os fd s = (r, s') \<longrightarrow>
        attrs s' = attrs s \<and> opened s' = opened s \<and> fdtab s' = (fdtab s)(fd := None))"

lemma posix_lawsD:
  assumes "posix_laws os fdtab attrs opened"
  shows "sys_open os p s = (fd, s') \<Longrightarrow> attrs s' = attrs s \<and> opened s' = opened s @ [p] \<and>
        (if fd < 0 then fdtab s' = fdtab s else fdtab s fd = None \<and> fdtab s' = (fdtab s)(fd \<mapsto> p))"
    and "sys_fstat os fd s = (r, s') \<Longrightarrow> attrs s' = attrs s \<and> opened s' = opened s \<and> fdtab s' = fdtab s \<and>
        (\<forall>p a. fdtab s fd = Some p \<and> r = Some a \<longrightarrow> attrs s p = Some a)"
    and "sys_fsync os fd s = (c, s') \<Longrightarrow> attrs s' = attrs s \<and> opened s' = opened s \<and> fdtab s' = fdtab s"
    and "sys_close os fd s = (c, s') \<Longrightarrow>
        attrs s' = attrs s \<and> opened s' = opened s \<and> fdtab s' = (fdtab s)(fd := None)"
  using assms unfolding posix_laws_def by blast+

section \<open>One file, then all files\<close>

definition payload_present :: "(string \<Rightarrow> file_stat option) \<Rightarrow> SelectedPayload \<Rightarrow> bool" where
  "payload_present view file \<longleftrightarrow>
     (\<exists>a. view (payload_path file) = Some a \<and> st_is_reg a \<and> st_size a \<ge> payload_size file)"

lemma sync_one_laws:
  assumes laws: "posix_laws os fdtab attrs opened" and run: "sync_one os file ready s = (ready', s')"
  shows "attrs s' = attrs s \<and> opened s' = opened s @ [payload_path file] \<and> fdtab s' = fdtab s \<and>
    (ready' \<longrightarrow> ready \<and> payload_present (attrs s) file)"
proof -
  obtain fd s1 where op: "sys_open os (payload_path file) s = (fd, s1)" by fastforce
  note OP = posix_lawsD(1) [OF laws op]
  show ?thesis
  proof (cases "fd < 0")
    case True
    with op OP run show ?thesis by (auto simp: sync_one_def)
  next
    case False
    obtain att s2 where f: "sys_fstat os fd s1 = (att, s2)" by fastforce
    note F = posix_lawsD(2) [OF laws f]
    obtain c3 s3 where y: "sys_fsync os fd s2 = (c3, s3)" by fastforce
    note Y = posix_lawsD(3) [OF laws y]
    obtain c2 t2 where k2: "sys_close os fd s2 = (c2, t2)" by fastforce
    obtain c4 s4 where k3: "sys_close os fd s3 = (c4, s4)" by fastforce
    note K = posix_lawsD(4) [OF laws k2] posix_lawsD(4) [OF laws k3]
    have restored: "((fdtab s)(fd \<mapsto> payload_path file))(fd := None) = fdtab s"
      using OP False by (simp add: fun_upd_idem)
    show ?thesis
    proof (cases att)
      case None
      then have "sync_one os file ready s = (False, t2)"
        using op f k2 False by (auto simp: sync_one_def)
      with run OP F K restored False show ?thesis by auto
    next
      case (Some a)
      have view: "attrs s (payload_path file) = Some a" using F OP False Some by simp
      show ?thesis
      proof (cases "st_is_reg a \<and> st_size a \<ge> payload_size file")
        case True
        with run op f y k3 False Some have "s' = s4" and "ready' \<longrightarrow> ready"
          by (auto simp: sync_one_def split: if_splits)
        with OP F Y K restored False view True show ?thesis by (auto simp: payload_present_def)
      next
        case invalid: False
        then have "sync_one os file ready s = (False, t2)"
          using op f k2 False Some by (auto simp: sync_one_def)
        with run OP F K restored False show ?thesis by auto
      qed
    qed
  qed
qed

lemma sync_loop_laws:
  assumes laws: "posix_laws os fdtab attrs opened" and run: "sync_loop os files ready s = (ready', s')"
  shows "attrs s' = attrs s \<and> opened s' = opened s @ map payload_path files \<and> fdtab s' = fdtab s \<and>
    (ready' \<longrightarrow> ready \<and> (\<forall>file \<in> set files. payload_present (attrs s) file))"
  using run
proof (induction files arbitrary: ready s)
  case (Cons f fs)
  obtain r1 s1 where one: "sync_one os f ready s = (r1, s1)" by fastforce
  with Cons.prems have "sync_loop os fs r1 s1 = (ready', s')" by simp
  from Cons.IH [OF this] sync_one_laws [OF laws one] show ?case by auto
qed simp

section \<open>Properties\<close>

text \<open>
  on a system that obeys POSIX, a successful check means that there was at least one selected
  file and that every one of them was a regular file of at least the required size; every file is
  visited, also after an earlier one failed; and no descriptor is leaked on any path.
\<close>

theorem sync_selected_payloads_sound:
  assumes "posix_laws os fdtab attrs opened" and "sync_selected_payloads os files s = (ready, s')"
  shows "fdtab s' = fdtab s \<and> opened s' = opened s @ map payload_path files \<and>
    (ready \<longrightarrow> files \<noteq> [] \<and> (\<forall>file \<in> set files. payload_present (attrs s) file))"
  using assms(2) sync_loop_laws [OF assms(1), of files True s ready s']
  by (auto simp: sync_selected_payloads_def split: if_splits)

text \<open>A small concrete system: files with their attributes, open descriptors, a log of opens.\<close>

record sample_os =
  os_files :: "(string \<times> file_stat) list"
  os_fds :: "int \<Rightarrow> string option"
  os_opened :: "string list"
  os_next :: nat

definition sample_posix :: "sample_os posix" where
  "sample_posix = \<lparr>
     sys_open = (\<lambda>p s. if map_of (os_files s) p = None \<or> os_fds s (int (os_next s)) \<noteq> None
        then (-1, s\<lparr>os_opened := os_opened s @ [p]\<rparr>)
        else (int (os_next s), s\<lparr>os_opened := os_opened s @ [p], os_next := Suc (os_next s),
                os_fds := (os_fds s)(int (os_next s) \<mapsto> p)\<rparr>)),
     sys_fstat = (\<lambda>fd s. (case os_fds s fd of None \<Rightarrow> None | Some p \<Rightarrow> map_of (os_files s) p, s)),
     sys_fsync = (\<lambda>fd s. (0, s)),
     sys_close = (\<lambda>fd s. (0, s\<lparr>os_fds := (os_fds s)(fd := None)\<rparr>))\<rparr>"

lemma sample_posix_laws: "posix_laws sample_posix os_fds (\<lambda>s. map_of (os_files s)) os_opened"
  unfolding posix_laws_def sample_posix_def by (auto split: if_splits option.splits)

definition sample_disk :: sample_os where
  "sample_disk = \<lparr>os_files = [(''/d/a'', \<lparr>st_is_reg = True, st_size = 5\<rparr>)],
     os_fds = Map.empty, os_opened = [], os_next = 3\<rparr>"

lemma sample_sync:
  "sync_selected_payloads sample_posix [\<lparr>payload_path = ''/d/a'', payload_size = 5\<rparr>] sample_disk
     = (True, sample_disk\<lparr>os_opened := [''/d/a''], os_next := 4\<rparr>)"
  by (simp add: sync_selected_payloads_def sync_one_def sample_posix_def sample_disk_def)

theorem sync_selected_payloads_sound_witness:
  "payload_present (map_of (os_files sample_disk)) \<lparr>payload_path = ''/d/a'', payload_size = 5\<rparr>"
  using sync_selected_payloads_sound [OF sample_posix_laws sample_sync] by simp

text \<open>
  the check is complete: if each selected file passes its own check whenever the files and the
  open descriptors are as they were at the start, then the whole check succeeds (an earlier file never
  disturbs a later one).
\<close>

theorem sync_selected_payloads_complete:
  assumes "posix_laws os fdtab attrs opened" and "files \<noteq> []"
    and "\<And>f t. f \<in> set files \<Longrightarrow> attrs t = attrs s \<Longrightarrow> fdtab t = fdtab s \<Longrightarrow> fst (sync_one os f True t)"
  shows "fst (sync_selected_payloads os files s)"
proof -
  have "fst (sync_loop os files True t)"
    if "attrs t = attrs s" and "fdtab t = fdtab s" for t
    using assms(3) that
  proof (induction files arbitrary: t)
    case (Cons f fs)
    obtain r t1 where one: "sync_one os f True t = (r, t1)" by fastforce
    with Cons.prems(1) [of f t] Cons.prems(2,3) have "r" by simp
    moreover have "attrs t1 = attrs s" and "fdtab t1 = fdtab s"
      using sync_one_laws [OF assms(1) one] Cons.prems(2,3) by auto
    ultimately show ?case using Cons.IH [of t1] Cons.prems(1) one by simp
  qed simp
  with assms(2) show ?thesis by (simp add: sync_selected_payloads_def)
qed

text \<open>A system whose descriptor numbers depend on the descriptor table only.\<close>

definition sample_posix3 :: "sample_os posix" where
  "sample_posix3 = sample_posix\<lparr>sys_open := (\<lambda>p s. if map_of (os_files s) p = None \<or> os_fds s 3 \<noteq> None
        then (-1, s\<lparr>os_opened := os_opened s @ [p]\<rparr>)
        else (3, s\<lparr>os_opened := os_opened s @ [p], os_fds := (os_fds s)(3 \<mapsto> p)\<rparr>))\<rparr>"

lemma sample_posix3_laws: "posix_laws sample_posix3 os_fds (\<lambda>s. map_of (os_files s)) os_opened"
  unfolding posix_laws_def sample_posix3_def sample_posix_def by (auto split: if_splits option.splits)

theorem sync_selected_payloads_complete_witness:
  "fst (sync_selected_payloads sample_posix3 [\<lparr>payload_path = ''/d/a'', payload_size = 5\<rparr>] sample_disk)"
proof (rule sync_selected_payloads_complete [OF sample_posix3_laws])
  fix f :: SelectedPayload and t :: sample_os
  assume f: "f \<in> set [\<lparr>payload_path = ''/d/a'', payload_size = 5\<rparr>]"
    and files: "map_of (os_files t) = map_of (os_files sample_disk)"
    and fds: "os_fds t = os_fds sample_disk"
  have "map_of (os_files t) ''/d/a'' = Some \<lparr>st_is_reg = True, st_size = 5\<rparr>"
    by (subst files) (simp add: sample_disk_def)
  with f fds show "fst (sync_one sample_posix3 f True t)"
    by (simp add: sync_one_def sample_posix3_def sample_posix_def sample_disk_def)
qed simp

end
