(* ===== verification/Bridge_Text.thy ===== *)
theory Bridge_Text
  imports Prelude
begin

text \<open>
  The text layer of the bridge (\<open>src/Native/src/LibtorrentNative.cpp\<close>, lines 45 to 143 and the
  event payloads): \<open>json_escape\<close>, \<open>safe_relative_path\<close>, \<open>state_name\<close>, \<open>status_json\<close> and the JSON
  documents the session posts to the mailbox. Strings are byte strings, as \<open>std::string\<close> is.

  Library behaviour that is written out: decimal output of integers, the default \<open>ostream\<close> format
  of a \<open>double\<close> that is a whole number of millionths (six significant digits, \<open>%g\<close> style), and
  POSIX paths of \<open>std::filesystem\<close> (component iteration, \<open>operator/=\<close>, \<open>operator/\<close>).
\<close>

section \<open>Numbers\<close>

definition digit :: "nat \<Rightarrow> char" where
  "digit n = char_of (48 + n)"

fun show_nat :: "nat \<Rightarrow> string" where
  "show_nat n = (if n < 10 then [digit n] else show_nat (n div 10) @ [digit (n mod 10)])"

declare show_nat.simps [simp del]

lemma digit_zero: "digit 0 = CHR ''0''"
  by code_simp

definition show_int :: "int \<Rightarrow> string" where
  "show_int i = (if i < 0 then ''-'' @ show_nat (nat (- i)) else show_nat (nat i))"

definition show_bool :: "bool \<Rightarrow> string" where
  "show_bool b = (if b then ''true'' else ''false'')"

definition digits6 :: "nat \<Rightarrow> string" where
  "digits6 n = map (\<lambda>k. digit (n div 10 ^ k mod 10)) [5, 4, 3, 2, 1, 0]"

definition strip_zeros :: "string \<Rightarrow> string" where
  "strip_zeros s = rev (dropWhile (\<lambda>c. c = digit 0) (rev s))"

text \<open>\<open>std::clamp(double(ppm) / 1000000.0, 0.0, 1.0)\<close> written to a stream.\<close>

definition show_progress :: "int \<Rightarrow> string" where
  "show_progress ppm =
     (let p = nat (max 0 (min 1000000 ppm))
      in if p = 0 then ''0''
         else if p = 1000000 then ''1''
         else if p \<ge> 100 then ''0.'' @ strip_zeros (digits6 p)
         else if p < 10 then show_nat p @ ''e-06''
         else if p mod 10 = 0 then show_nat (p div 10) @ ''e-05''
         else show_nat (p div 10) @ ''.'' @ show_nat (p mod 10) @ ''e-05'')"

section \<open>JSON strings\<close>

definition quote_char :: char where
  "quote_char = CHR 0x22"

definition backslash_char :: char where
  "backslash_char = CHR 0x5C"

definition escape_char :: "char \<Rightarrow> string" where
  "escape_char c =
     (if c = quote_char then [backslash_char, quote_char]
      else if c = backslash_char then [backslash_char, backslash_char]
      else if c = CHR 0x08 then [backslash_char, CHR ''b'']
      else if c = CHR 0x0C then [backslash_char, CHR ''f'']
      else if c = CHR 0x0A then [backslash_char, CHR ''n'']
      else if c = CHR 0x0D then [backslash_char, CHR ''r'']
      else if c = CHR 0x09 then [backslash_char, CHR ''t'']
      else if of_char c < (0x20 :: nat) then ''?''
      else [c])"

definition json_escape :: "string \<Rightarrow> string" where
  "json_escape input = concat (map escape_char input)"

text \<open>
  A reader of JSON string literals (RFC 8259, without \<open>\u\<close> escapes), after the opening quote: the
  characters of the string and what follows the closing quote; \<open>None\<close> for a malformed literal.
\<close>

definition unescape_char :: "char \<Rightarrow> char option" where
  "unescape_char c =
     (if c = quote_char \<or> c = backslash_char \<or> c = CHR ''/'' then Some c
      else if c = CHR ''b'' then Some (CHR 0x08)
      else if c = CHR ''f'' then Some (CHR 0x0C)
      else if c = CHR ''n'' then Some (CHR 0x0A)
      else if c = CHR ''r'' then Some (CHR 0x0D)
      else if c = CHR ''t'' then Some (CHR 0x09)
      else None)"

fun json_string :: "string \<Rightarrow> (string \<times> string) option" where
  "json_string [] = None"
| "json_string (c # cs) =
     (if c = quote_char then Some ([], cs)
      else if c = backslash_char then (case cs of
          [] \<Rightarrow> None
        | d # ds \<Rightarrow> (case unescape_char d of
              None \<Rightarrow> None
            | Some e \<Rightarrow> map_option (apfst ((#) e)) (json_string ds)))
      else if of_char c < (0x20 :: nat) then None
      else map_option (apfst ((#) c)) (json_string cs))"

text \<open>What the escaping keeps of a character: control characters without a short escape become \<open>?\<close>.\<close>

definition printable :: "char \<Rightarrow> char" where
  "printable c = (if of_char c < (0x20 :: nat) \<and> c \<notin> {CHR 0x08, CHR 0x0C, CHR 0x0A, CHR 0x0D, CHR 0x09}
     then CHR ''?'' else c)"

definition plain_char :: "char \<Rightarrow> bool" where
  "plain_char c \<longleftrightarrow> c \<noteq> quote_char \<and> c \<noteq> backslash_char \<and> \<not> of_char c < (0x20 :: nat)"

lemma json_string_escape_char:
  "json_string (escape_char c @ rest) = map_option (apfst ((#) (printable c))) (json_string rest)"
  by (auto simp: escape_char_def printable_def quote_char_def backslash_char_def unescape_char_def)

lemma json_escape_Cons [simp]: "json_escape (c # cs) = escape_char c @ json_escape cs"
  by (simp add: json_escape_def)

lemma json_escape_Nil [simp]: "json_escape [] = []"
  by (simp add: json_escape_def)

lemma json_string_plain:
  "list_all plain_char s \<Longrightarrow> json_string (s @ quote_char # rest) = Some (s, rest)"
  by (induction s) (auto simp: plain_char_def)

section \<open>Paths\<close>

text \<open>Components between slashes; empty components come from repeated or trailing slashes.\<close>

fun split_slash :: "string \<Rightarrow> string list" where
  "split_slash [] = [[]]"
| "split_slash (c # cs) =
     (if c = CHR ''/'' then [] # split_slash cs
      else case split_slash cs of [] \<Rightarrow> [[c]] | w # ws \<Rightarrow> (c # w) # ws)"

definition path_rooted :: "string \<Rightarrow> bool" where
  "path_rooted p \<longleftrightarrow> (case p of [] \<Rightarrow> False | c # _ \<Rightarrow> c = CHR ''/'')"

text \<open>\<open>path::operator/=\<close>: a rooted argument replaces, otherwise one separator is put in between.\<close>

definition path_append :: "string \<Rightarrow> string \<Rightarrow> string" where
  "path_append p q =
     (if path_rooted q then q
      else if p = [] \<or> last p = CHR ''/'' then p @ q
      else p @ ''/'' @ q)"

text \<open>The loop of \<open>safe_relative_path\<close> over the components; \<open>None\<close> is the early \<open>return false\<close>.\<close>

fun clean_loop :: "string list \<Rightarrow> string \<Rightarrow> string option" where
  "clean_loop [] clean = Some clean"
| "clean_loop (component # rest) clean =
     (if component = ''..'' then None
      else if component = ''.'' \<or> component = [] then clean_loop rest clean
      else clean_loop rest (path_append clean component))"

text \<open>\<open>absolute\<close> and \<open>path\<close> are what \<open>file_absolute_path\<close> and \<open>file_path\<close> of the file storage return.\<close>

definition safe_relative_path :: "bool \<Rightarrow> string \<Rightarrow> string option" where
  "safe_relative_path absolute path =
     (if absolute then None
      else if path = [] \<or> path_rooted path then None
      else case clean_loop (split_slash path) [] of
        None \<Rightarrow> None
      | Some output \<Rightarrow> if output \<noteq> [] \<and> length output \<le> 4096 then Some output else None)"

section \<open>Torrent status\<close>

datatype torrent_state = checking_files | downloading_metadata | downloading | finished | seeding
  | checking_resume_data | other_state

text \<open>The fields of \<open>lt::torrent_status\<close> the bridge reads.\<close>

record torrent_status =
  ts_paused :: bool
  ts_state :: torrent_state
  progress_ppm :: int
  total_wanted :: int
  total_wanted_done :: int
  download_payload_rate :: int
  upload_payload_rate :: int
  num_peers :: int
  has_metadata :: bool
  is_finished :: bool
  save_path :: string

definition state_name :: "torrent_status \<Rightarrow> bool \<Rightarrow> string" where
  "state_name status stopped =
     (if stopped then ''stopped''
      else if ts_paused status then ''paused''
      else case ts_state status of
        checking_files \<Rightarrow> ''checkingFiles''
      | downloading_metadata \<Rightarrow> ''downloadingMetadata''
      | downloading \<Rightarrow> ''downloading''
      | finished \<Rightarrow> ''finished''
      | seeding \<Rightarrow> ''seeding''
      | checking_resume_data \<Rightarrow> ''checkingResumeData''
      | other_state \<Rightarrow> ''unknown'')"

definition status_json :: "torrent_status \<Rightarrow> bool \<Rightarrow> string" where
  \<open>status_json status stopped =
     (let paused = stopped \<or> ts_paused status
      in ''{"state":"'' @ state_name status stopped @ ''"''
         @ '',"progress":'' @ show_progress (progress_ppm status)
         @ '',"totalBytes":'' @ show_int (total_wanted status)
         @ '',"completedBytes":'' @ show_int (total_wanted_done status)
         @ '',"downloadRate":'' @ show_int (if stopped then 0 else download_payload_rate status)
         @ '',"uploadRate":'' @ show_int (if stopped then 0 else upload_payload_rate status)
         @ '',"connectedPeers":'' @ show_int (if stopped then 0 else num_peers status)
         @ '',"isPaused":'' @ show_bool paused
         @ '',"hasMetadata":'' @ show_bool (has_metadata status)
         @ '',"isParticipatingInSwarm":'' @ show_bool (\<not> stopped \<and> \<not> paused) @ ''}'')\<close>

section \<open>Event payloads\<close>

definition metadata_event :: "string \<Rightarrow> string" where
  \<open>metadata_event i = ''{"kind":"metadataReady","id":"'' @ i @ ''"}''\<close>

definition invalid_selection_event :: "string \<Rightarrow> string" where
  \<open>invalid_selection_event i = ''{"type":"event","kind":"error","id":"'' @ i
     @ ''","code":7,"description":"A requested file index is invalid."}''\<close>

definition native_error_event :: "string \<Rightarrow> string" where
  \<open>native_error_event i = ''{"kind":"error","id":"'' @ i
     @ ''","code":12,"description":"The torrent engine reported a recoverable error."}''\<close>

definition completion_error_event :: "string \<Rightarrow> string \<Rightarrow> string" where
  \<open>completion_error_event i failure_description = ''{"kind":"error","id":"'' @ i
     @ ''","code":16,"description":"'' @ failure_description @ ''"}''\<close>

definition completed_event :: "string \<Rightarrow> torrent_status \<Rightarrow> string" where
  \<open>completed_event i status = ''{"kind":"completed","id":"'' @ i
     @ ''","status":'' @ status_json status False @ ''}''\<close>

definition stopped_event :: "string \<Rightarrow> string" where
  \<open>stopped_event i = ''{"kind":"stoppedAfterCompletion","id":"'' @ i @ ''"}''\<close>

definition status_changed_event :: "string \<Rightarrow> torrent_status \<Rightarrow> bool \<Rightarrow> string" where
  \<open>status_changed_event i status stopped = ''{"kind":"statusChanged","id":"'' @ i
     @ ''","status":'' @ status_json status stopped @ ''}''\<close>

text \<open>The two error payloads of a torrent differ: the code is 12 or 16.\<close>

lemma native_error_is_not_completion_error: "native_error_event i \<noteq> completion_error_event i d"
  by (simp add: native_error_event_def completion_error_event_def)


section \<open>Facts about paths\<close>

lemma split_slash_not_Nil [simp]: "split_slash p \<noteq> []"
  by (cases p) (auto split: list.splits)

lemma split_slash_append: "split_slash (a @ CHR ''/'' # b) = split_slash a @ split_slash b"
  by (induction a) (auto split: list.splits)

lemma split_slash_single: "CHR ''/'' \<notin> set w \<Longrightarrow> split_slash w = [w]"
  by (induction w) auto

lemma split_slash_members: "w \<in> set (split_slash p) \<Longrightarrow> CHR ''/'' \<notin> set w"
proof (induction p arbitrary: w)
  case (Cons c p)
  show ?case
  proof (cases "c = CHR ''/''")
    case True
    with Cons show ?thesis by auto
  next
    case False
    obtain v vs where p: "split_slash p = v # vs" by (cases "split_slash p") auto
    with Cons.prems False have "w = c # v \<or> w \<in> set vs" by simp
    with Cons.IH [of v] Cons.IH [of w] p False show ?thesis by auto
  qed
qed simp

text \<open>The components of a path, none for the empty path; a component the loop keeps.\<close>

definition components :: "string \<Rightarrow> string list" where
  "components p = (if p = [] then [] else split_slash p)"

definition kept :: "string \<Rightarrow> bool" where
  "kept w \<longleftrightarrow> w \<noteq> ''.'' \<and> w \<noteq> []"

lemma not_rooted: "CHR ''/'' \<notin> set w \<Longrightarrow> \<not> path_rooted w"
  by (cases w) (auto simp: path_rooted_def)

lemma components_path_append:
  assumes "CHR ''/'' \<notin> set w" and "w \<noteq> []" and "clean = [] \<or> last clean \<noteq> CHR ''/''"
  shows "components (path_append clean w) = components clean @ [w]"
    and "last (path_append clean w) \<noteq> CHR ''/''"
proof -
  have "\<not> path_rooted w" using assms(1) by (rule not_rooted)
  then show "components (path_append clean w) = components clean @ [w]"
    using assms by (auto simp: path_append_def components_def split_slash_append split_slash_single)
  have "last w \<noteq> CHR ''/''" using assms(1,2) by (metis last_in_set)
  with \<open>\<not> path_rooted w\<close> assms(2) show "last (path_append clean w) \<noteq> CHR ''/''"
    by (simp add: path_append_def)
qed

lemma clean_loop_components:
  assumes "clean_loop ws clean = Some out" and "\<forall>w \<in> set ws. CHR ''/'' \<notin> set w"
    and "clean = [] \<or> last clean \<noteq> CHR ''/''"
  shows "components out = components clean @ filter kept ws \<and> ''..'' \<notin> set ws"
  using assms
proof (induction ws arbitrary: clean)
  case (Cons w ws)
  show ?case
  proof (cases "kept w")
    case True
    with Cons.prems have w: "CHR ''/'' \<notin> set w" "w \<noteq> []" "w \<noteq> ''..''"
      and run: "clean_loop ws (path_append clean w) = Some out"
      by (auto simp: kept_def split: if_splits)
    note app = components_path_append [OF w(1,2) Cons.prems(3)]
    from Cons.IH [OF run] app Cons.prems(2) True w show ?thesis by auto
  next
    case False
    with Cons.prems have "clean_loop ws clean = Some out" and "w \<noteq> ''..''"
      by (auto simp: kept_def split: if_splits)
    with Cons.IH [of clean] Cons.prems False show ?thesis by auto
  qed
qed simp

lemma clean_loop_defined: "''..'' \<notin> set ws \<Longrightarrow> \<exists>out. clean_loop ws clean = Some out"
  by (induction ws arbitrary: clean) auto

lemma components_rooted: "p \<noteq> [] \<Longrightarrow> path_rooted p \<longleftrightarrow> hd (components p) = []"
  by (cases p) (auto simp: path_rooted_def components_def split: list.splits)

lemma split_slash_inj: "split_slash p = split_slash q \<Longrightarrow> p = q"
proof (induction p arbitrary: q)
  case Nil
  then show ?case by (cases q) (auto split: list.splits if_splits)
next
  case (Cons c p)
  then show ?case by (cases q) (auto split: list.splits if_splits)
qed

lemma components_inj: "components p = components q \<Longrightarrow> p = q"
  by (metis components_def split_slash_inj split_slash_not_Nil)

lemma safe_relative_path_components:
  assumes "safe_relative_path absolute path = Some out"
  shows "components out = filter kept (split_slash path)" and "''..'' \<notin> set (split_slash path)"
    and "out \<noteq> []" and "length out \<le> 4096" and "\<not> absolute" and "\<not> path_rooted path"
proof -
  have run: "clean_loop (split_slash path) [] = Some out"
    using assms by (auto simp: safe_relative_path_def split: if_splits option.splits)
  from clean_loop_components [OF this] show "components out = filter kept (split_slash path)"
    and "''..'' \<notin> set (split_slash path)"
    by (auto simp: split_slash_members components_def)
  show "out \<noteq> []" and "length out \<le> 4096" and "\<not> absolute" and "\<not> path_rooted path"
    using assms run by (auto simp: safe_relative_path_def split: if_splits)
qed

section \<open>Properties\<close>

text \<open>
  C34: text that went through \<open>json_escape\<close> cannot break out of the JSON string it is placed in. A
  reader of the document gets the original text back, with control characters that have no short
  escape replaced by a question mark, and continues right after the closing quote.
\<close>

theorem json_escape_roundtrip:
  "json_string (json_escape s @ quote_char # rest) = Some (map printable s, rest)"
  by (induction s) (simp_all add: json_string_escape_char)

text \<open>
  C35: a path that \<open>safe_relative_path\<close> lets through stays below the download directory: it is not
  rooted, it has no empty, dot or dot-dot component, its components are those of the torrent's path
  in order with the empty and dot ones left out, and it is between 1 and 4096 bytes long.
\<close>

theorem safe_relative_path_contained:
  assumes "safe_relative_path absolute path = Some out"
  shows "\<not> path_rooted out \<and> out \<noteq> [] \<and> length out \<le> 4096
    \<and> split_slash out = filter kept (split_slash path)
    \<and> (\<forall>w \<in> set (split_slash out). w \<noteq> ''..'' \<and> w \<noteq> ''.'' \<and> w \<noteq> [])"
proof -
  note safe = safe_relative_path_components [OF assms]
  have split: "split_slash out = filter kept (split_slash path)"
    using safe(1,3) by (simp add: components_def)
  then have members: "\<forall>w \<in> set (split_slash out). w \<noteq> ''..'' \<and> w \<noteq> ''.'' \<and> w \<noteq> []"
    using safe(2) by (auto simp: kept_def)
  moreover have "hd (components out) \<noteq> []"
    using members safe(3) by (simp add: components_def)
  ultimately show ?thesis using split safe(3,4) components_rooted [OF safe(3)] by blast
qed

theorem safe_relative_path_contained_witness:
  "safe_relative_path False ''a//./b/'' = Some ''a/b'' \<and> \<not> path_rooted ''a/b''"
proof -
  have "safe_relative_path False ''a//./b/'' = Some ''a/b''"
    by (simp add: safe_relative_path_def path_rooted_def path_append_def)
  with safe_relative_path_contained [OF this] show ?thesis by blast
qed

text \<open>
  \<open>safe_relative_path\<close> rejects exactly the paths it has a reason to reject (absolute, empty,
  rooted, with a dot-dot component, with no real component, or longer than 4096 bytes once cleaned),
  and cleaning is idempotent: a path it produced passes unchanged.
\<close>

theorem safe_relative_path_rejects:
  "(safe_relative_path absolute path = None \<longleftrightarrow>
      absolute \<or> path = [] \<or> path_rooted path \<or> ''..'' \<in> set (split_slash path)
      \<or> filter kept (split_slash path) = []
      \<or> (\<exists>out. components out = filter kept (split_slash path) \<and> length out > 4096))
   \<and> (case safe_relative_path absolute path of None \<Rightarrow> True
      | Some out \<Rightarrow> safe_relative_path False out = Some out)"
proof (cases "absolute \<or> path = [] \<or> path_rooted path \<or> ''..'' \<in> set (split_slash path)")
  case True
  then have "safe_relative_path absolute path = None"
    using safe_relative_path_components(2) [of absolute path]
    by (cases "absolute \<or> path = [] \<or> path_rooted path"; cases "safe_relative_path absolute path")
      (auto simp: safe_relative_path_def split: if_splits)
  with True show ?thesis by auto
next
  case False
  then obtain out where run: "clean_loop (split_slash path) [] = Some out"
    using clean_loop_defined by blast
  have comps: "components out = filter kept (split_slash path)"
    using clean_loop_components [OF run] by (simp add: split_slash_members components_def)
  have empty: "out = [] \<longleftrightarrow> filter kept (split_slash path) = []"
    using comps by (auto simp: components_def split: if_splits)
  have long: "(\<exists>o'. components o' = filter kept (split_slash path) \<and> length o' > 4096) \<longleftrightarrow> length out > 4096"
    using comps components_inj by metis
  have res: "safe_relative_path absolute path = (if out \<noteq> [] \<and> length out \<le> 4096 then Some out else None)"
    using False run by (simp add: safe_relative_path_def)
  have "safe_relative_path False out = Some out" if "out \<noteq> []" and "length out \<le> 4096"
  proof -
    have good: "\<forall>w \<in> set (split_slash out). kept w \<and> w \<noteq> ''..''"
      using comps that(1) False by (auto simp: components_def)
    then have nr: "\<not> path_rooted out"
      using components_rooted [OF that(1)] that(1) by (auto simp: components_def kept_def)
    obtain out' where run': "clean_loop (split_slash out) [] = Some out'"
      using good clean_loop_defined [of "split_slash out"] by blast
    have "components out' = filter kept (split_slash out)"
      using clean_loop_components [OF run'] by (simp add: split_slash_members components_def)
    also have "\<dots> = components out" using good that(1) by (simp add: components_def filter_id_conv)
    finally have "out' = out" by (rule components_inj)
    with run' nr that show ?thesis by (simp add: safe_relative_path_def)
  qed
  with False res empty long show ?thesis by auto
qed

text \<open>
  identifiers are copied into event payloads without escaping. When the identifier consists of
  plain characters a reader of the payload gets it back; an identifier with a double quote in it is
  cut short there, so the event no longer names its torrent.
\<close>

theorem event_identifier_unescaped:
  assumes "list_all plain_char a"
  shows \<open>json_string (drop (length ''{"kind":"metadataReady","id":"'') (metadata_event a)) = Some (a, ''}'')
    \<and> json_string (drop (length ''{"kind":"metadataReady","id":"'') (metadata_event (a @ quote_char # b)))
        = Some (a, b @ ''"}'')\<close>
proof -
  have "CHR 0x22 = quote_char" by (simp add: quote_char_def)
  then show ?thesis
    using json_string_plain [OF assms] by (simp add: metadata_event_def)
qed

theorem event_identifier_unescaped_witness:
  \<open>json_string (drop (length ''{"kind":"metadataReady","id":"'') (metadata_event (''t'' @ quote_char # ''x'')))
     = Some (''t'', ''x"}'')\<close>
  using event_identifier_unescaped [of "''t''" "''x''"]
  by (simp add: plain_char_def quote_char_def backslash_char_def)

text \<open>
  The status of a stopped torrent does not depend on what the engine last reported about rates,
  peers, pausing or activity: it always reads as stopped, paused, with zero rates and peers, and not
  taking part in the swarm.
\<close>

theorem stopped_status_is_quiet:
  \<open>status_json (status\<lparr>ts_paused := b, ts_state := st, download_payload_rate := d,
       upload_payload_rate := u, num_peers := n\<rparr>) True
   = ''{"state":"stopped","progress":'' @ show_progress (progress_ppm status)
     @ '',"totalBytes":'' @ show_int (total_wanted status)
     @ '',"completedBytes":'' @ show_int (total_wanted_done status)
     @ '',"downloadRate":0,"uploadRate":0,"connectedPeers":0,"isPaused":true,"hasMetadata":''
     @ show_bool (has_metadata status) @ '',"isParticipatingInSwarm":false}''\<close>
  by (simp add: status_json_def state_name_def show_bool_def show_int_def show_nat.simps digit_zero)

end
