(* ===== verification/Session_State.thy ===== *)
theory Session_State
  imports Event_Mailbox Disk_Checkpoint Selected_Payload Bridge_Text
begin

text \<open>
  The state of a bridge session (\<open>struct ltkit_session\<close> in
  \<open>src/Native/src/LibtorrentNative.cpp\<close>) and the interface to what lies outside the repository.

  libtorrent, the POSIX calls and \<open>malloc\<close> are the parameter \<open>env\<close>: a record of calls over an
  arbitrary external state \<open>'e\<close>. A libtorrent call may change the external state, return any value,
  or throw. Two calls of the same query may answer differently, as the engine runs
  in threads of its own. Torrent handles are values of an arbitrary type \<open>'h\<close>.

  A reference \<open>job& value\<close> is modelled by the key of the job: the association list \<open>jobs\<close> is the
  store. \<open>condition.notify_all()\<close> counts up \<open>notified\<close>, so that missed wake-ups can be stated.
  The session mutex makes every operation atomic between two waits.
\<close>

section \<open>What libtorrent hands over\<close>

text \<open>The parts of \<open>lt::torrent_info\<close> and its \<open>layout()\<close> the bridge reads.\<close>

record torrent_info =
  ti_name :: string
  ti_hash_v1 :: "string option"
  ti_hash_v2 :: "string option"
  ti_piece_length :: int
  ti_num_pieces :: int
  ti_total_size :: int
  ti_creation_date :: int
  ti_creator :: string
  ti_num_files :: int
  ti_file_path :: "int \<Rightarrow> string"
  ti_file_absolute :: "int \<Rightarrow> bool"
  ti_pad_file :: "int \<Rightarrow> bool"
  ti_file_size :: "int \<Rightarrow> int"
  ti_file_offset :: "int \<Rightarrow> int"
  ti_first_piece :: "int \<Rightarrow> int"
  ti_last_piece :: "int \<Rightarrow> int"

text \<open>The parts of \<open>lt::add_torrent_params\<close> the bridge reads or writes; \<open>ap_other\<close> is the rest.\<close>

record add_params =
  ap_ti :: "torrent_info option"
  ap_hash_v1 :: "string option"
  ap_hash_v2 :: "string option"
  ap_save_path :: string
  ap_default_dont_download :: bool
  ap_paused :: bool
  ap_download_limit :: int
  ap_upload_limit :: int
  ap_file_priorities :: "nat list"
  ap_piece_priorities :: "nat list"
  ap_other :: string

type_synonym ('e, 'a) call = "'e \<Rightarrow> (exn + 'a) \<times> 'e"

record ('h, 'e) env =
  asserts :: bool
  env_posix :: "'e posix"
  env_malloc :: "nat \<Rightarrow> 'e \<Rightarrow> bool \<times> 'e"
  dont_download :: nat
  default_priority :: nat
  top_priority :: nat
  lt_is_valid :: "'h \<Rightarrow> ('e, bool) call"
  lt_torrent_file :: "'h \<Rightarrow> ('e, torrent_info option) call"
  lt_status :: "'h \<Rightarrow> ('e, torrent_status) call"
  lt_pause :: "'h \<Rightarrow> ('e, unit) call"
  lt_resume :: "'h \<Rightarrow> ('e, unit) call"
  lt_flush_cache :: "'h \<Rightarrow> ('e, unit) call"
  lt_save_resume_data :: "'h \<Rightarrow> ('e, unit) call"
  lt_write_resume_data_buf :: "string \<Rightarrow> ('e, string) call"
  lt_prioritize_files :: "'h \<Rightarrow> nat list \<Rightarrow> ('e, unit) call"
  lt_prioritize_pieces :: "'h \<Rightarrow> nat list \<Rightarrow> ('e, unit) call"
  lt_raise_pieces :: "'h \<Rightarrow> (int \<times> nat) list \<Rightarrow> ('e, unit) call"
  lt_piece_priority :: "'h \<Rightarrow> int \<Rightarrow> nat \<Rightarrow> ('e, unit) call"
  lt_get_file_priorities :: "'h \<Rightarrow> ('e, nat list) call"
  lt_get_piece_priorities :: "'h \<Rightarrow> ('e, nat list) call"
  lt_clear_piece_deadlines :: "'h \<Rightarrow> ('e, unit) call"
  lt_set_piece_deadline :: "'h \<Rightarrow> int \<Rightarrow> int \<Rightarrow> ('e, unit) call"
  lt_file_progress :: "'h \<Rightarrow> ('e, int list) call"
  lt_have_piece :: "'h \<Rightarrow> int \<Rightarrow> ('e, bool) call"
  lt_piece_availability :: "'h \<Rightarrow> ('e, int list) call"
  lt_remove_torrent :: "'h \<Rightarrow> bool \<Rightarrow> ('e, unit) call"
  lt_add_torrent :: "add_params \<Rightarrow> ('e, 'h option) call"
  lt_parse_magnet_uri :: "string \<Rightarrow> ('e, add_params option) call"
  lt_load_torrent_buffer :: "string \<Rightarrow> ('e, add_params option) call"
  lt_read_resume_data :: "string \<Rightarrow> ('e, add_params option) call"
  lt_abort :: "('e, unit) call"
  lt_priority_string :: "nat \<Rightarrow> string"

section \<open>Result codes\<close>

definition LTKIT_OK :: int where "LTKIT_OK = 0"
definition LTKIT_ERROR_UNKNOWN :: int where "LTKIT_ERROR_UNKNOWN = 1"
definition LTKIT_ERROR_INVALID_ARGUMENT :: int where "LTKIT_ERROR_INVALID_ARGUMENT = 2"
definition LTKIT_ERROR_INVALID_SOURCE :: int where "LTKIT_ERROR_INVALID_SOURCE = 3"
definition LTKIT_ERROR_INVALID_IDENTIFIER :: int where "LTKIT_ERROR_INVALID_IDENTIFIER = 4"
definition LTKIT_ERROR_DUPLICATE_IDENTIFIER :: int where "LTKIT_ERROR_DUPLICATE_IDENTIFIER = 5"
definition LTKIT_ERROR_METADATA_UNAVAILABLE :: int where "LTKIT_ERROR_METADATA_UNAVAILABLE = 6"
definition LTKIT_ERROR_INVALID_FILE_INDEX :: int where "LTKIT_ERROR_INVALID_FILE_INDEX = 7"
definition LTKIT_ERROR_INVALID_PIECE_INDEX :: int where "LTKIT_ERROR_INVALID_PIECE_INDEX = 8"
definition LTKIT_ERROR_INVALID_OFFSET :: int where "LTKIT_ERROR_INVALID_OFFSET = 9"
definition LTKIT_ERROR_CORRUPT_RESUME_DATA :: int where "LTKIT_ERROR_CORRUPT_RESUME_DATA = 10"
definition LTKIT_ERROR_TIMED_OUT :: int where "LTKIT_ERROR_TIMED_OUT = 11"
definition LTKIT_ERROR_NATIVE_FAILURE :: int where "LTKIT_ERROR_NATIVE_FAILURE = 12"
definition LTKIT_ERROR_SESSION_SHUT_DOWN :: int where "LTKIT_ERROR_SESSION_SHUT_DOWN = 13"
definition LTKIT_ERROR_ALLOCATION_LIMIT :: int where "LTKIT_ERROR_ALLOCATION_LIMIT = 14"
definition LTKIT_ERROR_PATH_VIOLATION :: int where "LTKIT_ERROR_PATH_VIOLATION = 15"
definition LTKIT_ERROR_COMPLETION_FAILED :: int where "LTKIT_ERROR_COMPLETION_FAILED = 16"

lemmas code_defs = LTKIT_OK_def LTKIT_ERROR_UNKNOWN_def LTKIT_ERROR_INVALID_ARGUMENT_def
  LTKIT_ERROR_INVALID_SOURCE_def LTKIT_ERROR_INVALID_IDENTIFIER_def
  LTKIT_ERROR_DUPLICATE_IDENTIFIER_def LTKIT_ERROR_METADATA_UNAVAILABLE_def
  LTKIT_ERROR_INVALID_FILE_INDEX_def LTKIT_ERROR_INVALID_PIECE_INDEX_def
  LTKIT_ERROR_INVALID_OFFSET_def LTKIT_ERROR_CORRUPT_RESUME_DATA_def LTKIT_ERROR_TIMED_OUT_def
  LTKIT_ERROR_NATIVE_FAILURE_def LTKIT_ERROR_SESSION_SHUT_DOWN_def
  LTKIT_ERROR_ALLOCATION_LIMIT_def LTKIT_ERROR_PATH_VIOLATION_def
  LTKIT_ERROR_COMPLETION_FAILED_def

section \<open>Session state\<close>

record checkpoint_state =
  cp_active :: bool
  cp_barrier :: Phase
  cp_done :: bool
  cp_error :: int
  cp_data :: string

definition new_checkpoint :: checkpoint_state where
  "new_checkpoint = \<lparr>cp_active = False, cp_barrier = Idle, cp_done = False, cp_error = LTKIT_OK,
     cp_data = []\<rparr>"

record 'h job =
  handle :: 'h
  desired_files :: "int list"
  file_priorities :: "nat list"
  piece_priorities :: "nat list"
  primary_file :: int
  metadata_ready :: bool
  completion_stops :: bool
  completion_checkpoint :: bool
  completion_waiting :: bool
  completion_rechecked :: bool
  final_resume_data :: string
  final_payloads :: "SelectedPayload list"
  stopped :: bool
  final_status :: "torrent_status option"
  final_metadata :: string
  deadline_pieces :: "int set"
  checkpoint :: checkpoint_state

definition new_job :: "'h \<Rightarrow> 'h job" where
  "new_job h = \<lparr>handle = h, desired_files = [], file_priorities = [], piece_priorities = [],
     primary_file = -1, metadata_ready = False, completion_stops = True, completion_checkpoint = False,
     completion_waiting = False, completion_rechecked = False, final_resume_data = [],
     final_payloads = [], stopped = False, final_status = None, final_metadata = [],
     deadline_pieces = {}, checkpoint = new_checkpoint\<rparr>"

record ('h, 'e) ltkit_session =
  engine :: 'e
  jobs :: "(string \<times> 'h job) list"
  events :: EventMailbox
  last_error :: string
  shutting_down :: bool
  wake_generation :: "64 word"
  notified :: nat

type_synonym ('h, 'e, 'a) session_prog = "(('h, 'e) ltkit_session, 'a) prog"

definition new_session :: "'e \<Rightarrow> ('h, 'e) ltkit_session" where
  "new_session e = \<lparr>engine = e, jobs = [], events = empty_mailbox, last_error = [],
     shutting_down = False, wake_generation = 0, notified = 0\<rparr>"

section \<open>Access to the parts of a session\<close>

text \<open>A call into libtorrent, the file system or the allocator.\<close>

definition engine_call :: "('e, 'a) call \<Rightarrow> ('h, 'e, 'a) session_prog" where
  "engine_call c w = (case c (engine w) of
       (Inl x, e) \<Rightarrow> (Throw x, w\<lparr>engine := e\<rparr>)
     | (Inr v, e) \<Rightarrow> (Ret v, w\<lparr>engine := e\<rparr>))"

definition system_call :: "('e \<Rightarrow> 'a \<times> 'e) \<Rightarrow> ('h, 'e, 'a) session_prog" where
  "system_call c w = (let (r, e) = c (engine w) in (Ret r, w\<lparr>engine := e\<rparr>))"

definition mailbox_call :: "(EventMailbox, 'a) prog \<Rightarrow> ('h, 'e, 'a) session_prog" where
  "mailbox_call c w = (let (r, m) = c (events w) in (r, w\<lparr>events := m\<rparr>))"

abbreviation session_job :: "('h, 'e) ltkit_session \<Rightarrow> string \<Rightarrow> 'h job option" where
  "session_job w i \<equiv> map_of (jobs w) i"

text \<open>Reading and changing the job behind a reference; a dangling reference is undefined behaviour.\<close>

definition the_job :: "string \<Rightarrow> ('h, 'e, 'h job) session_prog" where
  "the_job i w = (case session_job w i of
       None \<Rightarrow> (Crash Undefined_behaviour, w)
     | Some value \<Rightarrow> (Ret value, w))"

definition set_job :: "string \<Rightarrow> ('h job \<Rightarrow> 'h job) \<Rightarrow> ('h, 'e, unit) session_prog" where
  "set_job i f w = (case session_job w i of
       None \<Rightarrow> (Crash Undefined_behaviour, w)
     | Some value \<Rightarrow> (Ret (), w\<lparr>jobs := AList.update i (f value) (jobs w)\<rparr>))"

definition notify_all :: "('h, 'e, unit) session_prog" where
  "notify_all = modify (\<lambda>w. w\<lparr>notified := Suc (notified w)\<rparr>)"

definition find_job :: "string option \<Rightarrow> ('h, 'e, 'h job option) session_prog" where
  "find_job identifier = gets (\<lambda>w. case identifier of None \<Rightarrow> None | Some i \<Rightarrow> session_job w i)"

section \<open>Error reporting\<close>

definition set_error :: "string \<Rightarrow> ('h, 'e, unit) session_prog" where
  "set_error value = modify (\<lambda>w. w\<lparr>last_error := value\<rparr>)"

definition fail :: "int \<Rightarrow> string \<Rightarrow> ('h, 'e, int) session_prog" where
  "fail code safe_message = andthen (set_error safe_message) (return code)"

definition guarded :: "('h, 'e, int) session_prog \<Rightarrow> ('h, 'e, int) session_prog" where
  "guarded function w = (case function w of
       (Throw Bad_Alloc, w') \<Rightarrow>
         fail LTKIT_ERROR_ALLOCATION_LIMIT ''A native allocation limit was reached.'' w'
     | (Throw Std_Exception, w') \<Rightarrow>
         fail LTKIT_ERROR_NATIVE_FAILURE ''The native torrent operation failed.'' w'
     | (Throw Other_Exception, w') \<Rightarrow>
         fail LTKIT_ERROR_UNKNOWN ''An unknown native torrent error occurred.'' w'
     | (r, w') \<Rightarrow> (r, w'))"

section \<open>Response buffers\<close>

text \<open>\<open>ltkit_buffer_t\<close>: \<open>None\<close> is the null pointer.\<close>

record ltkit_buffer =
  buffer_data :: "string option"
  buffer_size :: nat

definition empty_buffer :: ltkit_buffer where
  "empty_buffer = \<lparr>buffer_data = None, buffer_size = 0\<rparr>"

text \<open>\<open>copy_buffer\<close> with a non-null output: whether it succeeded, and the buffer it wrote.\<close>

definition copy_buffer :: "('h, 'e) env \<Rightarrow> string \<Rightarrow> 'e \<Rightarrow> (bool \<times> ltkit_buffer) \<times> 'e" where
  "copy_buffer E source e =
     (if source = [] then ((True, empty_buffer), e)
      else let (ok, e') = env_malloc E (length source) e
        in if \<not> ok then ((False, empty_buffer), e')
           else ((True, \<lparr>buffer_data = Some source, buffer_size = length source\<rparr>), e'))"

text \<open>
  The common ending of the query functions: copy the response, or fail with the allocation error.
  The result is the code together with what was written to \<open>*output\<close>, \<open>None\<close> for nothing.
\<close>

definition respond :: "('h, 'e) env \<Rightarrow> string \<Rightarrow> string \<Rightarrow> ('h, 'e, int \<times> ltkit_buffer option) session_prog" where
  "respond E source message =
     bind (system_call (copy_buffer E source)) (\<lambda>(ok, buffer).
       if ok then return (LTKIT_OK, Some buffer)
       else bind (fail LTKIT_ERROR_ALLOCATION_LIMIT message) (\<lambda>code. return (code, Some buffer)))"

definition fail_with :: "int \<Rightarrow> string \<Rightarrow> ('h, 'e, int \<times> ltkit_buffer option) session_prog" where
  "fail_with code message = bind (fail code message) (\<lambda>c. return (c, None))"

text \<open>
  \<open>guarded\<close> around a function that also writes to output parameters: \<open>written\<close> adds what they hold
  when the function is left by an exception.
\<close>

definition guarded_with :: "(int \<Rightarrow> 'a) \<Rightarrow> ('h, 'e, 'a) session_prog \<Rightarrow> ('h, 'e, 'a) session_prog" where
  "guarded_with written function w = (case function w of
       (Throw e, w') \<Rightarrow> bind (guarded (throw e)) (\<lambda>c. return (written c)) w'
     | (r, w') \<Rightarrow> (r, w'))"

abbreviation guarded_out ::
  "('h, 'e, int \<times> ltkit_buffer option) session_prog \<Rightarrow> ('h, 'e, int \<times> ltkit_buffer option) session_prog" where
  "guarded_out \<equiv> guarded_with (\<lambda>c. (c, None))"

end
