(* ===== verification/Completion.thy ===== *)
theory Completion
  imports Session_State
begin

text \<open>
  The session's own logic in \<open>src/Native/src/LibtorrentNative.cpp\<close>: file selection
  (\<open>apply_selection\<close>), checkpoints (\<open>start_checkpoint\<close>, \<open>start_waiting_completion\<close>,
  \<open>finish_checkpoint\<close>), the metadata document (\<open>metadata_json\<close>), the verification of the selected
  payloads, and the alert thread (\<open>alerts\<close>), which drives completion.

  The loops over files and pieces are recursions over the index list; a write outside a vector is the
  outcome \<open>Undefined_behaviour\<close>. An exception that escapes the alert thread ends the process.
\<close>

section \<open>Checkpoints\<close>

definition start_checkpoint :: "('h, 'e) env \<Rightarrow> string \<Rightarrow> bool \<Rightarrow> ('h, 'e, unit) session_prog" where
  "start_checkpoint E i flush =
     andthen (set_job i (\<lambda>value. value\<lparr>checkpoint := (checkpoint value)
         \<lparr>cp_barrier := snd (barrier_begin flush (cp_barrier (checkpoint value)))\<rparr>\<rparr>))
     (bind (the_job i) (\<lambda>value.
       if flush then engine_call (lt_flush_cache E (handle value))
       else engine_call (lt_save_resume_data E (handle value))))"

definition start_waiting_completion :: "('h, 'e) env \<Rightarrow> string \<Rightarrow> ('h, 'e, unit) session_prog" where
  "start_waiting_completion E i =
     bind (the_job i) (\<lambda>value.
       if \<not> completion_waiting value \<or> cp_active (checkpoint value)
          \<or> \<not> barrier_idle (cp_barrier (checkpoint value)) then return ()
       else andthen (set_job i (\<lambda>value. value\<lparr>completion_waiting := False, completion_checkpoint := True\<rparr>))
              (start_checkpoint E i True))"

definition enqueue :: "('h, 'e) env \<Rightarrow> string \<Rightarrow> Kind \<Rightarrow> string \<Rightarrow> ('h, 'e, unit) session_prog" where
  "enqueue E i kind event = andthen (mailbox_call (critical (asserts E) i kind event)) notify_all"

text \<open>\<open>id_for\<close>: the first job, in the iteration order \<open>ks\<close>, that has the handle.\<close>

fun id_for :: "string list \<Rightarrow> 'h \<Rightarrow> ('h, 'e) ltkit_session \<Rightarrow> string option" where
  "id_for [] h w = None"
| "id_for (k # ks) h w = (case session_job w k of
       None \<Rightarrow> id_for ks h w
     | Some value \<Rightarrow> if handle value = h then Some k else id_for ks h w)"

section \<open>File selection\<close>

text \<open>The loop over the desired files, with its early return.\<close>

fun mark_files :: "nat \<Rightarrow> int \<Rightarrow> int list \<Rightarrow> nat list \<Rightarrow> bool \<times> nat list" where
  "mark_files prio count [] ps = (True, ps)"
| "mark_files prio count (index # rest) ps =
     (if index < 0 \<or> index \<ge> count then (False, ps)
      else mark_files prio count rest (ps[nat index := prio]))"

definition select_file_priorities :: "('h, 'e) env \<Rightarrow> int \<Rightarrow> 'h job \<Rightarrow> bool \<times> 'h job" where
  "select_file_priorities E count value =
     (if length (file_priorities value) \<noteq> nat count then
        let (ok, ps) = mark_files (default_priority E) count (desired_files value)
              (replicate (nat count) (dont_download E))
        in (ok, value\<lparr>file_priorities := ps\<rparr>)
      else (True, value))"

text \<open>Raising the pieces of one file, then of all files; \<open>None\<close> is a write outside the vector.\<close>

fun raise_range :: "nat \<Rightarrow> int list \<Rightarrow> nat list \<Rightarrow> nat list option" where
  "raise_range prio [] ps = Some ps"
| "raise_range prio (piece # rest) ps =
     (if piece < 0 \<or> nat piece \<ge> length ps then None
      else raise_range prio rest (if ps ! nat piece < prio then ps[nat piece := prio] else ps))"

fun raise_file_pieces :: "nat \<Rightarrow> torrent_info \<Rightarrow> nat list \<Rightarrow> int list \<Rightarrow> nat list \<Rightarrow> nat list option" where
  "raise_file_pieces dont info fps [] ps = Some ps"
| "raise_file_pieces dont info fps (index # rest) ps =
     (if nat index \<ge> length fps \<or> fps ! nat index = dont \<or> ti_file_size info index = 0
      then raise_file_pieces dont info fps rest ps
      else case raise_range (fps ! nat index) [ti_first_piece info index..ti_last_piece info index] ps of
        None \<Rightarrow> None
      | Some ps' \<Rightarrow> raise_file_pieces dont info fps rest ps')"

definition select_piece_priorities :: "('h, 'e) env \<Rightarrow> torrent_info \<Rightarrow> 'h job \<Rightarrow> nat list option" where
  "select_piece_priorities E info value =
     (if length (piece_priorities value) \<noteq> nat (ti_num_pieces info) then
        raise_file_pieces (dont_download E) info (file_priorities value) [0..ti_num_files info - 1]
          (replicate (nat (ti_num_pieces info)) (dont_download E))
      else Some (piece_priorities value))"

definition apply_selection :: "('h, 'e) env \<Rightarrow> string \<Rightarrow> ('h, 'e, bool) session_prog" where
  "apply_selection E i =
     bind (the_job i) (\<lambda>value.
     bind (engine_call (lt_torrent_file E (handle value))) (\<lambda>info. case info of
       None \<Rightarrow> return False
     | Some info \<Rightarrow>
       (let (ok, value') = select_file_priorities E (ti_num_files info) value in
       andthen (set_job i (\<lambda>value. value\<lparr>file_priorities := file_priorities value'\<rparr>))
       (if \<not> ok then return False
        else
          andthen (engine_call (lt_prioritize_files E (handle value) (file_priorities value')))
          (case select_piece_priorities E info value' of
             None \<Rightarrow> crash Undefined_behaviour
           | Some ps \<Rightarrow>
               andthen (set_job i (\<lambda>value. value\<lparr>piece_priorities := ps\<rparr>))
               (andthen (engine_call (lt_prioritize_pieces E (handle value) ps))
               (andthen (set_job i (\<lambda>value. value\<lparr>deadline_pieces := {}\<rparr>))
               (andthen (engine_call (lt_clear_piece_deadlines E (handle value)))
               (return True)))))))))"

section \<open>The metadata document\<close>

text \<open>One element of the \<open>files\<close> array; \<open>None\<close> when its path is unsafe.\<close>

definition file_entry :: "('h, 'e) env \<Rightarrow> torrent_info \<Rightarrow> nat list \<Rightarrow> int list \<Rightarrow> int \<Rightarrow> string option" where
  \<open>file_entry E info fps progress index =
     (case safe_relative_path (ti_file_absolute info index) (ti_file_path info index) of
        None \<Rightarrow> None
      | Some path \<Rightarrow>
          let size = ti_file_size info index;
              selected = nat index < length fps \<and> fps ! nat index \<noteq> dont_download E;
              complete = (if nat index < length progress then progress ! nat index else 0)
          in Some (''{"index":'' @ show_int index
             @ '',"path":"'' @ json_escape path @ ''"''
             @ '',"size":'' @ show_int size
             @ '',"torrentOffset":'' @ show_int (ti_file_offset info index)
             @ (if size > 0 then
                  '',"firstPieceIndex":'' @ show_int (ti_first_piece info index)
                  @ '',"lastPieceIndex":'' @ show_int (ti_last_piece info index)
                else '',"firstPieceIndex":null,"lastPieceIndex":null'')
             @ '',"isSelected":'' @ show_bool selected
             @ '',"completedBytes":'' @ show_int complete @ ''}''))\<close>

fun file_entries :: "('h, 'e) env \<Rightarrow> torrent_info \<Rightarrow> nat list \<Rightarrow> int list \<Rightarrow> int list \<Rightarrow> string option" where
  "file_entries E info fps progress [] = Some []"
| "file_entries E info fps progress (index # rest) =
     (case file_entry E info fps progress index of
        None \<Rightarrow> None
      | Some entry \<Rightarrow>
          (case file_entries E info fps progress rest of
             None \<Rightarrow> None
           | Some entries \<Rightarrow> Some ((if index \<noteq> 0 then '','' else []) @ entry @ entries)))"

definition json_opt :: "string option \<Rightarrow> string" where
  \<open>json_opt v = (case v of None \<Rightarrow> ''null'' | Some s \<Rightarrow> ''"'' @ s @ ''"'')\<close>

definition metadata_document :: "('h, 'e) env \<Rightarrow> torrent_info \<Rightarrow> nat list \<Rightarrow> int list \<Rightarrow> string option" where
  \<open>metadata_document E info fps progress =
     (case file_entries E info fps progress [0..ti_num_files info - 1] of
        None \<Rightarrow> None
      | Some entries \<Rightarrow> Some (
          ''{"name":"'' @ json_escape (ti_name info) @ ''"''
          @ '',"infoHashV1":'' @ json_opt (ti_hash_v1 info)
          @ '',"infoHashV2":'' @ json_opt (ti_hash_v2 info)
          @ '',"pieceLength":'' @ show_int (ti_piece_length info)
          @ '',"pieceCount":'' @ show_int (ti_num_pieces info)
          @ '',"totalBytes":'' @ show_int (ti_total_size info)
          @ '',"creationDate":''
          @ (if ti_creation_date info > 0 then show_int (ti_creation_date info) else ''null'')
          @ '',"creator":''
          @ json_opt (if ti_creator info = [] then None else Some (json_escape (ti_creator info)))
          @ '',"files":['' @ entries @ '']}''))\<close>

text \<open>\<open>metadata_json\<close> with \<open>safe\<close> false on entry: the document and the final value of \<open>safe\<close>.\<close>

definition metadata_json :: "('h, 'e) env \<Rightarrow> string \<Rightarrow> ('h, 'e, string \<times> bool) session_prog" where
  "metadata_json E i =
     bind (the_job i) (\<lambda>value.
     bind (engine_call (lt_torrent_file E (handle value))) (\<lambda>info. case info of
       None \<Rightarrow> return ([], False)
     | Some info \<Rightarrow>
         bind (engine_call (lt_file_progress E (handle value))) (\<lambda>progress.
         bind (engine_call (lt_get_file_priorities E (handle value))) (\<lambda>fps.
           case metadata_document E info fps progress of
             None \<Rightarrow> return ([], False)
           | Some json \<Rightarrow> return (json, True)))))"

definition cache_final_metadata :: "('h, 'e) env \<Rightarrow> string \<Rightarrow> ('h, 'e, unit) session_prog" where
  "cache_final_metadata E i =
     bind (metadata_json E i) (\<lambda>(metadata, safe).
       if safe then set_job i (\<lambda>value. value\<lparr>final_metadata := metadata\<rparr>) else return ())"

section \<open>The selected payloads\<close>

fun collect_payloads ::
  "torrent_info \<Rightarrow> string \<Rightarrow> int list \<Rightarrow> int list \<Rightarrow> SelectedPayload list \<Rightarrow> bool \<times> SelectedPayload list" where
  "collect_payloads info save progress [] acc = (True, acc)"
| "collect_payloads info save progress (index # rest) acc =
     (if index < 0 \<or> index \<ge> ti_num_files info then (False, acc)
      else if ti_pad_file info index then collect_payloads info save progress rest acc
      else case safe_relative_path (ti_file_absolute info index) (ti_file_path info index) of
        None \<Rightarrow> (False, acc)
      | Some path \<Rightarrow>
          if nat index \<ge> length progress \<or> progress ! nat index < ti_file_size info index then (False, acc)
          else collect_payloads info save progress rest
                 (acc @ [\<lparr>payload_path = path_append save path, payload_size = ti_file_size info index\<rparr>]))"

definition refresh_selected_payloads :: "('h, 'e) env \<Rightarrow> string \<Rightarrow> ('h, 'e, bool) session_prog" where
  "refresh_selected_payloads E i =
     andthen (set_job i (\<lambda>value. value\<lparr>final_payloads := []\<rparr>))
     (bind (the_job i) (\<lambda>value.
     bind (engine_call (lt_torrent_file E (handle value))) (\<lambda>info. case info of
       None \<Rightarrow> return False
     | Some info \<Rightarrow>
         bind (engine_call (lt_status E (handle value))) (\<lambda>status.
         bind (engine_call (lt_file_progress E (handle value))) (\<lambda>progress.
           (let (ok, payloads) = collect_payloads info (save_path status) progress (desired_files value) []
            in andthen (set_job i (\<lambda>value. value\<lparr>final_payloads := payloads\<rparr>))
               (if \<not> ok then return False
                else system_call (sync_selected_payloads (env_posix E) payloads))))))))"

section \<open>The end of a checkpoint\<close>

definition checkpoint_failure :: string where
  "checkpoint_failure = ''Torrent completion failed: the final disk checkpoint did not succeed.''"

definition payload_failure :: string where
  "payload_failure = ''Torrent completion failed: one or more selected payload files are missing or incomplete after a disk checkpoint and refresh.''"

definition metadata_failure :: string where
  "metadata_failure = ''Torrent completion failed: selected-file metadata could not be refreshed.''"

text \<open>The last part of a completion: publish or report, tear down, announce the stop.\<close>

definition conclude_completion :: "('h, 'e) env \<Rightarrow> string \<Rightarrow> bool \<Rightarrow> string \<Rightarrow> ('h, 'e, unit) session_prog" where
  "conclude_completion E i success failure_description =
     bind (the_job i) (\<lambda>value.
     andthen
       (if success then
          bind (engine_call (lt_status E (handle value))) (\<lambda>status.
          andthen (set_job i (\<lambda>value. value\<lparr>final_status := Some status,
             final_resume_data := cp_data (checkpoint value)\<rparr>))
          (enqueue E i K_completed (completed_event i status)))
        else enqueue E i K_error (completion_error_event i failure_description))
     (andthen (engine_call (lt_remove_torrent E (handle value) False))
     (andthen (set_job i (\<lambda>value. value\<lparr>completion_checkpoint := False, stopped := True,
        checkpoint := new_checkpoint\<rparr>))
     (andthen (if success then enqueue E i K_stopped (stopped_event i) else return ())
        notify_all))))"

definition finish_completion :: "('h, 'e) env \<Rightarrow> string \<Rightarrow> bool \<Rightarrow> ('h, 'e, unit) session_prog" where
  "finish_completion E i success =
     (if \<not> success then conclude_completion E i False checkpoint_failure
      else
        bind (refresh_selected_payloads E i) (\<lambda>refreshed.
        bind (the_job i) (\<lambda>value.
          if \<not> refreshed then
            if \<not> completion_rechecked value then
              andthen (set_job i (\<lambda>value. value\<lparr>completion_rechecked := True, checkpoint := new_checkpoint\<rparr>))
                (start_checkpoint E i True)
            else conclude_completion E i False payload_failure
          else
            andthen (cache_final_metadata E i)
            (bind (the_job i) (\<lambda>value.
              if final_metadata value \<noteq> [] then conclude_completion E i True []
              else conclude_completion E i False metadata_failure)))))"

definition finish_checkpoint :: "('h, 'e) env \<Rightarrow> string \<Rightarrow> bool \<Rightarrow> ('h, 'e, unit) session_prog" where
  "finish_checkpoint E i success =
     bind (the_job i) (\<lambda>value.
       (let success = success \<and> cp_error (checkpoint value) = LTKIT_OK in
        if completion_checkpoint value then finish_completion E i success
        else if cp_active (checkpoint value) then
          andthen (set_job i (\<lambda>value. value\<lparr>checkpoint := (checkpoint value)\<lparr>cp_done := True,
             cp_error := (if success then LTKIT_OK else LTKIT_ERROR_NATIVE_FAILURE)\<rparr>\<rparr>))
            notify_all
        else
          andthen (set_job i (\<lambda>value. value\<lparr>checkpoint := new_checkpoint\<rparr>))
          (andthen (start_waiting_completion E i) notify_all)))"

section \<open>The alert thread\<close>

text \<open>The alerts the bridge distinguishes; \<open>torrent_alert\<close>s carry the handle.\<close>

datatype 'h alert =
    Metadata_received 'h
  | Torrent_finished 'h
  | Cache_flushed_alert 'h
  | Save_resume_data 'h string
  | Save_resume_data_failed 'h
  | Torrent_error 'h
  | File_error 'h
  | State_changed 'h
  | Other_torrent_alert 'h
  | Other_alert

fun alert_handle :: "'h alert \<Rightarrow> 'h option" where
  "alert_handle (Metadata_received h) = Some h"
| "alert_handle (Torrent_finished h) = Some h"
| "alert_handle (Cache_flushed_alert h) = Some h"
| "alert_handle (Save_resume_data h params) = Some h"
| "alert_handle (Save_resume_data_failed h) = Some h"
| "alert_handle (Torrent_error h) = Some h"
| "alert_handle (File_error h) = Some h"
| "alert_handle (State_changed h) = Some h"
| "alert_handle (Other_torrent_alert h) = Some h"
| "alert_handle Other_alert = None"

definition on_metadata_received :: "('h, 'e) env \<Rightarrow> string \<Rightarrow> ('h, 'e, unit) session_prog" where
  "on_metadata_received E i =
     andthen (set_job i (\<lambda>value. value\<lparr>metadata_ready := True\<rparr>))
     (bind (apply_selection E i) (\<lambda>applied.
     andthen
       (if \<not> applied then
          bind (the_job i) (\<lambda>value.
          andthen (engine_call (lt_pause E (handle value)))
          (andthen (engine_call (lt_remove_torrent E (handle value) False))
          (andthen (set_job i (\<lambda>value. value\<lparr>stopped := True\<rparr>))
          (enqueue E i K_invalid_selection (invalid_selection_event i)))))
        else enqueue E i K_metadata (metadata_event i))
       notify_all))"

text \<open>The condition of the branch is evaluated left to right; the two status reads come last.\<close>

definition on_torrent_finished :: "('h, 'e) env \<Rightarrow> string \<Rightarrow> ('h, 'e, unit) session_prog" where
  "on_torrent_finished E i =
     bind (the_job i) (\<lambda>value.
       if \<not> (completion_stops value \<and> final_status value = None \<and> \<not> completion_checkpoint value
             \<and> \<not> completion_waiting value \<and> \<not> stopped value) then return ()
       else
         bind (engine_call (lt_status E (handle value))) (\<lambda>status1.
         if \<not> total_wanted status1 > 0 then return ()
         else
           bind (engine_call (lt_status E (handle value))) (\<lambda>status2.
           if \<not> is_finished status2 then return ()
           else
             andthen (engine_call (lt_pause E (handle value)))
             (andthen (set_job i (\<lambda>value. value\<lparr>completion_waiting := True\<rparr>))
             (start_waiting_completion E i)))))"

definition on_cache_flushed :: "('h, 'e) env \<Rightarrow> string \<Rightarrow> ('h, 'e, unit) session_prog" where
  "on_cache_flushed E i =
     bind (the_job i) (\<lambda>value.
       (let (accepted, phase) = barrier_cache_flushed (cp_barrier (checkpoint value)) in
        andthen (set_job i (\<lambda>value. value\<lparr>checkpoint := (checkpoint value)\<lparr>cp_barrier := phase\<rparr>\<rparr>))
        (if accepted then engine_call (lt_save_resume_data E (handle value)) else return ())))"

definition on_resume_saved :: "('h, 'e) env \<Rightarrow> string \<Rightarrow> string \<Rightarrow> ('h, 'e, unit) session_prog" where
  "on_resume_saved E i params =
     bind (the_job i) (\<lambda>value.
       (let (accepted, phase) = barrier_resume_saved (cp_barrier (checkpoint value)) in
        andthen (set_job i (\<lambda>value. value\<lparr>checkpoint := (checkpoint value)\<lparr>cp_barrier := phase\<rparr>\<rparr>))
        (if accepted then
           bind (engine_call (lt_write_resume_data_buf E params)) (\<lambda>bytes.
           andthen (set_job i (\<lambda>value. value\<lparr>checkpoint := (checkpoint value)\<lparr>cp_data := bytes\<rparr>\<rparr>))
           (finish_checkpoint E i True))
         else return ())))"

definition on_resume_failed :: "('h, 'e) env \<Rightarrow> string \<Rightarrow> ('h, 'e, unit) session_prog" where
  "on_resume_failed E i =
     bind (the_job i) (\<lambda>value.
       (let (accepted, phase) = barrier_fail (cp_barrier (checkpoint value)) in
        andthen (set_job i (\<lambda>value. value\<lparr>checkpoint := (checkpoint value)\<lparr>cp_barrier := phase\<rparr>\<rparr>))
        (if accepted then finish_checkpoint E i False else return ())))"

definition on_engine_error :: "('h, 'e) env \<Rightarrow> string \<Rightarrow> ('h, 'e, unit) session_prog" where
  "on_engine_error E i =
     bind (the_job i) (\<lambda>value.
       if barrier_pending (cp_barrier (checkpoint value)) then
         set_job i (\<lambda>value. value\<lparr>checkpoint := (checkpoint value)\<lparr>cp_error := LTKIT_ERROR_NATIVE_FAILURE\<rparr>\<rparr>)
       else enqueue E i K_error (native_error_event i))"

definition on_state_changed :: "('h, 'e) env \<Rightarrow> string \<Rightarrow> ('h, 'e, unit) session_prog" where
  "on_state_changed E i =
     bind (the_job i) (\<lambda>value.
     bind (engine_call (lt_status E (handle value))) (\<lambda>status.
     andthen (mailbox_call (mailbox_status i (status_changed_event i status (stopped value))))
       notify_all))"

text \<open>The chain of \<open>alert_cast\<close>s; an alert of another type falls through it.\<close>

definition dispatch_alert :: "('h, 'e) env \<Rightarrow> string \<Rightarrow> 'h alert \<Rightarrow> ('h, 'e, unit) session_prog" where
  "dispatch_alert E i alert = (case alert of
       Metadata_received _ \<Rightarrow> on_metadata_received E i
     | Torrent_finished _ \<Rightarrow> on_torrent_finished E i
     | Cache_flushed_alert _ \<Rightarrow> on_cache_flushed E i
     | Save_resume_data _ params \<Rightarrow> on_resume_saved E i params
     | Save_resume_data_failed _ \<Rightarrow> on_resume_failed E i
     | Torrent_error _ \<Rightarrow> on_engine_error E i
     | File_error _ \<Rightarrow> on_engine_error E i
     | State_changed _ \<Rightarrow> on_state_changed E i
     | Other_torrent_alert _ \<Rightarrow> return ()
     | Other_alert \<Rightarrow> return ())"

definition handle_alert :: "('h, 'e) env \<Rightarrow> string list \<Rightarrow> 'h alert \<Rightarrow> ('h, 'e, unit) session_prog" where
  "handle_alert E ks alert = (case alert_handle alert of
       None \<Rightarrow> return ()
     | Some h \<Rightarrow>
         bind (gets (id_for ks h)) (\<lambda>i. case i of
           None \<Rightarrow> return ()
         | Some i \<Rightarrow>
             bind (the_job i) (\<lambda>value.
             bind (engine_call (lt_is_valid E (handle value))) (\<lambda>valid.
               if \<not> valid then return () else dispatch_alert E i alert))))"

text \<open>
  One turn of the loop, after the alerts were popped: the lock is held for the whole batch. The
  result is whether the loop goes on. Nothing catches an exception here.
\<close>

definition alert_batch :: "('h, 'e) env \<Rightarrow> string list \<Rightarrow> 'h alert list \<Rightarrow> ('h, 'e, bool) session_prog" where
  "alert_batch E ks batch w =
     (if shutting_down w then (Ret False, w)
      else case for_each batch (handle_alert E ks) w of
        (Ret _, w') \<Rightarrow> (Ret True, w')
      | (Throw _, w') \<Rightarrow> (Crash Terminated, w')
      | (Crash c, w') \<Rightarrow> (Crash c, w'))"

end
