(* ===== verification/Session_API.thy ===== *)
theory Session_API
  imports Completion
begin

text \<open>
  The C interface of the bridge (\<open>extern "C"\<close> in \<open>src/Native/src/LibtorrentNative.cpp\<close>), streaming
  apart. An argument \<open>session\<close> or \<open>output\<close> of type \<open>bool\<close> says whether the pointer is non-null, a
  nullable C string is a \<open>string option\<close>, and an array argument is a \<open>c_array\<close>: a null pointer with
  a count, or the elements.

  A query returns its code together with what it wrote to \<open>*output\<close>. \<open>condition.wait_for\<close> gives the
  lock to the other threads: what they do is the argument \<open>between\<close> of the calls that wait.
\<close>

section \<open>Arguments and waiting\<close>

datatype 'a c_array = Null nat | Array "'a list"

fun c_null :: "'a c_array \<Rightarrow> bool" where
  "c_null (Null n) = True"
| "c_null (Array xs) = False"

fun c_count :: "'a c_array \<Rightarrow> nat" where
  "c_count (Null n) = n"
| "c_count (Array xs) = length xs"

fun c_items :: "'a c_array \<Rightarrow> 'a list" where
  "c_items (Null n) = []"
| "c_items (Array xs) = xs"

text \<open>
  \<open>wait_for(lock, timeout, ready)\<close> returns the value of \<open>ready\<close> in the state in which the lock was
  regained, whether it was notified or timed out.
\<close>

definition wait_for :: "('w \<Rightarrow> 'w) \<Rightarrow> ('w \<Rightarrow> bool) \<Rightarrow> ('w, bool) prog" where
  "wait_for between ready w =
     (if ready w then (Ret True, w) else (Ret (ready (between w)), between w))"

text \<open>The first half of a waiting call ends with an answer or with the wake generation to watch.\<close>

datatype 'a request = Answer 'a | Wait "64 word"

text \<open>A \<open>static_cast\<close> to \<open>int32_t\<close>.\<close>

definition int32_of :: "int \<Rightarrow> int" where
  "int32_of x = (x + 2 ^ 31) mod 2 ^ 32 - 2 ^ 31"

section \<open>Life of a session\<close>

record configuration =
  user_agent :: "string option"
  ca_bundle_path :: "string option"
  listen_port_start :: nat
  listen_port_end :: nat
  enable_dht :: bool
  enable_lsd :: bool
  enable_upnp :: bool
  enable_natpmp :: bool

record settings =
  set_user_agent :: string
  set_listen_interfaces :: string
  set_enable_dht :: bool
  set_enable_lsd :: bool
  set_enable_upnp :: bool
  set_enable_natpmp :: bool
  set_validate_https_trackers :: bool
  set_alert_error :: bool
  set_alert_status :: bool
  set_alert_other :: bool

definition session_settings :: "string \<Rightarrow> configuration \<Rightarrow> settings" where
  "session_settings agent c = \<lparr>set_user_agent = agent,
     set_listen_interfaces = ''0.0.0.0:'' @ show_nat (listen_port_start c)
       @ '',[::]:'' @ show_nat (listen_port_start c),
     set_enable_dht = enable_dht c, set_enable_lsd = enable_lsd c, set_enable_upnp = enable_upnp c,
     set_enable_natpmp = enable_natpmp c, set_validate_https_trackers = True,
     set_alert_error = True, set_alert_status = True, set_alert_other = False\<rparr>"

text \<open>
  \<open>is_regular_file\<close>, \<open>setenv\<close>, the constructor of \<open>lt::session\<close> and the thread are arguments; any
  exception they throw is caught.
\<close>

definition ltkit_session_create ::
  "(string \<Rightarrow> ('e, bool) call) \<Rightarrow> (string \<Rightarrow> string \<Rightarrow> 'e \<Rightarrow> 'e) \<Rightarrow> (settings \<Rightarrow> ('e, unit) call)
     \<Rightarrow> ('e, unit) call \<Rightarrow> configuration option \<Rightarrow> bool \<Rightarrow> 'e \<Rightarrow> (int \<times> ('h, 'e) ltkit_session option) \<times> 'e" where
  "ltkit_session_create is_regular_file setenv new_engine start_thread config output e =
     (case config of
        None \<Rightarrow> ((LTKIT_ERROR_INVALID_ARGUMENT, None), e)
      | Some c \<Rightarrow>
          (case (user_agent c, ca_bundle_path c) of
             (Some agent, Some ca) \<Rightarrow>
               if \<not> output \<or> listen_port_start c > listen_port_end c
               then ((LTKIT_ERROR_INVALID_ARGUMENT, None), e)
               else case is_regular_file ca e of
                 (Inl x, e1) \<Rightarrow> ((LTKIT_ERROR_NATIVE_FAILURE, None), e1)
               | (Inr False, e1) \<Rightarrow> ((LTKIT_ERROR_INVALID_ARGUMENT, None), e1)
               | (Inr True, e1) \<Rightarrow>
                   (case new_engine (session_settings agent c) (setenv ''SSL_CERT_FILE'' ca e1) of
                      (Inl x, e2) \<Rightarrow> ((LTKIT_ERROR_NATIVE_FAILURE, None), e2)
                    | (Inr _, e2) \<Rightarrow>
                        (case start_thread e2 of
                           (Inl x, e3) \<Rightarrow> ((LTKIT_ERROR_NATIVE_FAILURE, None), e3)
                         | (Inr _, e3) \<Rightarrow> ((LTKIT_OK, Some (new_session e3)), e3)))
           | _ \<Rightarrow> ((LTKIT_ERROR_INVALID_ARGUMENT, None), e)))"

definition ltkit_session_wake :: "bool \<Rightarrow> ('h, 'e, unit) session_prog" where
  "ltkit_session_wake session =
     (if \<not> session then return ()
      else andthen (modify (\<lambda>w. w\<lparr>wake_generation := wake_generation w + 1\<rparr>)) notify_all)"

text \<open>The result is whether this call took the session down and deleted it.\<close>

definition ltkit_session_destroy :: "('h, 'e) env \<Rightarrow> bool \<Rightarrow> ('h, 'e, bool) session_prog" where
  "ltkit_session_destroy E session =
     (if \<not> session then return False
      else bind (gets shutting_down) (\<lambda>down.
        if down then return False
        else andthen (modify (\<lambda>w. w\<lparr>shutting_down := True\<rparr>))
          (andthen notify_all (andthen (engine_call (lt_abort E)) (return True)))))"

section \<open>Adding a torrent\<close>

definition kMaxSourceBytes :: nat where
  "kMaxSourceBytes = 64 * 1024 * 1024"

definition kMaxResumeBytes :: nat where
  "kMaxResumeBytes = 64 * 1024 * 1024"

record add_request =
  rq_identifier :: "string option"
  rq_source_kind :: int
  rq_source :: "char c_array"
  rq_resume :: "char c_array"
  rq_directory :: "string option"
  rq_selected :: "int c_array"
  rq_has_selection :: bool
  rq_primary :: int
  rq_paused :: bool
  rq_download_limit :: int
  rq_upload_limit :: int
  rq_policy :: int

definition add_request_invalid :: "bool \<Rightarrow> add_request \<Rightarrow> bool" where
  "add_request_invalid session rq \<longleftrightarrow>
     \<not> session \<or> rq_identifier rq = None \<or> rq_identifier rq = Some []
     \<or> length (the (rq_identifier rq)) > 64 \<or> c_null (rq_source rq) \<or> c_count (rq_source rq) = 0
     \<or> rq_directory rq = None \<or> c_count (rq_source rq) > kMaxSourceBytes
     \<or> c_count (rq_resume rq) > kMaxResumeBytes \<or> (c_count (rq_selected rq) > 0 \<and> c_null (rq_selected rq))
     \<or> c_count (rq_selected rq) > 100000 \<or> rq_primary rq < -1 \<or> rq_policy rq < 0 \<or> rq_policy rq > 1"

text \<open>Resume data keeps its own fields, but the source's metadata and, if it has none, hashes.\<close>

definition merge_resume :: "add_params \<Rightarrow> add_params \<Rightarrow> add_params" where
  "merge_resume params restored =
     (let restored = (if ap_ti params \<noteq> None then restored\<lparr>ap_ti := ap_ti params\<rparr> else restored)
      in if ap_hash_v1 restored = None \<and> ap_hash_v2 restored = None
         then restored\<lparr>ap_hash_v1 := ap_hash_v1 params, ap_hash_v2 := ap_hash_v2 params\<rparr>
         else restored)"

definition prepare_params :: "add_request \<Rightarrow> add_params \<Rightarrow> add_params" where
  "prepare_params rq params = params\<lparr>ap_save_path := the (rq_directory rq), ap_default_dont_download := True,
     ap_paused := rq_paused rq, ap_download_limit := max 0 (rq_download_limit rq),
     ap_upload_limit := max 0 (rq_upload_limit rq)\<rparr>"

definition wanted_indexes :: "nat \<Rightarrow> nat list \<Rightarrow> int list" where
  "wanted_indexes dont ps = map (\<lambda>k. int32_of (int k)) (filter (\<lambda>k. ps ! k \<noteq> dont) [0..<length ps])"

definition desired_of :: "('h, 'e) env \<Rightarrow> add_request \<Rightarrow> add_params \<Rightarrow> int list" where
  "desired_of E rq params =
     (if rq_has_selection rq \<and> c_count (rq_selected rq) > 0 then c_items (rq_selected rq)
      else wanted_indexes (dont_download E) (ap_file_priorities params))"

text \<open>The file priorities of the request; \<open>None\<close> when a requested index does not exist.\<close>

definition initial_priorities :: "('h, 'e) env \<Rightarrow> add_request \<Rightarrow> int list \<Rightarrow> add_params \<Rightarrow> nat list option" where
  "initial_priorities E rq desired params =
     (case ap_ti params of
        Some ti \<Rightarrow>
          if rq_has_selection rq then
            let (ok, ps) = mark_files (default_priority E) (ti_num_files ti) desired
                  (replicate (nat (ti_num_files ti)) (dont_download E))
            in if ok then Some ps else None
          else Some (ap_file_priorities params)
      | None \<Rightarrow> Some (ap_file_priorities params))"

definition parse_source :: "('h, 'e) env \<Rightarrow> add_request \<Rightarrow> ('h, 'e, add_params option) session_prog" where
  "parse_source E rq =
     (if rq_source_kind rq = 0 then engine_call (lt_parse_magnet_uri E (c_items (rq_source rq)))
      else engine_call (lt_load_torrent_buffer E (c_items (rq_source rq))))"

text \<open>Reading resume data through a null pointer with a positive size is undefined.\<close>

definition read_resume :: "('h, 'e) env \<Rightarrow> add_request \<Rightarrow> ('h, 'e, add_params option) session_prog" where
  "read_resume E rq =
     (if c_null (rq_resume rq) then crash Undefined_behaviour
      else engine_call (lt_read_resume_data E (c_items (rq_resume rq))))"

text \<open>From \<open>add_torrent\<close> on: register the job and announce known metadata.\<close>

definition register_torrent ::
  "('h, 'e) env \<Rightarrow> string \<Rightarrow> add_request \<Rightarrow> int list \<Rightarrow> add_params \<Rightarrow> ('h, 'e, int) session_prog" where
  "register_torrent E i rq desired params =
     bind (engine_call (lt_add_torrent E params)) (\<lambda>added. case added of
       None \<Rightarrow> fail LTKIT_ERROR_NATIVE_FAILURE ''The torrent could not be added.''
     | Some h \<Rightarrow>
         bind (engine_call (lt_torrent_file E h)) (\<lambda>info.
         andthen (mailbox_call (mailbox_add (asserts E) i))
         (andthen (modify (\<lambda>w. w\<lparr>jobs := AList.update i ((new_job h)\<lparr>desired_files := desired,
             file_priorities := ap_file_priorities params, piece_priorities := ap_piece_priorities params,
             primary_file := rq_primary rq, metadata_ready := (info \<noteq> None),
             completion_stops := (rq_policy rq = 0)\<rparr>) (jobs w)\<rparr>))
         (bind (engine_call (lt_torrent_file E h)) (\<lambda>info.
           if info \<noteq> None then andthen (enqueue E i K_metadata (metadata_event i)) (return LTKIT_OK)
           else return LTKIT_OK)))))"

definition add_parsed :: "('h, 'e) env \<Rightarrow> string \<Rightarrow> add_request \<Rightarrow> add_params \<Rightarrow> ('h, 'e, int) session_prog" where
  "add_parsed E i rq params =
     (let params = prepare_params rq params;
          desired = desired_of E rq params
      in case initial_priorities E rq desired params of
           None \<Rightarrow> fail LTKIT_ERROR_INVALID_FILE_INDEX ''A requested file index is invalid.''
         | Some ps \<Rightarrow> register_torrent E i rq desired (params\<lparr>ap_file_priorities := ps\<rparr>))"

definition add_admitted :: "('h, 'e) env \<Rightarrow> string \<Rightarrow> add_request \<Rightarrow> ('h, 'e, int) session_prog" where
  "add_admitted E i rq =
     (if rq_source_kind rq \<noteq> 0 \<and> rq_source_kind rq \<noteq> 1
      then fail LTKIT_ERROR_INVALID_SOURCE ''The torrent source kind is invalid.''
      else bind (parse_source E rq) (\<lambda>parsed. case parsed of
        None \<Rightarrow> fail LTKIT_ERROR_INVALID_SOURCE ''The torrent source could not be parsed.''
      | Some params \<Rightarrow>
          if c_count (rq_resume rq) > 0 then
            bind (read_resume E rq) (\<lambda>restored. case restored of
              None \<Rightarrow> fail LTKIT_ERROR_CORRUPT_RESUME_DATA ''The resume data is corrupt or incompatible.''
            | Some restored \<Rightarrow> add_parsed E i rq (merge_resume params restored))
          else add_parsed E i rq params))"

definition ltkit_session_add :: "('h, 'e) env \<Rightarrow> bool \<Rightarrow> add_request \<Rightarrow> ('h, 'e, int) session_prog" where
  "ltkit_session_add E session rq =
     (if add_request_invalid session rq then
        (if session then fail LTKIT_ERROR_INVALID_ARGUMENT ''The add request is invalid.''
         else return LTKIT_ERROR_INVALID_ARGUMENT)
      else
        (let i = the (rq_identifier rq) in
         guarded (bind (gets (\<lambda>w. w)) (\<lambda>w.
           if shutting_down w then fail LTKIT_ERROR_SESSION_SHUT_DOWN ''The torrent session has shut down.''
           else if session_job w i \<noteq> None
           then fail LTKIT_ERROR_DUPLICATE_IDENTIFIER ''The torrent identifier already exists.''
           else if \<not> can_add i (events w)
           then fail LTKIT_ERROR_ALLOCATION_LIMIT ''Drain events and remove unused torrents before adding more torrents.''
           else if \<not> path_rooted (the (rq_directory rq))
           then fail LTKIT_ERROR_INVALID_ARGUMENT ''The download directory must be absolute.''
           else add_admitted E i rq))))"

section \<open>Metadata\<close>

definition not_active :: string where
  "not_active = ''The torrent identifier is not active.''"

definition metadata_unavailable :: string where
  "metadata_unavailable = ''Torrent metadata is unavailable.''"

definition metadata_request ::
  "('h, 'e) env \<Rightarrow> string \<Rightarrow> ('h, 'e, (int \<times> ltkit_buffer option) request option) session_prog" where
  "metadata_request E i =
     bind (find_job (Some i)) (\<lambda>value. case value of
       None \<Rightarrow> bind (fail_with LTKIT_ERROR_INVALID_IDENTIFIER not_active) (\<lambda>r. return (Some (Answer r)))
     | Some value \<Rightarrow>
         if stopped value \<and> final_metadata value \<noteq> [] then
           bind (respond E (final_metadata value) ''The metadata response could not be allocated.'')
             (\<lambda>r. return (Some (Answer r)))
         else if stopped value then
           bind (fail_with LTKIT_ERROR_INVALID_IDENTIFIER not_active) (\<lambda>r. return (Some (Answer r)))
         else if \<not> metadata_ready value then bind (gets wake_generation) (\<lambda>g. return (Some (Wait g)))
         else return None)"

definition metadata_woken :: "string \<Rightarrow> 64 word \<Rightarrow> ('h, 'e) ltkit_session \<Rightarrow> bool" where
  "metadata_woken i g w \<longleftrightarrow> shutting_down w \<or> wake_generation w \<noteq> g
     \<or> (case session_job w i of None \<Rightarrow> True | Some current \<Rightarrow> metadata_ready current \<or> stopped current)"

text \<open>The rest, once metadata is ready or the wait is over.\<close>

definition metadata_answer :: "('h, 'e) env \<Rightarrow> string \<Rightarrow> ('h, 'e, int \<times> ltkit_buffer option) session_prog" where
  "metadata_answer E i =
     bind (find_job (Some i)) (\<lambda>value. case value of
       None \<Rightarrow> fail_with LTKIT_ERROR_METADATA_UNAVAILABLE metadata_unavailable
     | Some value \<Rightarrow>
         if stopped value then fail_with LTKIT_ERROR_METADATA_UNAVAILABLE metadata_unavailable
         else bind (engine_call (lt_torrent_file E (handle value))) (\<lambda>info.
           if info = None then fail_with LTKIT_ERROR_METADATA_UNAVAILABLE metadata_unavailable
           else bind (metadata_json E i) (\<lambda>(json, safe).
             if \<not> safe then
               andthen (engine_call (lt_pause E (handle value)))
               (andthen (engine_call (lt_remove_torrent E (handle value) False))
               (andthen (set_job i (\<lambda>value. value\<lparr>stopped := True\<rparr>))
               (fail_with LTKIT_ERROR_PATH_VIOLATION ''Torrent metadata contains an unsafe file path.'')))
             else respond E json ''The metadata response could not be allocated.'')))"

definition metadata_resume ::
  "('h, 'e) env \<Rightarrow> string \<Rightarrow> 64 word \<Rightarrow> bool \<Rightarrow> ('h, 'e, int \<times> ltkit_buffer option) session_prog" where
  "metadata_resume E i g ready =
     (if \<not> ready then fail_with LTKIT_ERROR_TIMED_OUT ''Metadata acquisition timed out.''
      else bind (gets (\<lambda>w. wake_generation w \<noteq> g \<and> \<not> shutting_down w)) (\<lambda>cancelled.
        if cancelled then fail_with LTKIT_ERROR_TIMED_OUT ''Metadata acquisition was cancelled.''
        else metadata_answer E i))"

definition ltkit_session_metadata ::
  "('h, 'e) env \<Rightarrow> (('h, 'e) ltkit_session \<Rightarrow> ('h, 'e) ltkit_session) \<Rightarrow> bool \<Rightarrow> string option \<Rightarrow> int \<Rightarrow> bool
     \<Rightarrow> ('h, 'e, int \<times> ltkit_buffer option) session_prog" where
  "ltkit_session_metadata E between session identifier timeout_ms output =
     (case identifier of
        None \<Rightarrow> return (LTKIT_ERROR_INVALID_ARGUMENT, None)
      | Some i \<Rightarrow>
          if \<not> session \<or> \<not> output \<or> timeout_ms < 0 then return (LTKIT_ERROR_INVALID_ARGUMENT, None)
          else guarded_out (bind (metadata_request E i) (\<lambda>r. case r of
              None \<Rightarrow> metadata_answer E i
            | Some r \<Rightarrow> (case r of
                Answer a \<Rightarrow> return a
              | Wait g \<Rightarrow> bind (wait_for between (metadata_woken i g)) (metadata_resume E i g)))))"

section \<open>Selection and priorities\<close>

text \<open>The common start: the job of an identifier that is not stopped.\<close>

definition with_active_job :: "string option \<Rightarrow> (string \<Rightarrow> 'h job \<Rightarrow> ('h, 'e, int) session_prog) \<Rightarrow> ('h, 'e, int) session_prog" where
  "with_active_job identifier body =
     bind (find_job identifier) (\<lambda>value. case value of
       None \<Rightarrow> fail LTKIT_ERROR_INVALID_IDENTIFIER not_active
     | Some value \<Rightarrow>
         if stopped value then fail LTKIT_ERROR_INVALID_IDENTIFIER not_active
         else body (the identifier) value)"

definition completing :: string where
  "completing = ''The selected files cannot change during torrent completion.''"

definition ltkit_session_select_files ::
  "('h, 'e) env \<Rightarrow> bool \<Rightarrow> string option \<Rightarrow> int c_array \<Rightarrow> int \<Rightarrow> ('h, 'e, int) session_prog" where
  "ltkit_session_select_files E session identifier indexes primary =
     (if \<not> session \<or> identifier = None \<or> (c_count indexes > 0 \<and> c_null indexes) \<or> c_count indexes > 100000
         \<or> primary < -1 then return LTKIT_ERROR_INVALID_ARGUMENT
      else guarded (with_active_job identifier (\<lambda>i value.
        if completion_checkpoint value \<or> completion_waiting value
        then fail LTKIT_ERROR_NATIVE_FAILURE completing
        else bind (engine_call (lt_torrent_file E (handle value))) (\<lambda>info.
          if info = None then fail LTKIT_ERROR_METADATA_UNAVAILABLE metadata_unavailable
          else
            andthen (set_job i (\<lambda>value. value\<lparr>desired_files := c_items indexes, file_priorities := [],
              piece_priorities := [], primary_file := primary\<rparr>))
            (if primary \<ge> 0 \<and> primary \<notin> set (c_items indexes)
             then fail LTKIT_ERROR_INVALID_FILE_INDEX ''The primary file must be selected.''
             else bind (apply_selection E i) (\<lambda>applied.
               if \<not> applied then fail LTKIT_ERROR_INVALID_FILE_INDEX ''A requested file index is invalid.''
               else return LTKIT_OK))))))"

text \<open>\<open>std::vector::resize\<close>.\<close>

definition resized :: "nat \<Rightarrow> 'a \<Rightarrow> 'a list \<Rightarrow> 'a list" where
  "resized n x xs = take n xs @ replicate (n - length xs) x"

definition ltkit_session_set_file_priority ::
  "('h, 'e) env \<Rightarrow> bool \<Rightarrow> string option \<Rightarrow> int \<Rightarrow> nat \<Rightarrow> ('h, 'e, int) session_prog" where
  "ltkit_session_set_file_priority E session identifier file_index priority =
     (if \<not> session \<or> identifier = None \<or> file_index < 0 \<or> priority > 7 then return LTKIT_ERROR_INVALID_ARGUMENT
      else guarded (with_active_job identifier (\<lambda>i value.
        if completion_checkpoint value \<or> completion_waiting value
        then fail LTKIT_ERROR_NATIVE_FAILURE completing
        else bind (engine_call (lt_torrent_file E (handle value))) (\<lambda>info. case info of
          None \<Rightarrow> fail LTKIT_ERROR_METADATA_UNAVAILABLE metadata_unavailable
        | Some info \<Rightarrow>
            if file_index \<ge> ti_num_files info
            then fail LTKIT_ERROR_INVALID_FILE_INDEX ''The file index is invalid.''
            else
              bind (if length (file_priorities value) \<noteq> nat (ti_num_files info)
                    then bind (engine_call (lt_get_file_priorities E (handle value))) (\<lambda>ps.
                           return (resized (nat (ti_num_files info)) (dont_download E) ps))
                    else return (file_priorities value)) (\<lambda>ps.
              (let ps = ps[nat file_index := priority] in
              andthen (set_job i (\<lambda>value. value\<lparr>file_priorities := ps,
                 desired_files := filter (\<lambda>k. ps ! nat k \<noteq> dont_download E) [0..ti_num_files info - 1],
                 piece_priorities := []\<rparr>))
              (bind (apply_selection E i) (\<lambda>applied.
                 if \<not> applied then fail LTKIT_ERROR_NATIVE_FAILURE ''The file priority could not be applied.''
                 else return LTKIT_OK))))))))"

definition ltkit_session_set_piece_priority ::
  "('h, 'e) env \<Rightarrow> bool \<Rightarrow> string option \<Rightarrow> int \<Rightarrow> nat \<Rightarrow> ('h, 'e, int) session_prog" where
  "ltkit_session_set_piece_priority E session identifier piece_index priority =
     (if \<not> session \<or> identifier = None \<or> piece_index < 0 \<or> priority > 7 then return LTKIT_ERROR_INVALID_ARGUMENT
      else guarded (with_active_job identifier (\<lambda>i value.
        bind (engine_call (lt_torrent_file E (handle value))) (\<lambda>info. case info of
          None \<Rightarrow> fail LTKIT_ERROR_METADATA_UNAVAILABLE metadata_unavailable
        | Some info \<Rightarrow>
            if piece_index \<ge> ti_num_pieces info
            then fail LTKIT_ERROR_INVALID_PIECE_INDEX ''The piece index is invalid.''
            else
              bind (if length (piece_priorities value) \<noteq> nat (ti_num_pieces info)
                    then bind (engine_call (lt_get_piece_priorities E (handle value))) (\<lambda>ps.
                           return (resized (nat (ti_num_pieces info)) (dont_download E) ps))
                    else return (piece_priorities value)) (\<lambda>ps.
              andthen (set_job i (\<lambda>value. value\<lparr>piece_priorities := ps[nat piece_index := priority]\<rparr>))
              (andthen (engine_call (lt_piece_priority E (handle value) piece_index priority))
              (return LTKIT_OK)))))))"

text \<open>These three take the session's lock without checking the pointer.\<close>

definition ltkit_session_start :: "('h, 'e) env \<Rightarrow> bool \<Rightarrow> string option \<Rightarrow> ('h, 'e, int) session_prog" where
  "ltkit_session_start E session identifier =
     (if \<not> session then crash Undefined_behaviour
      else guarded (with_active_job identifier (\<lambda>i value.
        andthen (engine_call (lt_resume E (handle value))) (return LTKIT_OK))))"

definition ltkit_session_pause :: "('h, 'e) env \<Rightarrow> bool \<Rightarrow> string option \<Rightarrow> ('h, 'e, int) session_prog" where
  "ltkit_session_pause E session identifier =
     (if \<not> session then crash Undefined_behaviour
      else guarded (with_active_job identifier (\<lambda>i value.
        andthen (engine_call (lt_pause E (handle value))) (return LTKIT_OK))))"

definition ltkit_session_clear_streaming_window ::
  "('h, 'e) env \<Rightarrow> bool \<Rightarrow> string option \<Rightarrow> ('h, 'e, int) session_prog" where
  "ltkit_session_clear_streaming_window E session identifier =
     (if \<not> session then crash Undefined_behaviour
      else guarded (with_active_job identifier (\<lambda>i value.
        andthen (engine_call (lt_clear_piece_deadlines E (handle value)))
        (andthen (set_job i (\<lambda>value. value\<lparr>deadline_pieces := {}\<rparr>))
        (bind (apply_selection E i) (\<lambda>applied.
          if \<not> applied then fail LTKIT_ERROR_METADATA_UNAVAILABLE metadata_unavailable
          else return LTKIT_OK))))))"

section \<open>Status and pieces\<close>

definition ltkit_session_status ::
  "('h, 'e) env \<Rightarrow> bool \<Rightarrow> string option \<Rightarrow> bool \<Rightarrow> ('h, 'e, int \<times> ltkit_buffer option) session_prog" where
  "ltkit_session_status E session identifier output =
     (if \<not> session \<or> identifier = None \<or> \<not> output then return (LTKIT_ERROR_INVALID_ARGUMENT, None)
      else guarded_out (bind (find_job identifier) (\<lambda>value. case value of
        None \<Rightarrow> fail_with LTKIT_ERROR_INVALID_IDENTIFIER ''The torrent identifier does not exist.''
      | Some value \<Rightarrow>
          bind (if stopped value \<and> final_status value \<noteq> None then return (the (final_status value))
                else engine_call (lt_status E (handle value))) (\<lambda>status.
            respond E (status_json status (stopped value)) ''The status response could not be allocated.''))))"

definition with_active_out ::
  "string option \<Rightarrow> (string \<Rightarrow> 'h job \<Rightarrow> ('h, 'e, int \<times> ltkit_buffer option) session_prog)
     \<Rightarrow> ('h, 'e, int \<times> ltkit_buffer option) session_prog" where
  "with_active_out identifier body =
     bind (find_job identifier) (\<lambda>value. case value of
       None \<Rightarrow> fail_with LTKIT_ERROR_INVALID_IDENTIFIER not_active
     | Some value \<Rightarrow>
         if stopped value then fail_with LTKIT_ERROR_INVALID_IDENTIFIER not_active
         else body (the identifier) value)"

text \<open>The elements of a JSON array.\<close>

fun commas :: "string list \<Rightarrow> string" where
  "commas [] = []"
| "commas [x] = x"
| "commas (x # y # xs) = x @ '','' @ commas (y # xs)"

definition pieces_json :: "('h, 'e) env \<Rightarrow> bool list \<Rightarrow> int list \<Rightarrow> nat list \<Rightarrow> int set \<Rightarrow> string" where
  \<open>pieces_json E have availability priorities deadlines =
     ''{"completed":['' @ commas (map show_bool have)
     @ ''],"availability":['' @ commas (map (\<lambda>k. show_int
          (if k < length availability then availability ! k else 0)) [0..<length priorities])
     @ ''],"priorities":['' @ commas (map (lt_priority_string E) priorities)
     @ ''],"deadlinePieceIndexes":['' @ commas (map show_int (sorted_list_of_set deadlines)) @ '']}''\<close>

definition ltkit_session_pieces ::
  "('h, 'e) env \<Rightarrow> bool \<Rightarrow> string option \<Rightarrow> bool \<Rightarrow> ('h, 'e, int \<times> ltkit_buffer option) session_prog" where
  "ltkit_session_pieces E session identifier output =
     (if \<not> session \<or> identifier = None \<or> \<not> output then return (LTKIT_ERROR_INVALID_ARGUMENT, None)
      else guarded_out (with_active_out identifier (\<lambda>i value.
        bind (engine_call (lt_torrent_file E (handle value))) (\<lambda>info. case info of
          None \<Rightarrow> fail_with LTKIT_ERROR_METADATA_UNAVAILABLE metadata_unavailable
        | Some info \<Rightarrow>
            bind (engine_call (lt_get_piece_priorities E (handle value))) (\<lambda>priorities.
            bind (engine_call (lt_piece_availability E (handle value))) (\<lambda>availability.
            bind (map_each [0..ti_num_pieces info - 1] (\<lambda>k. engine_call (lt_have_piece E (handle value) k))) (\<lambda>have.
            respond E (pieces_json E have availability priorities (deadline_pieces value))
              ''The piece response could not be allocated.'')))))))"

text \<open>The bit of piece \<open>i\<close> in the bitset.\<close>

definition set_piece_bit :: "nat \<Rightarrow> 8 word list \<Rightarrow> 8 word list" where
  "set_piece_bit i completed = completed[i div 8 := or (completed ! (i div 8)) (push_bit (i mod 8) 1)]"

fun collect_bits :: "('h, 'e) env \<Rightarrow> 'h \<Rightarrow> int list \<Rightarrow> 8 word list \<Rightarrow> ('h, 'e, 8 word list) session_prog" where
  "collect_bits E h [] completed = return completed"
| "collect_bits E h (i # rest) completed =
     bind (engine_call (lt_have_piece E h i)) (\<lambda>have.
       if \<not> have then collect_bits E h rest completed
       else if nat i div 8 \<ge> length completed then crash Undefined_behaviour
       else collect_bits E h rest (set_piece_bit (nat i) completed))"

definition bytes_of :: "8 word list \<Rightarrow> string" where
  "bytes_of bs = map (\<lambda>b. char_of (unat b)) bs"

text \<open>
  The result also carries \<open>*piece_count\<close>, \<open>None\<close> when nothing was written to it. It is zero until the
  bitset is complete.
\<close>

definition piece_completion_query ::
  "('h, 'e) env \<Rightarrow> string option \<Rightarrow> ('h, 'e, int \<times> int option \<times> ltkit_buffer option) session_prog" where
  "piece_completion_query E identifier =
     bind (find_job identifier) (\<lambda>value. case value of
       None \<Rightarrow> bind (fail LTKIT_ERROR_INVALID_IDENTIFIER not_active) (\<lambda>c. return (c, Some 0, None))
     | Some value \<Rightarrow>
         if stopped value
         then bind (fail LTKIT_ERROR_INVALID_IDENTIFIER not_active) (\<lambda>c. return (c, Some 0, None))
         else bind (engine_call (lt_torrent_file E (handle value))) (\<lambda>info. case info of
           None \<Rightarrow> bind (fail LTKIT_ERROR_METADATA_UNAVAILABLE metadata_unavailable) (\<lambda>c. return (c, Some 0, None))
         | Some info \<Rightarrow>
             if ti_num_pieces info + 7 \<ge> 2 ^ 31 then crash Undefined_behaviour
             else bind (collect_bits E (handle value) [0..ti_num_pieces info - 1]
                 (replicate (nat (ti_num_pieces info + 7) div 8) 0)) (\<lambda>completed.
             bind (respond E (bytes_of completed) ''The piece completion response could not be allocated.'')
               (\<lambda>(code, buffer). return (code, Some (ti_num_pieces info), buffer)))))"

definition ltkit_session_piece_completion ::
  "('h, 'e) env \<Rightarrow> bool \<Rightarrow> string option \<Rightarrow> bool \<Rightarrow> bool \<Rightarrow> ('h, 'e, int \<times> int option \<times> ltkit_buffer option) session_prog" where
  "ltkit_session_piece_completion E session identifier piece_count output =
     (if \<not> session \<or> identifier = None \<or> \<not> piece_count \<or> \<not> output
      then return (LTKIT_ERROR_INVALID_ARGUMENT, None, None)
      else guarded_with (\<lambda>c. (c, Some 0, None)) (piece_completion_query E identifier))"

section \<open>Checkpoints\<close>

definition checkpoint_open ::
  "('h, 'e) env \<Rightarrow> string \<Rightarrow> bool \<Rightarrow> 'h job \<Rightarrow> ('h, 'e, (int \<times> ltkit_buffer option) request) session_prog" where
  "checkpoint_open E i flush value =
     (if stopped value \<and> final_resume_data value \<noteq> [] then
        bind (if flush then system_call (sync_selected_payloads (env_posix E) (final_payloads value))
              else return True) (\<lambda>synced.
          if \<not> synced
          then bind (fail_with LTKIT_ERROR_COMPLETION_FAILED
                  ''A selected torrent payload is missing or could not be flushed.'') (\<lambda>r. return (Answer r))
          else bind (respond E (final_resume_data value) ''The checkpoint response could not be allocated.'')
                 (\<lambda>r. return (Answer r)))
      else if stopped value then
        bind (fail_with LTKIT_ERROR_INVALID_IDENTIFIER not_active) (\<lambda>r. return (Answer r))
      else if cp_active (checkpoint value) \<or> \<not> barrier_idle (cp_barrier (checkpoint value))
        \<or> completion_checkpoint value then
        bind (fail_with LTKIT_ERROR_NATIVE_FAILURE ''A checkpoint is already pending for this torrent.'')
          (\<lambda>r. return (Answer r))
      else
        andthen (set_job i (\<lambda>value. value\<lparr>checkpoint := new_checkpoint\<lparr>cp_active := True\<rparr>\<rparr>))
        (andthen (start_checkpoint E i flush)
        (bind (gets wake_generation) (\<lambda>g. return (Wait g)))))"

definition checkpoint_request ::
  "('h, 'e) env \<Rightarrow> string \<Rightarrow> bool \<Rightarrow> ('h, 'e, (int \<times> ltkit_buffer option) request) session_prog" where
  "checkpoint_request E i flush =
     bind (find_job (Some i)) (\<lambda>value. case value of
       None \<Rightarrow> bind (fail_with LTKIT_ERROR_INVALID_IDENTIFIER not_active) (\<lambda>r. return (Answer r))
     | Some value \<Rightarrow> checkpoint_open E i flush value)"

definition checkpoint_woken :: "string \<Rightarrow> 64 word \<Rightarrow> ('h, 'e) ltkit_session \<Rightarrow> bool" where
  "checkpoint_woken i g w \<longleftrightarrow> shutting_down w \<or> wake_generation w \<noteq> g
     \<or> (case session_job w i of None \<Rightarrow> True | Some current \<Rightarrow> cp_done (checkpoint current))"

definition cancel_message :: "bool \<Rightarrow> string" where
  "cancel_message interrupted = (if interrupted then ''The checkpoint request was cancelled.''
     else ''The checkpoint request timed out.'')"

definition checkpoint_close ::
  "('h, 'e) env \<Rightarrow> string \<Rightarrow> bool \<Rightarrow> bool \<Rightarrow> 'h job \<Rightarrow> ('h, 'e, int \<times> ltkit_buffer option) session_prog" where
  "checkpoint_close E i completed interrupted value =
     (if \<not> completed \<or> interrupted then
        andthen (set_job i (\<lambda>value. value\<lparr>checkpoint := (checkpoint value)\<lparr>cp_active := False\<rparr>\<rparr>))
        (andthen (if cp_done (checkpoint value)
                  then andthen (set_job i (\<lambda>value. value\<lparr>checkpoint := new_checkpoint\<rparr>))
                         (start_waiting_completion E i)
                  else return ())
        (fail_with LTKIT_ERROR_TIMED_OUT (cancel_message interrupted)))
      else
        andthen (set_job i (\<lambda>value. value\<lparr>checkpoint := new_checkpoint\<rparr>))
        (andthen (start_waiting_completion E i)
        (if cp_error (checkpoint value) \<noteq> LTKIT_OK
         then fail_with (cp_error (checkpoint value)) ''The checkpoint request failed.''
         else respond E (cp_data (checkpoint value)) ''The checkpoint response could not be allocated.'')))"

definition checkpoint_finish ::
  "('h, 'e) env \<Rightarrow> string \<Rightarrow> 64 word \<Rightarrow> bool \<Rightarrow> ('h, 'e, int \<times> ltkit_buffer option) session_prog" where
  "checkpoint_finish E i g completed =
     bind (gets (\<lambda>w. wake_generation w \<noteq> g)) (\<lambda>interrupted.
     bind (find_job (Some i)) (\<lambda>value. case value of
       None \<Rightarrow> fail_with LTKIT_ERROR_TIMED_OUT (cancel_message interrupted)
     | Some value \<Rightarrow> checkpoint_close E i completed interrupted value))"

definition ltkit_session_checkpoint ::
  "('h, 'e) env \<Rightarrow> (('h, 'e) ltkit_session \<Rightarrow> ('h, 'e) ltkit_session) \<Rightarrow> bool \<Rightarrow> string option \<Rightarrow> bool \<Rightarrow> int \<Rightarrow> bool
     \<Rightarrow> ('h, 'e, int \<times> ltkit_buffer option) session_prog" where
  "ltkit_session_checkpoint E between session identifier flush timeout_ms output =
     (case identifier of
        None \<Rightarrow> return (LTKIT_ERROR_INVALID_ARGUMENT, None)
      | Some i \<Rightarrow>
          if \<not> session \<or> \<not> output \<or> timeout_ms \<le> 0 then return (LTKIT_ERROR_INVALID_ARGUMENT, None)
          else guarded_out (bind (checkpoint_request E i flush) (\<lambda>r. case r of
              Answer a \<Rightarrow> return a
            | Wait g \<Rightarrow> bind (wait_for between (checkpoint_woken i g)) (checkpoint_finish E i g))))"

section \<open>Removal and events\<close>

definition ltkit_session_remove :: "('h, 'e) env \<Rightarrow> bool \<Rightarrow> string option \<Rightarrow> bool \<Rightarrow> ('h, 'e, int) session_prog" where
  "ltkit_session_remove E session identifier delete_files =
     (case identifier of
        None \<Rightarrow> return LTKIT_ERROR_INVALID_ARGUMENT
      | Some i \<Rightarrow>
          if \<not> session then return LTKIT_ERROR_INVALID_ARGUMENT
          else guarded (bind (find_job (Some i)) (\<lambda>value. case value of
            None \<Rightarrow> return LTKIT_OK
          | Some value \<Rightarrow>
              if cp_active (checkpoint value)
              then fail LTKIT_ERROR_NATIVE_FAILURE ''The torrent cannot be removed while a checkpoint is pending.''
              else
                andthen (if stopped value then return ()
                         else engine_call (lt_remove_torrent E (handle value) delete_files))
                (andthen (modify (\<lambda>w. w\<lparr>events := retire i (events w), jobs := AList.delete i (jobs w)\<rparr>))
                (andthen notify_all (return LTKIT_OK))))))"

text \<open>\<open>order\<close> is the iteration order of the mailbox's \<open>unordered_map\<close> in a given state.\<close>

definition event_woken ::
  "(('h, 'e) ltkit_session \<Rightarrow> string list) \<Rightarrow> 64 word \<Rightarrow> ('h, 'e) ltkit_session \<Rightarrow> bool" where
  "event_woken order g w \<longleftrightarrow> mailbox_front (order w) (events w) \<noteq> None \<or> shutting_down w \<or> wake_generation w \<noteq> g"

definition ltkit_session_next_event ::
  "('h, 'e) env \<Rightarrow> (('h, 'e) ltkit_session \<Rightarrow> string list) \<Rightarrow> (('h, 'e) ltkit_session \<Rightarrow> ('h, 'e) ltkit_session)
     \<Rightarrow> bool \<Rightarrow> int \<Rightarrow> bool \<Rightarrow> ('h, 'e, int \<times> ltkit_buffer option) session_prog" where
  "ltkit_session_next_event E order between session timeout_ms output =
     (if \<not> session \<or> \<not> output \<or> timeout_ms < 0 then return (LTKIT_ERROR_INVALID_ARGUMENT, None)
      else guarded_out (
        bind (gets wake_generation) (\<lambda>g.
        bind (gets (\<lambda>w. mailbox_front (order w) (events w))) (\<lambda>event.
        andthen (if event = None then wait_for between (event_woken order g) else return True)
        (bind (gets shutting_down) (\<lambda>down.
          if down then return (LTKIT_ERROR_SESSION_SHUT_DOWN, None)
          else bind (gets (\<lambda>w. (order w, mailbox_front (order w) (events w)))) (\<lambda>(ks, event). case event of
            None \<Rightarrow> return (LTKIT_ERROR_TIMED_OUT, None)
          | Some json \<Rightarrow>
              bind (system_call (copy_buffer E json)) (\<lambda>(copied, buffer).
                if \<not> copied
                then bind (fail LTKIT_ERROR_ALLOCATION_LIMIT ''The event response could not be allocated.'')
                       (\<lambda>c. return (c, Some buffer))
                else andthen (mailbox_call (mailbox_pop ks)) (return (LTKIT_OK, Some buffer))))))))))"

definition ltkit_session_take_last_error ::
  "('h, 'e) env \<Rightarrow> bool \<Rightarrow> bool \<Rightarrow> ('h, 'e, int \<times> ltkit_buffer option) session_prog" where
  "ltkit_session_take_last_error E session output =
     (if \<not> session \<or> \<not> output then return (LTKIT_ERROR_INVALID_ARGUMENT, None)
      else bind (gets last_error) (\<lambda>error.
        andthen (modify (\<lambda>w. w\<lparr>last_error := []\<rparr>))
        (bind (system_call (copy_buffer E error)) (\<lambda>(copied, buffer).
          return (if copied then LTKIT_OK else LTKIT_ERROR_ALLOCATION_LIMIT, Some buffer)))))"

end
