(* ===== verification/Session_Invariant.thy ===== *)
theory Session_Invariant
  imports Completion
begin

text \<open>
  The invariant of a session and the proof rules for code that works on one job. \<open>focus i w0 A\<close> is
  the assertion used throughout: compared with the state \<open>w0\<close> nothing outside job \<open>i\<close> has changed
  (other jobs, other torrents' events, shutdown flag, wake generation), the mailbox is consistent, and
  the job and the mailbox satisfy \<open>A\<close>. Calls into the engine cannot disturb it.
\<close>

section \<open>The invariant\<close>

text \<open>
  The completion and checkpoint fields of a job. A completion checkpoint owns a pending barrier that
  no caller shares; a waiting completion waits for somebody; a settled barrier always has a caller who
  will collect the result; a torrent with a final status is stopped, has its metadata cached and never
  enters completion again; the second disk fence was requested by a completion that runs or has ended; a
  checkpoint records no error or the native failure.
\<close>

definition job_inv :: "'h job \<Rightarrow> bool" where
  "job_inv j \<longleftrightarrow>
     (completion_checkpoint j \<longrightarrow> barrier_pending (cp_barrier (checkpoint j))
        \<and> \<not> cp_active (checkpoint j) \<and> \<not> completion_waiting j) \<and>
     (completion_waiting j \<longrightarrow> cp_active (checkpoint j) \<or> \<not> barrier_idle (cp_barrier (checkpoint j))) \<and>
     (cp_active (checkpoint j) \<longrightarrow> \<not> barrier_idle (cp_barrier (checkpoint j))) \<and>
     (cp_done (checkpoint j) \<longleftrightarrow> cp_barrier (checkpoint j) \<in> {Succeeded, Failed}) \<and>
     (cp_done (checkpoint j) \<longrightarrow> cp_active (checkpoint j)) \<and>
     (completion_checkpoint j \<or> completion_waiting j \<longrightarrow> final_status j = None) \<and>
     (final_status j \<noteq> None \<longrightarrow> stopped j \<and> final_metadata j \<noteq> []) \<and>
     (completion_rechecked j \<longrightarrow> completion_checkpoint j \<or> stopped j \<and> \<not> completion_waiting j) \<and>
     cp_error (checkpoint j) \<in> {LTKIT_OK, LTKIT_ERROR_NATIVE_FAILURE}"

definition admitted :: "('h, 'e) ltkit_session \<Rightarrow> bool" where
  "admitted w \<longleftrightarrow>
     (\<forall>k. session_job w k \<noteq> None \<longleftrightarrow> (\<exists>m. job_at (events w) k = Some m \<and> \<not> Job_retired m))"

text \<open>
  The mailbox has announced completion and stop of a torrent exactly when it has a final status; \<open>a\<close>
  is whether a caller waits for the torrent's checkpoint.
\<close>

definition flag :: "EventMailbox \<Rightarrow> string \<Rightarrow> Kind \<Rightarrow> bool" where
  "flag m i kind \<longleftrightarrow> (case job_at m i of None \<Rightarrow> False | Some y \<Rightarrow> delivered_or_pending y ! kind_index kind)"

definition job_ok :: "bool \<Rightarrow> string \<Rightarrow> 'h job \<Rightarrow> EventMailbox \<Rightarrow> bool" where
  "job_ok a i j m \<longleftrightarrow> job_inv j \<and> (a \<longleftrightarrow> cp_active (checkpoint j)) \<and> flag m i K_completed = (final_status j \<noteq> None)
     \<and> flag m i K_stopped = (final_status j \<noteq> None)"

text \<open>\<open>W\<close> is the set of torrents whose checkpoint a caller waits for.\<close>

definition session_inv :: "string set \<Rightarrow> ('h, 'e) ltkit_session \<Rightarrow> bool" where
  "session_inv W w \<longleftrightarrow>
     distinct (map fst (jobs w)) \<and> mailbox_inv (events w) \<and> admitted w
     \<and> (\<forall>k\<in>W. session_job w k \<noteq> None)
     \<and> (\<forall>k j. session_job w k = Some j \<longrightarrow> job_ok (k \<in> W) k j (events w))"

section \<open>Working on one job\<close>

definition others :: "string \<Rightarrow> ('h, 'e) ltkit_session \<Rightarrow> ('h, 'e) ltkit_session \<Rightarrow> bool" where
  "others i w0 w \<longleftrightarrow>
     (\<forall>k. k \<noteq> i \<longrightarrow> session_job w k = session_job w0 k \<and> job_at (events w) k = job_at (events w0) k
        \<and> entries_of k (critical_list (events w)) = entries_of k (critical_list (events w0)))
     \<and> shutting_down w = shutting_down w0 \<and> wake_generation w = wake_generation w0"

definition focus ::
  "string \<Rightarrow> ('h, 'e) ltkit_session \<Rightarrow> ('h job \<Rightarrow> EventMailbox \<Rightarrow> bool) \<Rightarrow> ('h, 'e) ltkit_session \<Rightarrow> bool" where
  "focus i w0 A w \<longleftrightarrow>
     others i w0 w \<and> distinct (map fst (jobs w)) \<and> mailbox_inv (events w) \<and> admitted w
     \<and> (\<exists>v. session_job w i = Some v \<and> A v (events w))"

lemma focus_mono: "focus i w0 A w \<Longrightarrow> (\<And>j m. A j m \<Longrightarrow> B j m) \<Longrightarrow> focus i w0 B w"
  by (auto simp: focus_def)

lemma focus_start:
  assumes "session_inv W w" and "session_job w i = Some v"
  shows "focus i w (\<lambda>j m. j = v \<and> m = events w \<and> job_ok (i \<in> W) i j m) w"
  using assms unfolding focus_def session_inv_def others_def by blast

lemma focus_session_inv:
  assumes "session_inv W w0" and "focus i w0 (job_ok a i) w"
  shows "session_inv (if a then insert i W else W - {i}) w"
  unfolding session_inv_def
proof (intro conjI allI impI ballI)
  fix k j assume "session_job w k = Some j"
  with assms show "job_ok (k \<in> (if a then insert i W else W - {i})) k j (events w)"
    unfolding session_inv_def focus_def others_def
    by (cases "k = i") (force, simp add: job_ok_def flag_def)
next
  fix k assume "k \<in> (if a then insert i W else W - {i})"
  with assms show "session_job w k \<noteq> None"
    unfolding session_inv_def focus_def others_def by (cases "k = i") (auto split: if_splits)
qed (use assms(2) in \<open>simp_all add: focus_def\<close>)

lemma focus_session_inv_same:
  assumes "session_inv W w0" and "focus i w0 (job_ok (i \<in> W) i) w"
  shows "session_inv W w"
proof -
  have "(if i \<in> W then insert i W else W - {i}) = W" by auto
  with focus_session_inv [OF assms] show ?thesis by simp
qed

lemma focus_engine: "focus i w0 A (w\<lparr>engine := e\<rparr>) \<longleftrightarrow> focus i w0 A w"
  by (simp add: focus_def others_def admitted_def)

lemma focus_notified: "focus i w0 A (w\<lparr>notified := n\<rparr>) \<longleftrightarrow> focus i w0 A w"
  by (simp add: focus_def others_def admitted_def)

lemma focus_last_error: "focus i w0 A (w\<lparr>last_error := n\<rparr>) \<longleftrightarrow> focus i w0 A w"
  by (simp add: focus_def others_def admitted_def)


lemma flag_cong: "job_at m k = job_at m' k \<Longrightarrow> flag m k kind = flag m' k kind"
  by (simp add: flag_def)

text \<open>Posting for a torrent changes no other torrent's entries and retires or admits nobody.\<close>

lemma critical_job_at:
  "job_at (snd (critical dbg i kind json m)) k = None \<longleftrightarrow> job_at m k = None"
  "job_at (snd (critical dbg i kind json m)) k = Some j' \<Longrightarrow>
     \<exists>j. job_at m k = Some j \<and> Job_retired j = Job_retired j'"
  "job_at m k = Some j \<Longrightarrow>
     \<exists>j'. job_at (snd (critical dbg i kind json m)) k = Some j' \<and> Job_retired j = Job_retired j'"
  by (auto simp: critical_def push_critical_def Let_def split: option.splits if_splits)

lemma critical_other_job: "k \<noteq> i \<Longrightarrow> job_at (snd (critical dbg i kind json m)) k = job_at m k"
  by (auto simp: critical_def push_critical_def Let_def split: option.splits)

lemma critical_flag:
  assumes inv: "mailbox_inv m" and run: "critical dbg i kind json m = (Ret (), m')" and "kind' \<noteq> K_error"
  shows "flag m' i kind' \<longleftrightarrow> flag m i kind' \<or> kind = kind'"
proof -
  obtain y where y: "job_at m i = Some y" using run by (auto simp: critical_def split: option.splits)
  have "length (delivered_or_pending y) = 4" using mailbox_invD(5) [OF inv y] by (simp add: Job_ok_def)
  with y run assms(3) kind_index_less [of kind'] show ?thesis
    by (cases kind; cases kind')
       (auto simp: critical_def push_critical_def Let_def flag_def split: option.splits if_splits)
qed

lemma critical_one_shot:
  assumes inv: "mailbox_inv m" and run: "critical dbg i kind json m = (Ret (), m')"
    and "kind \<noteq> K_error" and "\<not> flag m i kind"
  shows "queue_of i m' = queue_of i m @ [json]"
proof -
  obtain y where y: "job_at m i = Some y" using run by (auto simp: critical_def split: option.splits)
  with assms(3,4) have "accepts i kind m" by (simp add: accepts_def flag_def)
  then obtain j' where "critical dbg i kind json m = push_critical dbg i kind json j' m"
    using critical_push [OF inv y, of kind dbg json] assms(3) by blast
  with run push_critical_queue [of i dbg i kind json j' m] show ?thesis by simp
qed

lemma critical_other_entries:
  assumes inv: "mailbox_inv m" and "k \<noteq> i"
  shows "entries_of k (critical_list (snd (critical dbg i kind json m))) = entries_of k (critical_list m)"
proof -
  have "bump_count p (entries_of k (critical_list m)) = entries_of k (critical_list m)"
    if known: "job_at m i = Some j" and run: "Job_last_error j = Some p" for j p
  proof (rule bump_count_other)
    let ?l = "last (entries_of i (critical_list m))"
    note last = find_last_node [OF inv known run]
    fix e assume e: "e \<in> set (entries_of k (critical_list m))"
    have "entry_id ?l = i" using last_in_set [OF last(3)] by (simp add: set_entries_of)
    with e assms(2) have "e \<noteq> ?l" by (auto simp: set_entries_of)
    with e last(2,4) mailbox_invD(3) [OF inv] show "entry_node e \<noteq> p"
      by (auto simp: set_entries_of distinct_map dest: inj_onD)
  qed
  with assms(2) show ?thesis
    by (auto simp: critical_def push_critical_def Let_def entries_of_bump split: option.splits)
qed

lemma admitted_critical:
  "admitted w \<Longrightarrow> admitted (w\<lparr>events := snd (critical dbg i kind json (events w))\<rparr>)"
  unfolding admitted_def using critical_job_at by (metis ltkit_session.select_convs(2,3)
      ltkit_session.surjective ltkit_session.update_convs(3))

section \<open>Triples for code that works on one job\<close>

text \<open>
  Assertions speak of the job and the mailbox. Every rule gives the weakest precondition of a
  construct; \<open>job_triple_hoare\<close> turns a triple into one about the whole session.
\<close>

definition job_triple ::
  "string \<Rightarrow> ('h job \<Rightarrow> EventMailbox \<Rightarrow> bool) \<Rightarrow> ('h, 'e, 'a) session_prog
     \<Rightarrow> ('a \<Rightarrow> 'h job \<Rightarrow> EventMailbox \<Rightarrow> bool) \<Rightarrow> ('h job \<Rightarrow> EventMailbox \<Rightarrow> bool) \<Rightarrow> bool" where
  "job_triple i A p R X \<longleftrightarrow> (\<forall>w0. hoare (focus i w0 A) p (\<lambda>x. focus i w0 (R x)) (focus i w0 X))"

lemma job_tripleD: "job_triple i A p R X \<Longrightarrow> hoare (focus i w0 A) p (\<lambda>x. focus i w0 (R x)) (focus i w0 X)"
  by (simp add: job_triple_def)

lemma jt_conseq:
  assumes "job_triple i A' p R' X'" and "\<And>j m. A j m \<Longrightarrow> A' j m"
    and "\<And>x j m. R' x j m \<Longrightarrow> R x j m" and "\<And>j m. X' j m \<Longrightarrow> X j m"
  shows "job_triple i A p R X"
  unfolding job_triple_def
  by (intro allI hoare_conseq [OF job_tripleD [OF assms(1)]]) (auto intro: focus_mono assms(2-))

lemma jt_pre: "job_triple i A' p R X \<Longrightarrow> (\<And>j m. A j m \<Longrightarrow> A' j m) \<Longrightarrow> job_triple i A p R X"
  by (rule jt_conseq)

lemma jt_ghost:
  assumes "\<And>v m0. A v m0 \<Longrightarrow> job_triple i (\<lambda>j m. j = v \<and> m = m0) (p :: ('h, 'e, 'a) session_prog) R X"
  shows "job_triple i A p R X"
  unfolding job_triple_def hoare_def
proof (intro allI impI)
  fix w0 w :: "('h, 'e) ltkit_session" assume w: "focus i w0 A w"
  then obtain v where v: "A v (events w)" "session_job w i = Some v" by (auto simp: focus_def)
  from w v(2) have "focus i w0 (\<lambda>j m. j = v \<and> m = events w) w" by (auto simp: focus_def)
  with job_tripleD [OF assms [OF v(1)], of w0]
  show "case p w of (Ret x, w') \<Rightarrow> focus i w0 (R x) w' | (Throw x, w') \<Rightarrow> focus i w0 X w'
      | (Crash c, w') \<Rightarrow> c \<noteq> Undefined_behaviour"
    by (simp add: hoare_def)
qed

lemma jt_return [job_wp]: "job_triple i (R x) (return x) R X"
  unfolding job_triple_def by (intro allI hoare_return)

lemma jt_throw [job_wp]: "job_triple i X (throw e) R X"
  unfolding job_triple_def by (intro allI hoare_throw)

lemma jt_bind [job_wp]:
  "(\<And>x. job_triple i (M x) (f x) R X) \<Longrightarrow> job_triple i A p M X \<Longrightarrow> job_triple i A (bind p f) R X"
  unfolding job_triple_def by (intro allI hoare_bind) auto

lemma jt_andthen [job_wp]:
  "job_triple i M q R X \<Longrightarrow> job_triple i A p (\<lambda>_. M) X \<Longrightarrow> job_triple i A (andthen p q) R X"
  unfolding andthen_def by (rule jt_bind)

lemma jt_if [job_wp]:
  "job_triple i A p R X \<Longrightarrow> job_triple i B q R X \<Longrightarrow>
   job_triple i (\<lambda>j m. (b \<longrightarrow> A j m) \<and> (\<not> b \<longrightarrow> B j m)) (if b then p else q) R X"
  by (cases b) simp_all

lemma jt_case_option [job_wp]:
  "job_triple i A p R X \<Longrightarrow> (\<And>x. job_triple i (B x) (f x) R X) \<Longrightarrow>
   job_triple i (\<lambda>j m. (v = None \<longrightarrow> A j m) \<and> (\<forall>x. v = Some x \<longrightarrow> B x j m))
     (case v of None \<Rightarrow> p | Some x \<Rightarrow> f x) R X"
  by (cases v) simp_all

lemma jt_case_prod [job_wp]:
  "(\<And>a b. job_triple i (A a b) (f a b) R X) \<Longrightarrow>
   job_triple i (\<lambda>j m. \<forall>a b. v = (a, b) \<longrightarrow> A a b j m) (case v of (a, b) \<Rightarrow> f a b) R X"
  by (cases v) simp

lemma jt_let [job_wp]: "job_triple i A (f v) R X \<Longrightarrow> job_triple i A (let x = v in f x) R X"
  by simp

lemma jt_undefined [job_wp]: "job_triple i (\<lambda>j m. False) (crash Undefined_behaviour) R X"
  by (simp add: job_triple_def hoare_def focus_def)

lemma jt_engine [job_wp]:
  "job_triple i (\<lambda>j m. X j m \<and> (\<forall>x e e'. c e = (Inr x, e') \<longrightarrow> R x j m)) 
     (engine_call c :: ('h, 'e, 'a) session_prog) R X"
  unfolding job_triple_def hoare_def
proof (intro allI impI)
  fix w0 w :: "('h, 'e) ltkit_session" assume w: "focus i w0 (\<lambda>j m. X j m \<and> (\<forall>x e e'. c e = (Inr x, e') \<longrightarrow> R x j m)) w"
  obtain r e where "c (engine w) = (r, e)" by fastforce
  with w show "case engine_call c w of (Ret x, w') \<Rightarrow> focus i w0 (R x) w' | (Throw x, w') \<Rightarrow> focus i w0 X w'
      | (Crash c, w') \<Rightarrow> c \<noteq> Undefined_behaviour"
    by (cases r) (auto simp: engine_call_def focus_engine elim!: focus_mono)
qed

lemma jt_system [job_wp]:
  "job_triple i (\<lambda>j m. \<forall>x e e'. c e = (x, e') \<longrightarrow> R x j m) (system_call c) R X"
  unfolding job_triple_def
  by (intro allI hoareI) (auto simp: system_call_def focus_engine split: prod.splits elim!: focus_mono; blast)+

lemma jt_the_job [job_wp]: "job_triple i (\<lambda>j m. R j j m) (the_job i) R X"
  unfolding job_triple_def by (intro allI hoareI) (auto simp: the_job_def focus_def)

lemma jt_set_job [job_wp]: "job_triple i (\<lambda>j m. R () (f j) m) (set_job i f) R X"
  unfolding job_triple_def
proof (intro allI hoareI)
  fix w0 w w' :: "('a, 'b) ltkit_session" and x
  assume w: "focus i w0 (\<lambda>j. R () (f j)) w" and run: "set_job i f w = (Ret x, w')"
  then obtain v where v: "session_job w i = Some v" "R () (f v) (events w)"
    and w': "w' = w\<lparr>jobs := AList.update i (f v) (jobs w)\<rparr>"
    by (auto simp: set_job_def focus_def)
  have "admitted w'" using w v(1) unfolding w' focus_def admitted_def by auto
  with w v show "focus i w0 (R x) w'"
    unfolding focus_def others_def w' by (auto simp: distinct_keys_update)
qed (auto simp: set_job_def focus_def)

lemma jt_notify [job_wp]: "job_triple i (R ()) notify_all R X"
  unfolding job_triple_def by (intro allI hoareI) (auto simp: notify_all_def modify_def focus_notified)

lemma jt_gets [job_wp]: "job_triple i (\<lambda>j m. \<forall>x. R x j m) (gets f) R X"
  unfolding job_triple_def by (intro allI hoareI) (auto simp: gets_def elim: focus_mono)

lemma jt_fail [job_wp]: "job_triple i (R code) (fail code msg) R X"
  unfolding job_triple_def
  by (intro allI hoareI) (auto simp: fail_def set_error_def prog_defs focus_last_error)

lemma jt_mailbox:
  assumes "\<And>w :: ('h, 'e) ltkit_session. mailbox_inv (events w) \<Longrightarrow> admitted w \<Longrightarrow> session_job w i \<noteq> None \<Longrightarrow>
      (\<forall>e. fst (c (events w)) \<noteq> Throw e) \<and> fst (c (events w)) \<noteq> Crash Undefined_behaviour
      \<and> mailbox_inv (snd (c (events w))) \<and> admitted (w\<lparr>events := snd (c (events w))\<rparr>)
      \<and> (\<forall>k. k \<noteq> i \<longrightarrow> job_at (snd (c (events w))) k = job_at (events w) k
           \<and> entries_of k (critical_list (snd (c (events w)))) = entries_of k (critical_list (events w)))"
  shows "job_triple i (\<lambda>j m. \<forall>x m'. mailbox_inv m \<longrightarrow> c m = (Ret x, m') \<longrightarrow> R x j m')
    (mailbox_call c :: ('h, 'e, 'a) session_prog) R X"
  unfolding job_triple_def
proof (intro allI hoareI)
  fix w0 w w' :: "('h, 'e) ltkit_session" and x
  assume w: "focus i w0 (\<lambda>j m. \<forall>x m'. mailbox_inv m \<longrightarrow> c m = (Ret x, m') \<longrightarrow> R x j m') w"
    and run: "mailbox_call c w = (Ret x, w')"
  then have w': "w' = w\<lparr>events := snd (c (events w))\<rparr>" and c: "c (events w) = (Ret x, snd (c (events w)))"
    by (auto simp: mailbox_call_def case_prod_beta prod_eq_iff)
  have "mailbox_inv (events w)" "admitted w" "session_job w i \<noteq> None" using w by (auto simp: focus_def)
  note ok = assms [OF this] and job = this(3)
  from w job c have "\<exists>v. session_job w i = Some v \<and> R x v (snd (c (events w)))"
    unfolding focus_def by blast
  with w ok show "focus i w0 (R x) w'"
    unfolding w' focus_def others_def by (simp del: map_of_eq_None_iff)
qed (use assms in \<open>fastforce simp: mailbox_call_def case_prod_beta focus_def\<close>)+

lemma jt_enqueue [job_wp]:
  "job_triple i (\<lambda>j m. \<forall>m'. mailbox_inv m \<longrightarrow> critical (asserts E) i kind json m = (Ret (), m') \<longrightarrow> R () j m')
     (enqueue E i kind json) R X"
  unfolding enqueue_def
proof (rule jt_pre, rule jt_andthen, rule jt_notify, rule jt_mailbox)
  fix w :: "('a, 'b) ltkit_session"
  assume inv: "mailbox_inv (events w)" and adm: "admitted w" and "session_job w i \<noteq> None"
  then obtain y where "job_at (events w) i = Some y" unfolding admitted_def by blast
  with critical_outcome [OF inv, of "asserts E" i kind json]
    inv_critical [OF inv] critical_other_job critical_other_entries [OF inv, of _ i "asserts E" kind json] admitted_critical [OF adm]
  show "(\<forall>e. fst (critical (asserts E) i kind json (events w)) \<noteq> Throw e)
      \<and> fst (critical (asserts E) i kind json (events w)) \<noteq> Crash Undefined_behaviour
      \<and> mailbox_inv (snd (critical (asserts E) i kind json (events w)))
      \<and> admitted (w\<lparr>events := snd (critical (asserts E) i kind json (events w))\<rparr>)
      \<and> (\<forall>k. k \<noteq> i \<longrightarrow> job_at (snd (critical (asserts E) i kind json (events w))) k = job_at (events w) k
          \<and> entries_of k (critical_list (snd (critical (asserts E) i kind json (events w))))
            = entries_of k (critical_list (events w)))"
    by auto
qed auto

text \<open>Status updates are not critical entries: they change nobody's queue.\<close>

lemma jt_mailbox_status [job_wp]:
  "job_triple i (\<lambda>j m. \<forall>m'. mailbox_inv m \<longrightarrow> mailbox_inv m' \<longrightarrow> critical_list m' = critical_list m
       \<longrightarrow> flag m' i = flag m i \<longrightarrow> R () j m')
     (mailbox_call (mailbox_status i json)) R X"
proof (rule jt_pre, rule jt_mailbox)
  fix w :: "('a, 'b) ltkit_session"
  assume inv: "mailbox_inv (events w)" and adm: "admitted w" and "session_job w i \<noteq> None"
  then obtain y where y: "job_at (events w) i = Some y" unfolding admitted_def by blast
  show "(\<forall>e. fst (mailbox_status i json (events w)) \<noteq> Throw e)
      \<and> fst (mailbox_status i json (events w)) \<noteq> Crash Undefined_behaviour
      \<and> mailbox_inv (snd (mailbox_status i json (events w)))
      \<and> admitted (w\<lparr>events := snd (mailbox_status i json (events w))\<rparr>)
      \<and> (\<forall>k. k \<noteq> i \<longrightarrow> job_at (snd (mailbox_status i json (events w))) k = job_at (events w) k
          \<and> entries_of k (critical_list (snd (mailbox_status i json (events w))))
            = entries_of k (critical_list (events w)))"
    using inv_status [OF inv, of i json] y adm
    by (auto simp: mailbox_status_def admitted_def)
next
  fix j m assume all: "\<forall>m'. mailbox_inv m \<longrightarrow> mailbox_inv m' \<longrightarrow> critical_list m' = critical_list m
      \<longrightarrow> flag m' i = flag m i \<longrightarrow> R () j m'"
  show "\<forall>x m'. mailbox_inv m \<longrightarrow> mailbox_status i json m = (Ret x, m') \<longrightarrow> R x j m'"
  proof (intro allI impI)
    fix x m' assume inv: "mailbox_inv m" and run: "mailbox_status i json m = (Ret x, m')"
    have "critical_list m' = critical_list m"
      using run by (auto simp: mailbox_status_def split: option.splits if_splits)
    moreover have "flag m' i = flag m i"
      using run by (auto simp: mailbox_status_def flag_def split: option.splits if_splits)
    ultimately show "R x j m'" using inv_status [OF inv, of i json] run all inv by simp
  qed
qed

section \<open>From one job to the session\<close>

lemma job_triple_hoare:
  assumes "\<And>a. job_triple i (job_ok a i) (p :: ('h, 'e, 'a) session_prog) (\<lambda>_. job_ok a i) (Y a)"
    and "\<And>w0 w. session_inv W w0 \<Longrightarrow> focus i w0 (Y (i \<in> W)) w \<Longrightarrow> X w"
  shows "hoare (\<lambda>w. session_inv W w \<and> (\<exists>v. session_job w i = Some v)) p (\<lambda>_. session_inv W) X"
proof -
  have start: "focus i w (job_ok (i \<in> W) i) w" if "session_inv W w" "session_job w i = Some v" for w v
    by (rule focus_mono [OF focus_start [OF that]]) simp
  note triple = job_tripleD [OF assms(1) [of "i \<in> W"]]
  show ?thesis
  proof (rule hoareI; elim conjE exE)
    fix w x w' v assume "p w = (Ret x, w')" and w: "session_inv W w" "session_job w i = Some v"
    then show "session_inv W w'" using focus_session_inv_same [OF w(1) hoare_RetD [OF triple start [OF w]]] by blast
  next
    fix w e w' v assume "p w = (Throw e, w')" and w: "session_inv W w" "session_job w i = Some v"
    then show "X w'" using assms(2) [OF w(1) hoare_ThrowD [OF triple start [OF w]]] by blast
  next
    fix w w' :: "('h, 'e) ltkit_session" and v assume w: "session_inv W w" "session_job w i = Some v"
    show "p w \<noteq> (Crash Undefined_behaviour, w')" by (rule hoare_CrashD [OF triple start [OF w]])
  qed
qed

lemma job_triple_run:
  assumes "job_triple i A p R X" and "session_inv W w" and "session_job w i = Some v"
    and "job_ok (i \<in> W) i v (events w) \<Longrightarrow> A v (events w)"
  shows "case p w of
      (Ret x, w') \<Rightarrow> focus i w (R x) w'
    | (Throw e, w') \<Rightarrow> focus i w X w'
    | (Crash c, w') \<Rightarrow> c \<noteq> Undefined_behaviour"
proof -
  have "focus i w A w"
    by (rule focus_mono [OF focus_start [OF assms(2,3)]]) (use assms(4) in simp)
  with job_tripleD [OF assms(1), of w] show ?thesis by (simp add: hoare_def)
qed

section \<open>Changes that keep a job good\<close>

lemma job_ok_irrelevant [simp]:
  "job_ok a i (j\<lparr>metadata_ready := b\<rparr>) m = job_ok a i j m"
  "job_ok a i (j\<lparr>primary_file := k\<rparr>) m = job_ok a i j m"
  "job_ok a i (j\<lparr>desired_files := ks\<rparr>) m = job_ok a i j m"
  "job_ok a i (j\<lparr>file_priorities := ps\<rparr>) m = job_ok a i j m"
  "job_ok a i (j\<lparr>piece_priorities := ps\<rparr>) m = job_ok a i j m"
  "job_ok a i (j\<lparr>deadline_pieces := ds\<rparr>) m = job_ok a i j m"
  by (simp_all add: job_ok_def job_inv_def)

lemma job_ok_stopped [simp]: "job_ok a i j m \<Longrightarrow> job_ok a i (j\<lparr>stopped := True\<rparr>) m"
  by (auto simp: job_ok_def job_inv_def)

lemma job_ok_error [simp]:
  "job_ok a i j m \<Longrightarrow> job_ok a i (j\<lparr>checkpoint := (checkpoint j)\<lparr>cp_error := LTKIT_ERROR_NATIVE_FAILURE\<rparr>\<rparr>) m"
  by (simp add: job_ok_def job_inv_def)

lemma job_ok_flag: "job_ok a i j m \<Longrightarrow> flag m' i = flag m i \<Longrightarrow> job_ok a i j m'"
  by (simp add: job_ok_def)

lemma job_ok_post:
  assumes "mailbox_inv m" and "critical dbg i kind json m = (Ret (), m')" and "kind \<notin> {K_completed, K_stopped}"
    and "job_ok a i j m"
  shows "job_ok a i j m'"
  using critical_flag [OF assms(1,2)] assms(3,4) by (simp add: job_ok_def)

lemma job_ok_same:
  "job_ok a i j m \<Longrightarrow> b = cp_barrier (checkpoint j) \<Longrightarrow> job_ok a i (j\<lparr>checkpoint := (checkpoint j)\<lparr>cp_barrier := b\<rparr>\<rparr>) m"
  by (simp add: job_ok_def job_inv_def)

end
