(* ===== verification/Sample_Engine.thy ===== *)
theory Sample_Engine
  imports Session_Invariant
begin

text \<open>
  A concrete engine for the witnesses: one torrent with two files of five bytes in two-byte pieces,
  everything downloaded to \<open>/d\<close>, on the sample file system of \<open>Selected_Payload\<close>. No call throws.
\<close>

definition sample_info :: torrent_info where
  "sample_info = \<lparr>ti_name = ''n'', ti_hash_v1 = None, ti_hash_v2 = None, ti_piece_length = 2,
     ti_num_pieces = 5, ti_total_size = 10, ti_creation_date = 0, ti_creator = [], ti_num_files = 2,
     ti_file_path = (\<lambda>k. if k = 0 then ''a'' else ''b''), ti_file_absolute = (\<lambda>k. False),
     ti_pad_file = (\<lambda>k. False), ti_file_size = (\<lambda>k. 5), ti_file_offset = (\<lambda>k. 5 * k),
     ti_first_piece = (\<lambda>k. 2 * k), ti_last_piece = (\<lambda>k. 2 + 2 * k)\<rparr>"

definition sample_status :: torrent_status where
  "sample_status = \<lparr>ts_paused = False, ts_state = finished, progress_ppm = 1000000, total_wanted = 5,
     total_wanted_done = 5, download_payload_rate = 0, upload_payload_rate = 0, num_peers = 1,
     has_metadata = True, is_finished = True, save_path = ''/d''\<rparr>"

definition sample_params :: add_params where
  "sample_params = \<lparr>ap_ti = Some sample_info, ap_hash_v1 = None, ap_hash_v2 = None, ap_save_path = [],
     ap_default_dont_download = False, ap_paused = False, ap_download_limit = 0, ap_upload_limit = 0,
     ap_file_priorities = [], ap_piece_priorities = [], ap_other = []\<rparr>"

definition sample_env :: "(nat, sample_os) env" where
  "sample_env = \<lparr>asserts = False, env_posix = sample_posix, env_malloc = (\<lambda>n e. (True, e)),
     dont_download = 0, default_priority = 4, top_priority = 7,
     lt_is_valid = (\<lambda>h e. (Inr True, e)), lt_torrent_file = (\<lambda>h e. (Inr (Some sample_info), e)),
     lt_status = (\<lambda>h e. (Inr sample_status, e)), lt_pause = (\<lambda>h e. (Inr (), e)),
     lt_resume = (\<lambda>h e. (Inr (), e)), lt_flush_cache = (\<lambda>h e. (Inr (), e)),
     lt_save_resume_data = (\<lambda>h e. (Inr (), e)), lt_write_resume_data_buf = (\<lambda>p e. (Inr p, e)),
     lt_prioritize_files = (\<lambda>h ps e. (Inr (), e)), lt_prioritize_pieces = (\<lambda>h ps e. (Inr (), e)),
     lt_raise_pieces = (\<lambda>h ps e. (Inr (), e)), lt_piece_priority = (\<lambda>h p q e. (Inr (), e)),
     lt_get_file_priorities = (\<lambda>h e. (Inr [4, 0], e)),
     lt_get_piece_priorities = (\<lambda>h e. (Inr [4, 4, 4, 0, 0], e)),
     lt_clear_piece_deadlines = (\<lambda>h e. (Inr (), e)), lt_set_piece_deadline = (\<lambda>h p d e. (Inr (), e)),
     lt_file_progress = (\<lambda>h e. (Inr [5, 0], e)), lt_have_piece = (\<lambda>h p e. (Inr (p < 3), e)),
     lt_piece_availability = (\<lambda>h e. (Inr [1, 1, 1, 1, 1], e)),
     lt_remove_torrent = (\<lambda>h d e. (Inr (), e)), lt_add_torrent = (\<lambda>p e. (Inr (Some 1), e)),
     lt_parse_magnet_uri = (\<lambda>s e. (Inr None, e)),
     lt_load_torrent_buffer = (\<lambda>s e. (Inr (Some sample_params), e)),
     lt_read_resume_data = (\<lambda>s e. (Inr None, e)), lt_abort = (\<lambda>e. (Inr (), e)),
     lt_priority_string = show_nat\<rparr>"

text \<open>The components, so that proofs can leave the records folded.\<close>

lemma sample_fields [simp]:
  "ti_name sample_info = ''n''"
  "ti_hash_v1 sample_info = None"
  "ti_hash_v2 sample_info = None"
  "ti_piece_length sample_info = 2"
  "ti_num_pieces sample_info = 5"
  "ti_total_size sample_info = 10"
  "ti_creation_date sample_info = 0"
  "ti_creator sample_info = []"
  "ti_num_files sample_info = 2"
  "ti_file_path sample_info = (\<lambda>k. if k = 0 then ''a'' else ''b'')"
  "ti_file_absolute sample_info = (\<lambda>k. False)"
  "ti_pad_file sample_info = (\<lambda>k. False)"
  "ti_file_size sample_info = (\<lambda>k. 5)"
  "ti_file_offset sample_info = (\<lambda>k. 5 * k)"
  "ti_first_piece sample_info = (\<lambda>k. 2 * k)"
  "ti_last_piece sample_info = (\<lambda>k. 2 + 2 * k)"
  "ts_paused sample_status = False"
  "ts_state sample_status = finished"
  "progress_ppm sample_status = 1000000"
  "total_wanted sample_status = 5"
  "total_wanted_done sample_status = 5"
  "download_payload_rate sample_status = 0"
  "upload_payload_rate sample_status = 0"
  "num_peers sample_status = 1"
  "has_metadata sample_status = True"
  "is_finished sample_status = True"
  "save_path sample_status = ''/d''"
  "asserts sample_env = False"
  "env_posix sample_env = sample_posix"
  "env_malloc sample_env = (\<lambda>n e. (True, e))"
  "dont_download sample_env = 0"
  "default_priority sample_env = 4"
  "top_priority sample_env = 7"
  "lt_is_valid sample_env = (\<lambda>h e. (Inr True, e))"
  "lt_torrent_file sample_env = (\<lambda>h e. (Inr (Some sample_info), e))"
  "lt_status sample_env = (\<lambda>h e. (Inr sample_status, e))"
  "lt_pause sample_env = (\<lambda>h e. (Inr (), e))"
  "lt_resume sample_env = (\<lambda>h e. (Inr (), e))"
  "lt_flush_cache sample_env = (\<lambda>h e. (Inr (), e))"
  "lt_save_resume_data sample_env = (\<lambda>h e. (Inr (), e))"
  "lt_write_resume_data_buf sample_env = (\<lambda>p e. (Inr p, e))"
  "lt_prioritize_files sample_env = (\<lambda>h ps e. (Inr (), e))"
  "lt_prioritize_pieces sample_env = (\<lambda>h ps e. (Inr (), e))"
  "lt_raise_pieces sample_env = (\<lambda>h ps e. (Inr (), e))"
  "lt_piece_priority sample_env = (\<lambda>h p q e. (Inr (), e))"
  "lt_get_file_priorities sample_env = (\<lambda>h e. (Inr [4, 0], e))"
  "lt_get_piece_priorities sample_env = (\<lambda>h e. (Inr [4, 4, 4, 0, 0], e))"
  "lt_clear_piece_deadlines sample_env = (\<lambda>h e. (Inr (), e))"
  "lt_set_piece_deadline sample_env = (\<lambda>h p d e. (Inr (), e))"
  "lt_file_progress sample_env = (\<lambda>h e. (Inr [5, 0], e))"
  "lt_have_piece sample_env = (\<lambda>h p e. (Inr (p < 3), e))"
  "lt_piece_availability sample_env = (\<lambda>h e. (Inr [1, 1, 1, 1, 1], e))"
  "lt_remove_torrent sample_env = (\<lambda>h d e. (Inr (), e))"
  "lt_add_torrent sample_env = (\<lambda>p e. (Inr (Some 1), e))"
  "lt_parse_magnet_uri sample_env = (\<lambda>s e. (Inr None, e))"
  "lt_load_torrent_buffer sample_env = (\<lambda>s e. (Inr (Some sample_params), e))"
  "lt_read_resume_data sample_env = (\<lambda>s e. (Inr None, e))"
  "lt_abort sample_env = (\<lambda>e. (Inr (), e))"
  "lt_priority_string sample_env = show_nat"
  by (simp_all add: sample_info_def sample_status_def sample_env_def)

lemma sample_paths [simp]:
  "safe_relative_path False ''a'' = Some ''a''" "safe_relative_path False ''b'' = Some ''b''"
  "path_append ''/d'' ''a'' = ''/d/a''"
  by code_simp+

lemma sample_metadata: "\<exists>s. metadata_document sample_env sample_info [4, 0] [5, 0] = Some s \<and> s \<noteq> []"
proof -
  have "[0..1::int] = [0, 1]" by (simp add: upto.simps)
  then show ?thesis by (simp add: metadata_document_def file_entry_def Let_def)
qed

text \<open>A session with the torrent \<open>t\<close> added, its first file selected and nothing prioritised yet.\<close>

definition sample_job :: "nat job" where
  "sample_job = (new_job 1)\<lparr>desired_files := [0], metadata_ready := True\<rparr>"

definition sample_session :: "(nat, sample_os) ltkit_session" where
  "sample_session = (new_session sample_disk)
     \<lparr>jobs := [(''t'', sample_job)], events := snd (mailbox_add False ''t'' empty_mailbox)\<rparr>"

lemma sample_session_inv: "session_inv {} sample_session"
  unfolding session_inv_def
proof (intro conjI allI impI)
  have "mailbox_inv (snd (mailbox_add False ''t'' empty_mailbox))"
    by (rule inv_add [OF inv_empty_mailbox]) (simp add: can_add_def empty_mailbox_def max_jobs_def)
  then show "mailbox_inv (events sample_session)" by (simp add: sample_session_def)
  show "admitted sample_session"
    by (auto simp: admitted_def sample_session_def mailbox_add_def empty_mailbox_def new_Job_def)
  fix k j assume key: "session_job sample_session k = Some j"
  then have "j = sample_job" by (auto simp: sample_session_def split: if_splits)
  moreover have "k = ''t''" using key by (auto simp: sample_session_def split: if_splits)
  ultimately show "job_ok (k \<in> {}) k j (events sample_session)"
    by (simp add: job_ok_def job_inv_def sample_job_def new_job_def new_checkpoint_def flag_def
        sample_session_def mailbox_add_def empty_mailbox_def new_Job_def)
qed (simp_all add: sample_session_def)

end
