(* ===== verification/Selection.thy ===== *)
theory Selection
  imports Sample_Engine
begin

text \<open>
  File selection: what \<open>apply_selection\<close> computes and hands to the engine. A piece gets the largest
  priority among the wanted files it overlaps, and no write leaves the vectors, provided the file
  layouts libtorrent hands out are consistent (\<open>lawful\<close>).
\<close>

section \<open>What libtorrent promises about a file layout\<close>

definition wf_info :: "torrent_info \<Rightarrow> bool" where
  "wf_info info \<longleftrightarrow> 0 < ti_num_files info \<and> 0 \<le> ti_num_pieces info \<and> ti_num_pieces info + 7 < 2 ^ 31 \<and>
     (\<forall>k\<in>{0..<ti_num_files info}. ti_file_size info k \<noteq> 0 \<longrightarrow>
        0 \<le> ti_first_piece info k \<and> ti_last_piece info k < ti_num_pieces info)"

definition lawful :: "('h, 'e) env \<Rightarrow> bool" where
  "lawful E \<longleftrightarrow> (\<forall>h e info e'. lt_torrent_file E h e = (Inr (Some info), e') \<longrightarrow> wf_info info)"

lemma lawfulD: "lawful E \<Longrightarrow> lt_torrent_file E h e = (Inr (Some info), e') \<Longrightarrow> wf_info info"
  by (auto simp: lawful_def)

lemma lawful_count: "lawful E \<Longrightarrow> lt_torrent_file E h e = (Inr (Some info), e') \<Longrightarrow> ti_num_pieces info + 7 < 2 ^ 31"
  by (auto simp: wf_info_def dest: lawfulD)

section \<open>The loops\<close>

lemma mark_files_length: "length (snd (mark_files prio count xs ps)) = length ps"
  by (induction xs arbitrary: ps) auto

lemma mark_files_ok: "fst (mark_files prio count xs ps) \<longleftrightarrow> (\<forall>x\<in>set xs. 0 \<le> x \<and> x < count)"
  by (induction xs arbitrary: ps) auto

lemma mark_files_nth:
  assumes "fst (mark_files prio count xs ps)" and "q < length ps"
  shows "snd (mark_files prio count xs ps) ! q = (if int q \<in> set xs then prio else ps ! q)"
  using assms
proof (induction xs arbitrary: ps)
  case (Cons x xs)
  then have range: "0 \<le> x" "x < count" and rest: "fst (mark_files prio count xs (ps[nat x := prio]))"
    by (auto split: if_splits)
  show ?case
    using Cons.IH [OF rest] Cons.prems(2) range by (auto simp: nth_list_update)
qed simp

lemma mark_files_rejected:
  assumes "\<forall>k\<in>set good. 0 \<le> k \<and> k < count" and "bad < 0 \<or> count \<le> bad"
  shows "mark_files prio count (good @ bad # rest) ps = (False, snd (mark_files prio count good ps))"
  using assms by (induction good arbitrary: ps) auto

lemma raise_range_some:
  assumes "\<forall>p\<in>set xs. 0 \<le> p \<and> nat p < length ps"
  shows "\<exists>ps'. raise_range prio xs ps = Some ps' \<and> length ps' = length ps
    \<and> (\<forall>q<length ps. ps' ! q = (if int q \<in> set xs then max prio (ps ! q) else ps ! q))"
  using assms
proof (induction xs arbitrary: ps)
  case (Cons p xs)
  define ps1 where "ps1 = (if ps ! nat p < prio then ps[nat p := prio] else ps)"
  have len: "length ps1 = length ps" by (simp add: ps1_def)
  with Cons.prems obtain ps' where run: "raise_range prio xs ps1 = Some ps'" "length ps' = length ps1"
    "\<forall>q<length ps1. ps' ! q = (if int q \<in> set xs then max prio (ps1 ! q) else ps1 ! q)"
    using Cons.IH [of ps1] by auto
  have "ps1 ! q = (if int q = p then max prio (ps ! q) else ps ! q)" if "q < length ps" for q
    using Cons.prems that by (auto simp: ps1_def nth_list_update)
  with run len Cons.prems show ?case by (auto simp: ps1_def)
qed simp

text \<open>The wanted files among \<open>ks\<close> that overlap piece \<open>q\<close>.\<close>

definition covering :: "nat \<Rightarrow> torrent_info \<Rightarrow> nat list \<Rightarrow> int list \<Rightarrow> nat \<Rightarrow> int set" where
  "covering dont info fps ks q = {k \<in> set ks. nat k < length fps \<and> fps ! nat k \<noteq> dont
     \<and> ti_file_size info k \<noteq> 0 \<and> ti_first_piece info k \<le> int q \<and> int q \<le> ti_last_piece info k}"

lemma finite_covering [simp]: "finite (covering dont info fps ks q)"
  by (simp add: covering_def)

lemma covering_Nil [simp]: "covering dont info fps [] q = {}"
  by (simp add: covering_def)

lemma Max_insert_max:
  fixes a b :: "'a :: linorder"
  shows "finite S \<Longrightarrow> Max (insert (max a b) S) = Max (insert b (insert a S))"
  by (cases "S = {}") (simp_all add: max.commute max.left_commute max.assoc)

lemma raise_file_pieces_some:
  assumes "\<forall>k\<in>set ks. ti_file_size info k \<noteq> 0 \<longrightarrow>
      0 \<le> ti_first_piece info k \<and> ti_last_piece info k < int (length ps)"
  shows "\<exists>ps'. raise_file_pieces dont info fps ks ps = Some ps' \<and> length ps' = length ps
    \<and> (\<forall>q<length ps. ps' ! q = Max (insert (ps ! q) ((\<lambda>k. fps ! nat k) ` covering dont info fps ks q)))"
  using assms
proof (induction ks arbitrary: ps)
  case (Cons k ks)
  show ?case
  proof (cases "nat k \<ge> length fps \<or> fps ! nat k = dont \<or> ti_file_size info k = 0")
    case True
    then have "covering dont info fps (k # ks) q = covering dont info fps ks q" for q
      by (auto simp: covering_def)
    with True Cons show ?thesis by auto
  next
    case False
    let ?r = "[ti_first_piece info k..ti_last_piece info k]"
    have "\<forall>p\<in>set ?r. 0 \<le> p \<and> nat p < length ps" using False Cons.prems by auto
    then obtain ps1 where ps1: "raise_range (fps ! nat k) ?r ps = Some ps1" "length ps1 = length ps"
      "\<forall>q<length ps. ps1 ! q = (if int q \<in> set ?r then max (fps ! nat k) (ps ! q) else ps ! q)"
      using raise_range_some by blast
    then obtain ps' where ps': "raise_file_pieces dont info fps ks ps1 = Some ps'" "length ps' = length ps"
      "\<forall>q<length ps. ps' ! q = Max (insert (ps1 ! q) ((\<lambda>k. fps ! nat k) ` covering dont info fps ks q))"
      using Cons.IH [of ps1] Cons.prems by auto
    have "ps' ! q = Max (insert (ps ! q) ((\<lambda>k. fps ! nat k) ` covering dont info fps (k # ks) q))"
      if q: "q < length ps" for q
    proof (cases "int q \<in> set ?r")
      case True
      with False have "covering dont info fps (k # ks) q = insert k (covering dont info fps ks q)"
        by (auto simp: covering_def)
      with True q ps1(3) ps'(3) show ?thesis by (simp add: Max_insert_max)
    next
      case outside: False
      then have "covering dont info fps (k # ks) q = covering dont info fps ks q"
        by (auto simp: covering_def)
      with outside q ps1(3) ps'(3) show ?thesis by auto
    qed
    with False ps1 ps' show ?thesis by auto
  qed
qed simp

section \<open>The priorities of a selection\<close>

definition files_selected :: "('h, 'e) env \<Rightarrow> torrent_info \<Rightarrow> int list \<Rightarrow> nat list \<Rightarrow> bool" where
  "files_selected E info desired fps \<longleftrightarrow> length fps = nat (ti_num_files info) \<and>
     (\<forall>q<length fps. fps ! q = (if int q \<in> set desired then default_priority E else dont_download E))"

definition pieces_selected :: "('h, 'e) env \<Rightarrow> torrent_info \<Rightarrow> nat list \<Rightarrow> nat list \<Rightarrow> bool" where
  "pieces_selected E info fps ps \<longleftrightarrow> length ps = nat (ti_num_pieces info) \<and>
     (\<forall>q<length ps. ps ! q = Max (insert (dont_download E)
        ((\<lambda>k. fps ! nat k) ` covering (dont_download E) info fps [0..ti_num_files info - 1] q)))"

lemma select_file_priorities_fresh:
  assumes "file_priorities v = []" and "0 < ti_num_files info"
    and "select_file_priorities E (ti_num_files info) v = (ok, v')"
  shows "ok \<longleftrightarrow> (\<forall>k\<in>set (desired_files v). 0 \<le> k \<and> k < ti_num_files info)"
    and "ok \<Longrightarrow> files_selected E info (desired_files v) (file_priorities v')"
    and "piece_priorities v' = piece_priorities v"
proof -
  let ?m = "mark_files (default_priority E) (ti_num_files info) (desired_files v)
      (replicate (nat (ti_num_files info)) (dont_download E))"
  have run: "ok = fst ?m" "v' = v\<lparr>file_priorities := snd ?m\<rparr>"
    using assms by (auto simp: select_file_priorities_def case_prod_beta Let_def split: if_splits)
  then show "ok \<longleftrightarrow> (\<forall>k\<in>set (desired_files v). 0 \<le> k \<and> k < ti_num_files info)"
    by (simp add: mark_files_ok)
  show "files_selected E info (desired_files v) (file_priorities v')" if ok
    using that run mark_files_nth [of "default_priority E" "ti_num_files info" "desired_files v"
        "replicate (nat (ti_num_files info)) (dont_download E)"]
    by (simp add: files_selected_def mark_files_length)
  show "piece_priorities v' = piece_priorities v" using run by simp
qed

lemma raise_fresh:
  assumes "wf_info info"
  shows "\<exists>ps. raise_file_pieces (dont_download E) info fps [0..ti_num_files info - 1]
      (replicate (nat (ti_num_pieces info)) (dont_download E)) = Some ps \<and> pieces_selected E info fps ps"
proof -
  have "\<forall>k\<in>set [0..ti_num_files info - 1]. ti_file_size info k \<noteq> 0 \<longrightarrow> 0 \<le> ti_first_piece info k
      \<and> ti_last_piece info k < int (length (replicate (nat (ti_num_pieces info)) (dont_download E)))"
    using assms by (auto simp: wf_info_def)
  from raise_file_pieces_some [OF this, of "dont_download E" fps] show ?thesis
    by (auto simp: pieces_selected_def)
qed

lemma select_piece_priorities_some:
  assumes "wf_info info"
  shows "\<exists>ps. select_piece_priorities E info v = Some ps \<and> length ps = nat (ti_num_pieces info)
    \<and> (length (piece_priorities v) \<noteq> nat (ti_num_pieces info) \<longrightarrow> pieces_selected E info (file_priorities v) ps)"
  using raise_fresh [OF assms, of E "file_priorities v"]
  by (auto simp: select_piece_priorities_def pieces_selected_def)

section \<open>Rules for \<open>apply_selection\<close>\<close>

text \<open>Whatever happens, only the priorities and the deadline set of the job change.\<close>

definition unprioritised :: "'h job \<Rightarrow> 'h job" where
  "unprioritised j = j\<lparr>file_priorities := [], piece_priorities := [], deadline_pieces := {}\<rparr>"

definition reselected :: "'h job \<Rightarrow> 'h job \<Rightarrow> bool" where
  "reselected v j \<longleftrightarrow> unprioritised j = unprioritised v"

lemma unprioritised_simps [simp]:
  "handle (unprioritised j) = handle j" "desired_files (unprioritised j) = desired_files j"
  "checkpoint (unprioritised j) = checkpoint j" "stopped (unprioritised j) = stopped j"
  "completion_checkpoint (unprioritised j) = completion_checkpoint j"
  "completion_waiting (unprioritised j) = completion_waiting j"
  "job_ok a i (unprioritised j) m = job_ok a i j m"
  by (simp_all add: unprioritised_def)

lemma reselected_simps:
  assumes "reselected v j"
  shows "handle j = handle v" "desired_files j = desired_files v" "checkpoint j = checkpoint v"
    "stopped j = stopped v" "completion_checkpoint j = completion_checkpoint v"
    "completion_waiting j = completion_waiting v" "job_ok a i j m = job_ok a i v m"
  using assms unfolding reselected_def by (metis unprioritised_simps)+

lemma reselected_refl [simp]: "reselected v v"
  by (simp add: reselected_def)

lemma reselected_update [simp]:
  "reselected v (j\<lparr>file_priorities := fps\<rparr>) = reselected v j"
  "reselected v (j\<lparr>piece_priorities := ps\<rparr>) = reselected v j"
  "reselected v (j\<lparr>deadline_pieces := ds\<rparr>) = reselected v j"
  by (simp_all add: reselected_def unprioritised_def)

lemma lawful_select:
  assumes "lawful E" and "lt_torrent_file E h e = (Inr (Some info), e')"
  shows "\<exists>ps. select_piece_priorities E info v = Some ps"
  using select_piece_priorities_some [OF lawfulD [OF assms]] by blast

lemma jt_apply_selection [job_wp]:
  assumes "lawful E"
  shows "job_triple i (\<lambda>v m. \<forall>j. reselected v j \<longrightarrow> X j m \<and> (\<forall>b. R b j m)) (apply_selection E i) R X"
  unfolding apply_selection_def
  by (rule jt_pre, (rule job_wp)+) (auto dest: lawful_select [OF assms])

text \<open>The outcome of applying a fresh selection to job \<open>v\<close>.\<close>

definition selection_applied :: "('h, 'e) env \<Rightarrow> 'h job \<Rightarrow> bool \<Rightarrow> 'h job \<Rightarrow> bool" where
  "selection_applied E v b j \<longleftrightarrow>
     (\<exists>e e' info. lt_torrent_file E (handle v) e = (Inr info, e') \<and> (case info of
        None \<Rightarrow> \<not> b
      | Some info \<Rightarrow> (b \<longleftrightarrow> (\<forall>k\<in>set (desired_files v). 0 \<le> k \<and> k < ti_num_files info))
          \<and> (b \<longrightarrow> files_selected E info (desired_files v) (file_priorities j)
               \<and> pieces_selected E info (file_priorities j) (piece_priorities j) \<and> deadline_pieces j = {})))"

lemma jt_apply_selection_fresh:
  assumes "lawful E" and fresh: "file_priorities v = []" "piece_priorities v = []"
  shows "job_triple i (\<lambda>j m. j = v) (apply_selection E i)
    (\<lambda>b j m. reselected v j \<and> selection_applied E v b j) (\<lambda>_ _. True)"
proof -
  have fps: "ok \<longleftrightarrow> (\<forall>k\<in>set (desired_files v). 0 \<le> k \<and> k < ti_num_files info)"
      "ok \<Longrightarrow> files_selected E info (desired_files v) (file_priorities v')" "piece_priorities v' = []"
    if "lt_torrent_file E h e = (Inr (Some info), e')"
      and "select_file_priorities E (ti_num_files info) v = (ok, v')" for h e e' info ok v'
    using select_file_priorities_fresh [OF fresh(1) _ that(2)] lawfulD [OF assms(1) that(1)] fresh(2)
    by (auto simp: wf_info_def)
  have piece: "pieces_selected E info (file_priorities v') ps"
    if "lt_torrent_file E h e = (Inr (Some info), e')" and "piece_priorities v' = []"
      and "select_piece_priorities E info v' = Some ps" for h e e' info ps v'
    using select_piece_priorities_some [OF lawfulD [OF assms(1) that(1)], of E v'] that(2,3)
    by (auto simp: pieces_selected_def)
  have none: "selection_applied E v False j" if "lt_torrent_file E (handle v) e = (Inr None, e')" for e e' j
    unfolding selection_applied_def using that by (intro exI [of _ e] exI [of _ e'] exI [of _ None]) simp
  have reject: "selection_applied E v False j"
    if "lt_torrent_file E (handle v) e = (Inr (Some info), e')"
      and "select_file_priorities E (ti_num_files info) v = (False, v')" for e e' info v' j
    unfolding selection_applied_def using that(1) fps(1) [OF that]
    by (intro exI [of _ e] exI [of _ e'] exI [of _ "Some info"]) simp
  have accept: "selection_applied E v True
      (v\<lparr>file_priorities := file_priorities v', piece_priorities := ps, deadline_pieces := {}\<rparr>)"
    if "lt_torrent_file E (handle v) e = (Inr (Some info), e')"
      and "select_file_priorities E (ti_num_files info) v = (True, v')"
      and "select_piece_priorities E info v' = Some ps" for e e' info v' ps
    unfolding selection_applied_def using that(1) fps [OF that(1,2)] piece [OF that(1) _ that(3)]
    by (intro exI [of _ e] exI [of _ e'] exI [of _ "Some info"]) simp
  show ?thesis
    unfolding apply_selection_def
    by (rule jt_pre, (rule job_wp)+) (auto dest: lawful_select [OF assms(1)] intro: none reject accept)
qed

text \<open>
  applying a selection. With the priorities reset, \<open>apply_selection\<close> succeeds exactly when every
  desired index names a file. Then the desired files have the default priority and the others none, a
  piece has the largest priority among the files it overlaps (so every piece of a desired file is
  wanted, and no piece that belongs to unwanted files only), and no deadline is left over. Nothing
  else in the job changes, and it never writes outside a vector.
\<close>

theorem apply_selection_correct:
  assumes "lawful E" and "session_inv W w" and "session_job w i = Some v"
    and "file_priorities v = []" and "piece_priorities v = []"
  shows "case apply_selection E i w of
      (Ret b, w') \<Rightarrow> \<exists>j. session_job w' i = Some j \<and> reselected v j \<and> selection_applied E v b j
    | (Throw e, w') \<Rightarrow> True
    | (Crash c, w') \<Rightarrow> c \<noteq> Undefined_behaviour"
proof -
  from job_triple_run [OF jt_apply_selection_fresh [OF assms(1,4,5)] assms(2,3)] show ?thesis
    by (auto simp: focus_def split: prod.splits outcome.splits)
qed

lemma sample_lawful: "lawful sample_env"
proof -
  have "{0..<2::int} = {0, 1}" by auto
  then have "wf_info sample_info" by (simp add: wf_info_def sample_info_def)
  then show ?thesis by (simp add: lawful_def sample_env_def)
qed

theorem apply_selection_correct_witness:
  "\<exists>w' j. apply_selection sample_env ''t'' sample_session = (Ret True, w') \<and> session_job w' ''t'' = Some j
     \<and> reselected sample_job j \<and> selection_applied sample_env sample_job True j"
proof -
  have run: "fst (apply_selection sample_env ''t'' sample_session) = Ret True" by code_simp
  have "session_job sample_session ''t'' = Some sample_job" by (simp add: sample_session_def)
  from apply_selection_correct [OF sample_lawful sample_session_inv this] run show ?thesis
    by (cases "apply_selection sample_env ''t'' sample_session") (auto simp: sample_job_def new_job_def)
qed

end
