(* ===== verification/Completion_Correct.thy ===== *)
theory Completion_Correct
  imports Selection
begin

text \<open>
  Correctness of checkpoints, completion and the alert thread: weakest preconditions of the
  session's internal functions, the session invariant over every alert, and what the end of a
  completion checkpoint can lead to.
\<close>

section \<open>Starting checkpoints\<close>

text \<open>The effect on the job; the call into the engine may throw after it.\<close>

definition begun :: "bool \<Rightarrow> 'h job \<Rightarrow> 'h job" where
  "begun flush j = j\<lparr>checkpoint := (checkpoint j)
     \<lparr>cp_barrier := snd (barrier_begin flush (cp_barrier (checkpoint j)))\<rparr>\<rparr>"

definition may_start :: "'h job \<Rightarrow> bool" where
  "may_start j \<longleftrightarrow> completion_waiting j \<and> \<not> cp_active (checkpoint j) \<and> barrier_idle (cp_barrier (checkpoint j))"

definition begin_waiting :: "'h job \<Rightarrow> 'h job" where
  "begin_waiting j =
     (if may_start j then begun True (j\<lparr>completion_waiting := False, completion_checkpoint := True\<rparr>) else j)"

lemma jt_start_checkpoint [job_wp]:
  "job_triple i (\<lambda>j m. X (begun flush j) m \<and> R () (begun flush j) m) (start_checkpoint E i flush) R X"
  unfolding start_checkpoint_def by (rule jt_pre, (rule job_wp)+) (auto simp: begun_def)

lemma jt_start_waiting_completion [job_wp]:
  "job_triple i (\<lambda>j m. X (begin_waiting j) m \<and> R () (begin_waiting j) m) (start_waiting_completion E i) R X"
  unfolding start_waiting_completion_def
  by (rule jt_pre, (rule job_wp)+) (auto simp: begin_waiting_def may_start_def)

section \<open>Metadata and payloads\<close>

lemma jt_metadata_json [job_wp]:
  "job_triple i (\<lambda>j m. X j m \<and> (\<forall>x. R x j m)) (metadata_json E i) R X"
  unfolding metadata_json_def by (rule jt_pre, (rule job_wp)+) auto

lemma job_eta [simp]:
  "j\<lparr>final_metadata := final_metadata j\<rparr> = j" "j\<lparr>final_payloads := final_payloads j\<rparr> = j"
  by (cases j; simp)+

lemma jt_cache_final_metadata [job_wp]:
  "job_triple i (\<lambda>j m. X j m \<and> (\<forall>s. R () (j\<lparr>final_metadata := s\<rparr>) m)) (cache_final_metadata E i) R X"
  unfolding cache_final_metadata_def
  by (rule jt_pre, (rule job_wp)+) (auto; metis job_eta(1))

text \<open>The desired files were found complete by the engine and passed the check on disk.\<close>

definition verified :: "('h, 'e) env \<Rightarrow> 'h job \<Rightarrow> SelectedPayload list \<Rightarrow> bool" where
  "verified E j payloads \<longleftrightarrow>
     (\<exists>info status progress e1 e1' e2 e2' e3 e3' e4 e4'.
        lt_torrent_file E (handle j) e1 = (Inr (Some info), e1')
        \<and> lt_status E (handle j) e2 = (Inr status, e2')
        \<and> lt_file_progress E (handle j) e3 = (Inr progress, e3')
        \<and> collect_payloads info (save_path status) progress (desired_files j) [] = (True, payloads)
        \<and> sync_selected_payloads (env_posix E) payloads e4 = (True, e4'))"

lemma verifiedI:
  "lt_torrent_file E (handle j) e1 = (Inr (Some info), e1') \<Longrightarrow>
   lt_status E (handle j) e2 = (Inr status, e2') \<Longrightarrow>
   lt_file_progress E (handle j) e3 = (Inr progress, e3') \<Longrightarrow>
   collect_payloads info (save_path status) progress (desired_files j) [] = (True, payloads) \<Longrightarrow>
   sync_selected_payloads (env_posix E) payloads e4 = (True, e4') \<Longrightarrow> verified E j payloads"
  unfolding verified_def by blast

lemma jt_refresh [job_wp]:
  "job_triple i (\<lambda>j m. \<forall>ps b. X (j\<lparr>final_payloads := ps\<rparr>) m
       \<and> ((b \<longrightarrow> verified E j ps) \<longrightarrow> R b (j\<lparr>final_payloads := ps\<rparr>) m))
     (refresh_selected_payloads E i) R X"
  unfolding refresh_selected_payloads_def
  by (rule jt_pre, (rule job_wp)+) (auto; metis verifiedI)

section \<open>The end of a completion\<close>

text \<open>
  What a finished completion checkpoint leads to, as a relation between job and mailbox before and
  after: a second disk fence, publication, or a reported failure.
\<close>

definition restarted :: "'h job \<Rightarrow> EventMailbox \<Rightarrow> 'h job \<Rightarrow> EventMailbox \<Rightarrow> bool" where
  "restarted v m j m' \<longleftrightarrow> \<not> completion_rechecked v \<and> m' = m \<and>
     (\<exists>ps. j = begun True (v\<lparr>final_payloads := ps, completion_rechecked := True, checkpoint := new_checkpoint\<rparr>))"

definition published ::
  "('h, 'e) env \<Rightarrow> string \<Rightarrow> 'h job \<Rightarrow> EventMailbox \<Rightarrow> 'h job \<Rightarrow> EventMailbox \<Rightarrow> bool" where
  "published E i v m j m' \<longleftrightarrow>
     (\<exists>ps md status m1. verified E v ps \<and> md \<noteq> [] \<and>
        j = v\<lparr>final_payloads := ps, final_metadata := md, final_status := Some status,
              final_resume_data := cp_data (checkpoint v), completion_checkpoint := False, stopped := True,
              checkpoint := new_checkpoint\<rparr> \<and>
        mailbox_inv m \<and> critical (asserts E) i K_completed (completed_event i status) m = (Ret (), m1) \<and>
        mailbox_inv m1 \<and> critical (asserts E) i K_stopped (stopped_event i) m1 = (Ret (), m'))"

definition failed ::
  "('h, 'e) env \<Rightarrow> string \<Rightarrow> string set \<Rightarrow> 'h job \<Rightarrow> EventMailbox \<Rightarrow> 'h job \<Rightarrow> EventMailbox \<Rightarrow> bool" where
  "failed E i reasons v m j m' \<longleftrightarrow>
     (\<exists>ps md reason. reason \<in> reasons \<and>
        j = v\<lparr>final_payloads := ps, final_metadata := md, completion_checkpoint := False, stopped := True,
              checkpoint := new_checkpoint\<rparr> \<and>
        mailbox_inv m \<and> critical (asserts E) i K_error (completion_error_event i reason) m = (Ret (), m'))"

lemma jt_conclude_success:
  "job_triple i (\<lambda>j m. \<forall>status m1 m2. mailbox_inv m \<longrightarrow>
       critical (asserts E) i K_completed (completed_event i status) m = (Ret (), m1) \<longrightarrow> mailbox_inv m1 \<longrightarrow>
       critical (asserts E) i K_stopped (stopped_event i) m1 = (Ret (), m2) \<longrightarrow>
       R () (j\<lparr>final_status := Some status, final_resume_data := cp_data (checkpoint j),
         completion_checkpoint := False, stopped := True, checkpoint := new_checkpoint\<rparr>) m2)
     (conclude_completion E i True description) R (\<lambda>_ _. True)"
  unfolding conclude_completion_def by (rule jt_pre, (rule job_wp)+) auto

lemma jt_conclude_failure:
  "job_triple i (\<lambda>j m. \<forall>m1. mailbox_inv m \<longrightarrow>
       critical (asserts E) i K_error (completion_error_event i description) m = (Ret (), m1) \<longrightarrow>
       R () (j\<lparr>completion_checkpoint := False, stopped := True, checkpoint := new_checkpoint\<rparr>) m1)
     (conclude_completion E i False description) R (\<lambda>_ _. True)"
  unfolding conclude_completion_def by (rule jt_pre, (rule job_wp)+) auto

lemma restartedI:
  "\<not> completion_rechecked v \<Longrightarrow>
   restarted v m (begun True (v\<lparr>final_payloads := ps, completion_rechecked := True, checkpoint := new_checkpoint\<rparr>)) m"
  unfolding restarted_def by blast

lemma publishedI:
  "verified E v ps \<Longrightarrow> md \<noteq> [] \<Longrightarrow> mailbox_inv m \<Longrightarrow>
   critical (asserts E) i K_completed (completed_event i status) m = (Ret (), m1) \<Longrightarrow> mailbox_inv m1 \<Longrightarrow>
   critical (asserts E) i K_stopped (stopped_event i) m1 = (Ret (), m') \<Longrightarrow>
   published E i v m (v\<lparr>final_payloads := ps, final_metadata := md, final_status := Some status,
      final_resume_data := cp_data (checkpoint v), completion_checkpoint := False, stopped := True,
      checkpoint := new_checkpoint\<rparr>) m'"
  unfolding published_def by blast

lemma failedI:
  assumes "reason \<in> reasons" and "mailbox_inv m"
    and "critical (asserts E) i K_error (completion_error_event i reason) m = (Ret (), m')"
  shows "failed E i reasons v m (v\<lparr>final_payloads := ps, final_metadata := md,
      completion_checkpoint := False, stopped := True, checkpoint := new_checkpoint\<rparr>) m'"
    and "failed E i reasons v m (v\<lparr>final_payloads := ps,
      completion_checkpoint := False, stopped := True, checkpoint := new_checkpoint\<rparr>) m'"
    and "failed E i reasons v m (v\<lparr>
      completion_checkpoint := False, stopped := True, checkpoint := new_checkpoint\<rparr>) m'"
proof -
  have main: "failed E i reasons v m (v\<lparr>final_payloads := ps, final_metadata := md,
      completion_checkpoint := False, stopped := True, checkpoint := new_checkpoint\<rparr>) m'" for ps md
    unfolding failed_def using assms by blast
  then show "failed E i reasons v m (v\<lparr>final_payloads := ps, final_metadata := md,
      completion_checkpoint := False, stopped := True, checkpoint := new_checkpoint\<rparr>) m'" .
  have "v\<lparr>final_payloads := ps, final_metadata := final_metadata v\<rparr> = v\<lparr>final_payloads := ps\<rparr>" for ps
    by (cases v) simp
  with main [where md = "final_metadata v"] have both: "failed E i reasons v m (v\<lparr>final_payloads := ps,
      completion_checkpoint := False, stopped := True, checkpoint := new_checkpoint\<rparr>) m'" for ps by simp
  then show "failed E i reasons v m (v\<lparr>final_payloads := ps,
      completion_checkpoint := False, stopped := True, checkpoint := new_checkpoint\<rparr>) m'" .
  from both [of "final_payloads v"] show "failed E i reasons v m (v\<lparr>
      completion_checkpoint := False, stopped := True, checkpoint := new_checkpoint\<rparr>) m'" by simp
qed

definition completion_outcome ::
  "('h, 'e) env \<Rightarrow> string \<Rightarrow> bool \<Rightarrow> 'h job \<Rightarrow> EventMailbox \<Rightarrow> 'h job \<Rightarrow> EventMailbox \<Rightarrow> bool" where
  "completion_outcome E i success v m j m' \<longleftrightarrow>
     (if success then restarted v m j m' \<or> published E i v m j m'
         \<or> failed E i {metadata_failure} v m j m'
         \<or> completion_rechecked v \<and> failed E i {payload_failure} v m j m'
      else failed E i {checkpoint_failure} v m j m')"

lemma jt_finish_completion_from:
  "job_triple i (\<lambda>j m. j = v \<and> m = m0) (finish_completion E i success)
     (\<lambda>_ j m. completion_outcome E i success v m0 j m) (\<lambda>_ _. True)"
  unfolding finish_completion_def
  by (rule jt_pre, (rule job_wp jt_conclude_success jt_conclude_failure)+)
    (auto simp: completion_outcome_def intro: restartedI publishedI failedI)

lemma jt_finish_completion [job_wp]:
  "job_triple i (\<lambda>v m0. \<forall>j m. completion_outcome E i success v m0 j m \<longrightarrow> R () j m)
     (finish_completion E i success) R (\<lambda>_ _. True)"
  by (rule jt_ghost, rule jt_conseq [OF jt_finish_completion_from]) auto

section \<open>The session invariant\<close>

text \<open>A job whose barrier has just settled; \<open>finish_checkpoint\<close> turns it into a good one.\<close>

definition settling :: "bool \<Rightarrow> string \<Rightarrow> 'h job \<Rightarrow> EventMailbox \<Rightarrow> bool" where
  "settling a i j m \<longleftrightarrow>
     cp_barrier (checkpoint j) \<in> {Succeeded, Failed} \<and> (a \<longleftrightarrow> cp_active (checkpoint j)) \<and> \<not> cp_done (checkpoint j) \<and>
     (completion_checkpoint j \<longrightarrow> \<not> cp_active (checkpoint j) \<and> \<not> completion_waiting j) \<and>
     (completion_checkpoint j \<or> completion_waiting j \<longrightarrow> final_status j = None) \<and>
     (final_status j \<noteq> None \<longrightarrow> stopped j \<and> final_metadata j \<noteq> []) \<and>
     (completion_rechecked j \<longrightarrow> completion_checkpoint j \<or> stopped j \<and> \<not> completion_waiting j) \<and>
     flag m i K_completed = (final_status j \<noteq> None) \<and> flag m i K_stopped = (final_status j \<noteq> None)"

lemma settling_start:
  assumes "job_ok a i v m" and "barrier_pending (cp_barrier (checkpoint v))" and "phase \<in> {Succeeded, Failed}"
  shows "settling a i (v\<lparr>checkpoint := (checkpoint v)\<lparr>cp_barrier := phase\<rparr>\<rparr>) m"
    and "settling a i (v\<lparr>checkpoint := (checkpoint v)\<lparr>cp_barrier := phase, cp_data := bytes\<rparr>\<rparr>) m"
proof -
  have "\<not> cp_done (checkpoint v)" using assms(1,2) unfolding job_ok_def job_inv_def barrier_pending_def by force
  with assms(1,3) show "settling a i (v\<lparr>checkpoint := (checkpoint v)\<lparr>cp_barrier := phase\<rparr>\<rparr>) m"
    and "settling a i (v\<lparr>checkpoint := (checkpoint v)\<lparr>cp_barrier := phase, cp_data := bytes\<rparr>\<rparr>) m"
    unfolding settling_def job_ok_def job_inv_def by simp_all
qed

lemma restarted_ok:
  assumes "settling a i v m" and "completion_checkpoint v" and "restarted v m j m'"
  shows "job_ok a i j m'"
proof -
  from assms(3) obtain ps where "j = begun True (v\<lparr>final_payloads := ps, completion_rechecked := True,
      checkpoint := new_checkpoint\<rparr>)" and "m' = m"
    unfolding restarted_def by blast
  with assms(1,2) show ?thesis
    by (simp add: settling_def job_ok_def job_inv_def begun_def new_checkpoint_def barrier_defs)
qed

lemma published_ok:
  assumes "settling a i v m" and "completion_checkpoint v" and "published E i v m j m'"
  shows "job_ok a i j m'"
proof -
  from assms(3) obtain ps md status m1 where j: "j = v\<lparr>final_payloads := ps, final_metadata := md,
      final_status := Some status, final_resume_data := cp_data (checkpoint v), completion_checkpoint := False,
      stopped := True, checkpoint := new_checkpoint\<rparr>" and "md \<noteq> []"
    and run: "mailbox_inv m" "critical (asserts E) i K_completed (completed_event i status) m = (Ret (), m1)"
      "mailbox_inv m1" "critical (asserts E) i K_stopped (stopped_event i) m1 = (Ret (), m')"
    unfolding published_def by blast
  with assms(1,2) critical_flag [OF run(1,2)] critical_flag [OF run(3,4)] show ?thesis
    by (simp add: settling_def job_ok_def job_inv_def new_checkpoint_def barrier_idle_def)
qed

lemma failed_ok:
  assumes "settling a i v m" and "completion_checkpoint v" and "failed E i reasons v m j m'"
  shows "job_ok a i j m'"
proof -
  from assms(3) obtain ps md reason where j: "j = v\<lparr>final_payloads := ps, final_metadata := md,
      completion_checkpoint := False, stopped := True, checkpoint := new_checkpoint\<rparr>"
    and run: "mailbox_inv m" "critical (asserts E) i K_error (completion_error_event i reason) m = (Ret (), m')"
    unfolding failed_def by blast
  with assms(1,2) critical_flag [OF run] show ?thesis
    by (simp add: settling_def job_ok_def job_inv_def new_checkpoint_def barrier_idle_def)
qed

lemma completion_outcome_ok:
  "settling a i v m \<Longrightarrow> completion_checkpoint v \<Longrightarrow> completion_outcome E i success v m j m' \<Longrightarrow> job_ok a i j m'"
  by (auto simp: completion_outcome_def split: if_splits intro: restarted_ok published_ok failed_ok)

lemma begin_waiting_ok:
  assumes "\<not> completion_checkpoint j" and "completion_waiting j \<Longrightarrow> final_status j = None"
    and "final_status j \<noteq> None \<Longrightarrow> stopped j \<and> final_metadata j \<noteq> []"
    and "completion_rechecked j \<Longrightarrow> stopped j \<and> \<not> completion_waiting j"
    and "flag m i K_completed = (final_status j \<noteq> None)" and "flag m i K_stopped = (final_status j \<noteq> None)"
    and "checkpoint j = new_checkpoint"
  shows "job_ok False i (begin_waiting j) m"
  using assms by (auto simp: job_ok_def job_inv_def begin_waiting_def may_start_def begun_def new_checkpoint_def
      barrier_begin_def barrier_idle_def barrier_pending_def)

lemma settled_ok:
  assumes "settling a i j m" and "\<not> completion_checkpoint j"
  shows "cp_active (checkpoint j) \<Longrightarrow>
      err \<in> {LTKIT_OK, LTKIT_ERROR_NATIVE_FAILURE} \<Longrightarrow>
      job_ok a i (j\<lparr>checkpoint := (checkpoint j)\<lparr>cp_done := True, cp_error := err\<rparr>\<rparr>) m"
    and "\<not> cp_active (checkpoint j) \<Longrightarrow> job_ok a i (begin_waiting (j\<lparr>checkpoint := new_checkpoint\<rparr>)) m"
proof -
  show "job_ok a i (j\<lparr>checkpoint := (checkpoint j)\<lparr>cp_done := True, cp_error := err\<rparr>\<rparr>) m"
    if "cp_active (checkpoint j)" "err \<in> {LTKIT_OK, LTKIT_ERROR_NATIVE_FAILURE}"
    using assms that by (auto simp: settling_def job_ok_def job_inv_def barrier_idle_def)
  show "job_ok a i (begin_waiting (j\<lparr>checkpoint := new_checkpoint\<rparr>)) m" if "\<not> cp_active (checkpoint j)"
  proof -
    have "a = False" using assms that by (simp add: settling_def)
    moreover have "job_ok False i (begin_waiting (j\<lparr>checkpoint := new_checkpoint\<rparr>)) m"
      by (rule begin_waiting_ok) (use assms in \<open>auto simp: settling_def\<close>)
    ultimately show ?thesis by simp
  qed
qed

lemma jt_finish_checkpoint:
  "job_triple i (\<lambda>j m. settling a i j m \<and> (\<forall>j m. job_ok a i j m \<longrightarrow> R () j m)) (finish_checkpoint E i success) R (\<lambda>_ _. True)"
  unfolding finish_checkpoint_def
  by (rule jt_pre, (rule job_wp)+) (auto intro: settled_ok completion_outcome_ok)

subsection \<open>Alerts\<close>

lemma job_ok_waiting:
  assumes "job_ok a i j m" and "final_status j = None" and "\<not> completion_checkpoint j" and "\<not> stopped j"
  shows "job_ok a i (begin_waiting (j\<lparr>completion_waiting := True\<rparr>)) m"
  using assms by (cases "may_start (j\<lparr>completion_waiting := True\<rparr>)")
    (auto simp: job_ok_def job_inv_def begin_waiting_def may_start_def begun_def barrier_defs)

lemma job_ok_flushed:
  assumes "job_ok a i j m" and "barrier_cache_flushed (cp_barrier (checkpoint j)) = (acc, b)"
  shows "job_ok a i (j\<lparr>checkpoint := (checkpoint j)\<lparr>cp_barrier := b\<rparr>\<rparr>) m"
  using assms by (auto simp: job_ok_def job_inv_def barrier_defs split: if_splits)

lemma job_ok_saved:
  assumes "job_ok a i j m" and "barrier_resume_saved (cp_barrier (checkpoint j)) = (acc, b)"
  shows "acc \<Longrightarrow> settling a i (j\<lparr>checkpoint := (checkpoint j)\<lparr>cp_barrier := b, cp_data := bytes\<rparr>\<rparr>) m"
    and "\<not> acc \<Longrightarrow> job_ok a i (j\<lparr>checkpoint := (checkpoint j)\<lparr>cp_barrier := b\<rparr>\<rparr>) m"
  using assms by (auto simp: barrier_defs split: if_splits intro!: settling_start job_ok_same)

lemma job_ok_save_failed:
  assumes "job_ok a i j m" and "barrier_fail (cp_barrier (checkpoint j)) = (acc, b)"
  shows "acc \<Longrightarrow> settling a i (j\<lparr>checkpoint := (checkpoint j)\<lparr>cp_barrier := b\<rparr>\<rparr>) m"
    and "\<not> acc \<Longrightarrow> job_ok a i (j\<lparr>checkpoint := (checkpoint j)\<lparr>cp_barrier := b\<rparr>\<rparr>) m"
  using assms by (auto simp: barrier_fail_def split: if_splits intro!: settling_start job_ok_same)

lemma jt_on_metadata_received:
  "lawful E \<Longrightarrow> job_triple i (job_ok a i) (on_metadata_received E i) (\<lambda>_. job_ok a i) (\<lambda>_ _. True)"
  unfolding on_metadata_received_def
  by (rule jt_pre, (rule job_wp | assumption)+) (auto elim!: job_ok_post simp: reselected_simps)

lemma jt_on_torrent_finished:
  "job_triple i (job_ok a i) (on_torrent_finished E i) (\<lambda>_. job_ok a i) (\<lambda>_ _. True)"
  unfolding on_torrent_finished_def
  by (rule jt_pre, (rule job_wp)+) (auto intro: job_ok_waiting)

lemma jt_on_cache_flushed:
  "job_triple i (job_ok a i) (on_cache_flushed E i) (\<lambda>_. job_ok a i) (\<lambda>_ _. True)"
  unfolding on_cache_flushed_def
  by (rule jt_pre, (rule job_wp)+) (auto intro: job_ok_flushed)

lemma jt_on_resume_saved:
  "job_triple i (job_ok a i) (on_resume_saved E i params) (\<lambda>_. job_ok a i) (\<lambda>_ _. True)"
  unfolding on_resume_saved_def
  by (rule jt_pre, (rule job_wp jt_finish_checkpoint)+) (auto intro: job_ok_saved)

lemma jt_on_resume_failed:
  "job_triple i (job_ok a i) (on_resume_failed E i) (\<lambda>_. job_ok a i) (\<lambda>_ _. True)"
  unfolding on_resume_failed_def
  by (rule jt_pre, (rule job_wp jt_finish_checkpoint)+) (auto intro: job_ok_save_failed)

lemma jt_on_engine_error:
  "job_triple i (job_ok a i) (on_engine_error E i) (\<lambda>_. job_ok a i) (\<lambda>_ _. True)"
  unfolding on_engine_error_def
  by (rule jt_pre, (rule job_wp)+) (auto elim!: job_ok_post)

lemma jt_on_state_changed:
  "job_triple i (job_ok a i) (on_state_changed E i) (\<lambda>_. job_ok a i) (\<lambda>_ _. True)"
  unfolding on_state_changed_def
  by (rule jt_pre, (rule job_wp)+) (auto elim: job_ok_flag)

lemmas jt_alerts = jt_on_metadata_received jt_on_torrent_finished jt_on_cache_flushed jt_on_resume_saved
  jt_on_resume_failed jt_on_engine_error jt_on_state_changed

lemma id_for_Some: "id_for ks h w = Some i \<Longrightarrow> \<exists>v. session_job w i = Some v \<and> handle v = h"
  by (induction ks) (auto split: option.splits if_splits)

lemma jt_dispatch:
  assumes "lawful E"
  shows "job_triple i (job_ok a i) (dispatch_alert E i alert) (\<lambda>_. job_ok a i) (\<lambda>_ _. True)"
  by (cases alert) (simp_all add: dispatch_alert_def jt_alerts assms jt_return [where R = "\<lambda>_. job_ok a i"])

lemma jt_alert_body:
  assumes "lawful E"
  shows "job_triple i (job_ok a i)
    (bind (the_job i) (\<lambda>value. bind (engine_call (lt_is_valid E (handle value))) (\<lambda>valid.
       if \<not> valid then return () else dispatch_alert E i alert))) (\<lambda>_. job_ok a i) (\<lambda>_ _. True)"
  by (rule jt_pre, (rule job_wp jt_dispatch [OF assms])+) simp

lemma hoare_handle_alert:
  assumes "lawful E"
  shows "hoare (session_inv W) (handle_alert E ks alert) (\<lambda>_. session_inv W) (\<lambda>_. True)"
proof (cases "alert_handle alert")
  case None
  then show ?thesis unfolding handle_alert_def by (simp add: hoare_return [where R = "\<lambda>_. session_inv W"])
next
  case (Some h)
  show ?thesis
    unfolding handle_alert_def Some option.case
    by (rule hoare_pre, rule hoare_bind, rule hoare_case_option, rule hoare_return,
        rule job_triple_hoare [OF jt_alert_body [OF assms]], rule TrueI, rule hoare_gets)
      (auto dest: id_for_Some)
qed

lemma hoare_alerts:
  assumes "lawful E"
  shows "hoare (session_inv W) (for_each batch (handle_alert E ks)) (\<lambda>_. session_inv W) (\<lambda>_. True)"
  by (rule hoare_for_each) (rule hoare_handle_alert [OF assms])

section \<open>Properties of the alert thread\<close>

text \<open>
  the alert thread keeps the session consistent. Whatever batch of alerts the engine delivers, in
  whatever order and for whatever torrents, and whatever the engine answers in between, a turn of the
  loop either returns with the session invariant intact (the mailbox knows exactly the torrents of the
  session, completion and checkpoints do not overlap, completion was announced exactly for the
  torrents that have a final status), or ends the process by an uncaught exception or a failed
  assertion. It never dereferences a missing job or writes outside a vector.
\<close>

theorem alert_batch_preserves:
  assumes "lawful E" and "session_inv W w"
  shows "case alert_batch E ks batch w of
      (Ret again, w') \<Rightarrow> session_inv W w' \<and> (again \<longleftrightarrow> \<not> shutting_down w)
    | (Throw e, w') \<Rightarrow> False
    | (Crash c, w') \<Rightarrow> c \<noteq> Undefined_behaviour"
  using hoare_alerts [OF assms(1), of W batch ks] assms(2)
  by (auto simp: alert_batch_def hoare_def split: prod.splits outcome.splits)

theorem alert_batch_preserves_witness:
  "case alert_batch sample_env [''t''] [State_changed 1, Torrent_finished 1] sample_session of
      (Ret again, w') \<Rightarrow> session_inv {} w' \<and> again
    | (Throw e, w') \<Rightarrow> False
    | (Crash c, w') \<Rightarrow> c \<noteq> Undefined_behaviour"
  using alert_batch_preserves [OF sample_lawful sample_session_inv, of "[''t'']" "[State_changed 1, Torrent_finished 1]"]
  by (simp add: sample_session_def new_session_def split: prod.splits outcome.splits)

text \<open>
  torrents do not interfere. Handling an alert leaves every torrent that does not have the alert's
  handle as it was: its job and its queued events. The shutdown flag and the wake-up generation are
  untouched.
\<close>

theorem alert_isolated:
  assumes "lawful E" and "session_inv W w" and "handle_alert E ks alert w = (Ret (), w')"
    and "\<And>v. session_job w k = Some v \<Longrightarrow> alert_handle alert \<noteq> Some (handle v)"
  shows "session_job w' k = session_job w k \<and> queue_of k (events w') = queue_of k (events w)
    \<and> shutting_down w' = shutting_down w \<and> wake_generation w' = wake_generation w"
proof (cases "\<exists>h i. alert_handle alert = Some h \<and> id_for ks h w = Some i")
  case False
  with assms(3) have "w' = w"
    by (auto simp: handle_alert_def prog_defs split: option.splits)
  then show ?thesis by simp
next
  case True
  then obtain h i where h: "alert_handle alert = Some h" "id_for ks h w = Some i" by blast
  from id_for_Some [OF h(2)] obtain v where v: "session_job w i = Some v" "handle v = h" by blast
  from assms(3) h have run: "bind (the_job i) (\<lambda>value. bind (engine_call (lt_is_valid E (handle value))) (\<lambda>valid.
       if \<not> valid then return () else dispatch_alert E i alert)) w = (Ret (), w')"
    by (simp add: handle_alert_def bind_gets)
  have "others i w w'"
    using job_triple_run [OF jt_alert_body [OF assms(1)] assms(2) v(1), where alert1 = alert] run by (simp add: focus_def)
  moreover have "k \<noteq> i" using assms(4) h(1) v by auto
  ultimately show ?thesis by (simp add: others_def queue_of_def)
qed

theorem alert_isolated_witness:
  "\<exists>w'. handle_alert sample_env [''t''] (State_changed 1) sample_session = (Ret (), w')
     \<and> session_job w' ''u'' = None \<and> wake_generation w' = 0"
proof -
  obtain w' where "handle_alert sample_env [''t''] (State_changed 1) sample_session = (Ret (), w')"
    by (simp add: handle_alert_def dispatch_alert_def on_state_changed_def prog_defs mailbox_call_def
        mailbox_status_def mailbox_add_def empty_mailbox_def new_Job_def notify_all_def the_job_def
        engine_call_def sample_session_def sample_job_def new_job_def Let_def)
  then show ?thesis
    using alert_isolated [OF sample_lawful sample_session_inv, of "[''t'']" "State_changed 1" w' "''u''"]
    by (simp add: sample_session_def new_session_def)
qed

section \<open>Properties of completion\<close>

lemma jt_finish_checkpoint_completion:
  "job_triple i (\<lambda>v m0. completion_checkpoint v \<and> (\<forall>j m. completion_outcome E i
       (success \<and> cp_error (checkpoint v) = LTKIT_OK) v m0 j m \<longrightarrow> R () j m))
     (finish_checkpoint E i success) R (\<lambda>_ _. True)"
  unfolding finish_checkpoint_def by (rule jt_pre, (rule job_wp)+) auto

text \<open>The job after an accepted reply, as \<open>finish_checkpoint\<close> finds it.\<close>

definition replied :: "Phase \<Rightarrow> string \<Rightarrow> 'h job \<Rightarrow> 'h job" where
  "replied phase bytes v = v\<lparr>checkpoint := (checkpoint v)\<lparr>cp_barrier := phase, cp_data := bytes\<rparr>\<rparr>"

lemma jt_resume_saved_completion:
  "job_triple i (\<lambda>j m. j = v \<and> m = m0 \<and> completion_checkpoint v \<and> cp_barrier (checkpoint v) = Saving)
     (on_resume_saved E i params)
     (\<lambda>_ j m. \<exists>bytes e e'. lt_write_resume_data_buf E params e = (Inr bytes, e')
        \<and> completion_outcome E i (cp_error (checkpoint v) = LTKIT_OK) (replied Succeeded bytes v) m0 j m)
     (\<lambda>_ _. True)"
  unfolding on_resume_saved_def
  by (rule jt_pre, (rule job_wp jt_finish_checkpoint_completion)+)
    (auto simp: barrier_resume_saved_def replied_def)

lemma jt_resume_failed_completion:
  "job_triple i (\<lambda>j m. j = v \<and> m = m0 \<and> completion_checkpoint v \<and> barrier_pending (cp_barrier (checkpoint v)))
     (on_resume_failed E i)
     (\<lambda>_ j m. completion_outcome E i False (replied Failed (cp_data (checkpoint v)) v) m0 j m)
     (\<lambda>_ _. True)"
  unfolding on_resume_failed_def
  by (rule jt_pre, (rule job_wp jt_finish_checkpoint_completion)+)
    (auto simp: barrier_fail_def replied_def)

lemma replied_simps [simp]:
  "verified E (replied phase bytes v) ps = verified E v ps"
  "completion_rechecked (replied phase bytes v) = completion_rechecked v"
  "completion_checkpoint (replied phase bytes v) = completion_checkpoint v"
  "final_status (replied phase bytes v) = final_status v"
  "cp_data (checkpoint (replied phase bytes v)) = bytes"
  by (simp_all add: replied_def verified_def)

lemma restartedD:
  assumes "restarted v m j m'"
  shows "\<not> completion_rechecked v" "completion_rechecked j" "completion_checkpoint j = completion_checkpoint v"
    "cp_barrier (checkpoint j) = Flushing" "m' = m" "stopped j = stopped v"
  using assms by (auto simp: restarted_def begun_def new_checkpoint_def barrier_begin_def)

lemma publishedD:
  assumes "published E i v m j m'" and "\<not> flag m i K_completed" and "\<not> flag m i K_stopped"
  obtains status where "final_status j = Some status" "verified E v (final_payloads j)" "final_metadata j \<noteq> []"
    "final_resume_data j = cp_data (checkpoint v)" "stopped j" "\<not> completion_checkpoint j"
    "checkpoint j = new_checkpoint" "queue_of i m' = queue_of i m @ [completed_event i status, stopped_event i]"
proof -
  from assms(1) obtain ps md status m1 where j: "verified E v ps" "md \<noteq> []" "j = v\<lparr>final_payloads := ps,
      final_metadata := md, final_status := Some status, final_resume_data := cp_data (checkpoint v),
      completion_checkpoint := False, stopped := True, checkpoint := new_checkpoint\<rparr>"
    and run: "mailbox_inv m" "critical (asserts E) i K_completed (completed_event i status) m = (Ret (), m1)"
      "mailbox_inv m1" "critical (asserts E) i K_stopped (stopped_event i) m1 = (Ret (), m')"
    unfolding published_def by blast
  have "\<not> flag m1 i K_stopped" using critical_flag [OF run(1,2), of K_stopped] assms(3) by simp
  with critical_one_shot [OF run(1,2)] critical_one_shot [OF run(3,4)] assms(2)
  have "queue_of i m' = queue_of i m @ [completed_event i status, stopped_event i]" by simp
  with j show ?thesis by (intro that) simp_all
qed

lemma failedD:
  assumes "failed E i reasons v m j m'"
  shows "\<exists>reason\<in>reasons. critical (asserts E) i K_error (completion_error_event i reason) m = (Ret (), m')"
    "stopped j" "\<not> completion_checkpoint j" "checkpoint j = new_checkpoint" "final_status j = final_status v"
  using assms by (auto simp: failed_def)

lemma completing_fresh:
  assumes "session_inv W w" and "session_job w i = Some v" and "completion_checkpoint v"
  shows "final_status v = None" "\<not> flag (events w) i K_completed" "\<not> flag (events w) i K_stopped"
  using assms by (auto simp: session_inv_def job_ok_def job_inv_def)

lemma resume_saved_outcome:
  assumes "session_inv W w" and "session_job w i = Some v" and "completion_checkpoint v"
    and "cp_barrier (checkpoint v) = Saving" and "on_resume_saved E i params w = (Ret (), w')"
  obtains j bytes e e' where "session_job w' i = Some j" "lt_write_resume_data_buf E params e = (Inr bytes, e')"
    "completion_outcome E i (cp_error (checkpoint v) = LTKIT_OK) (replied Succeeded bytes v) (events w) j (events w')"
  using job_triple_run [OF jt_resume_saved_completion [of i v "events w" E params] assms(1,2)] assms(3-5) that
  by (auto simp: focus_def)

lemma resume_failed_outcome:
  assumes "session_inv W w" and "session_job w i = Some v" and "completion_checkpoint v"
    and "barrier_pending (cp_barrier (checkpoint v))" and "on_resume_failed E i w = (Ret (), w')"
  obtains j where "session_job w' i = Some j"
    "completion_outcome E i False (replied Failed (cp_data (checkpoint v)) v) (events w) j (events w')"
  using job_triple_run [OF jt_resume_failed_completion [of i v "events w" E] assms(1,2)] assms(3-5) that
  by (auto simp: focus_def)


text \<open>A session whose torrent waits for the resume data of its completion checkpoint.\<close>

definition sample_completing :: "(nat, sample_os) ltkit_session" where
  "sample_completing = sample_session\<lparr>jobs := [(''t'', sample_job
     \<lparr>completion_checkpoint := True, checkpoint := new_checkpoint\<lparr>cp_barrier := Saving\<rparr>\<rparr>)]\<rparr>"

lemma sample_completing_inv: "session_inv {} sample_completing"
  using sample_session_inv
  by (auto simp: sample_completing_def session_inv_def admitted_def sample_session_def job_ok_def job_inv_def
      barrier_pending_def sample_job_def new_job_def new_checkpoint_def split: if_splits)

lemma sample_completing_job:
  "session_job sample_completing ''t'' = Some (sample_job
     \<lparr>completion_checkpoint := True, checkpoint := new_checkpoint\<lparr>cp_barrier := Saving\<rparr>\<rparr>)"
  by (simp add: sample_completing_def)

lemma sample_completing_run:
  "\<exists>w' j. on_resume_saved sample_env ''t'' ''r'' sample_completing = (Ret (), w') \<and> session_job w' ''t'' = Some j
     \<and> final_status j = Some sample_status \<and> \<not> completion_checkpoint j"
proof -
  obtain md where md: "metadata_document sample_env sample_info [4, 0] [5, 0] = Some md" "md \<noteq> []"
    using sample_metadata by blast
  show ?thesis
    by (simp add: on_resume_saved_def finish_checkpoint_def finish_completion_def refresh_selected_payloads_def
        cache_final_metadata_def metadata_json_def conclude_completion_def enqueue_def notify_all_def
        mailbox_call_def critical_def push_critical_def mailbox_add_def empty_mailbox_def new_Job_def
        prog_defs set_job_def the_job_def engine_call_def system_call_def Let_def md
        sample_completing_def sample_session_def sample_job_def new_job_def new_checkpoint_def
        barrier_resume_saved_def new_session_def sample_disk_def sample_posix_def
        sync_selected_payloads_def sync_one_def max_critical_entries_def code_defs)
qed


text \<open>
  C17: completion terminates. A failed reply always ends the completion, and once the second disk fence
  was requested so does a successful one: the torrent is stopped and no checkpoint is left. With
  \<open>completion_settles\<close> this bounds a completion to two disk fences.
\<close>

theorem completion_two_fences:
  assumes "session_inv W w" and "session_job w i = Some v" and "completion_checkpoint v"
    and "if saved then cp_barrier (checkpoint v) = Saving \<and> completion_rechecked v
         else barrier_pending (cp_barrier (checkpoint v))"
    and "(if saved then on_resume_saved E i params else on_resume_failed E i) w = (Ret (), w')"
  shows "\<exists>j. session_job w' i = Some j \<and> stopped j \<and> \<not> completion_checkpoint j \<and> checkpoint j = new_checkpoint"
proof -
  have conclude: ?thesis
    if "session_job w' i = Some j" "completion_rechecked u \<or> \<not> success"
      "completion_outcome E i success u (events w) j (events w')" for j u success
    using that by (auto simp: completion_outcome_def published_def split: if_splits dest: restartedD(1) failedD(2-4))
  show ?thesis
  proof (cases saved)
    case True
    with assms have pre: "cp_barrier (checkpoint v) = Saving" "on_resume_saved E i params w = (Ret (), w')"
      "completion_rechecked v" by auto
    from resume_saved_outcome [OF assms(1-3) pre(1,2)] conclude pre(3) show ?thesis
      by (metis replied_simps(2))
  next
    case False
    with assms have pre: "barrier_pending (cp_barrier (checkpoint v))" "on_resume_failed E i w = (Ret (), w')" by auto
    from resume_failed_outcome [OF assms(1-3) pre] conclude show ?thesis by metis
  qed
qed

theorem completion_two_fences_witness:
  "\<exists>w' j. on_resume_failed sample_env ''t'' sample_completing = (Ret (), w') \<and> session_job w' ''t'' = Some j
     \<and> stopped j \<and> checkpoint j = new_checkpoint"
proof -
  obtain w' where run: "on_resume_failed sample_env ''t'' sample_completing = (Ret (), w')"
    by (simp add: on_resume_failed_def finish_checkpoint_def finish_completion_def conclude_completion_def
        enqueue_def notify_all_def mailbox_call_def critical_def push_critical_def mailbox_add_def
        empty_mailbox_def new_Job_def prog_defs set_job_def the_job_def engine_call_def Let_def
        sample_completing_def sample_session_def sample_job_def new_job_def new_checkpoint_def
        barrier_defs new_session_def)
  then show ?thesis
    using completion_two_fences [OF sample_completing_inv sample_completing_job, of False sample_env _ w']
    by (auto simp: barrier_pending_def)
qed

lemma collect_payloads_accepts:
  "collect_payloads info save progress ks acc = (True, ps) \<Longrightarrow>
   (\<forall>k\<in>set ks. 0 \<le> k \<and> k < ti_num_files info \<and> (ti_pad_file info k \<or>
      (\<exists>path. safe_relative_path (ti_file_absolute info k) (ti_file_path info k) = Some path
         \<and> ti_file_size info k \<le> progress ! nat k
         \<and> \<lparr>payload_path = path_append save path, payload_size = ti_file_size info k\<rparr> \<in> set ps)))
   \<and> set acc \<subseteq> set ps"
proof (induction ks arbitrary: acc)
  case (Cons k ks)
  then show ?case by (fastforce split: if_splits option.splits)
qed simp

lemma verifiedD:
  assumes "verified E v ps" and "posix_laws (env_posix E) fdtab attrs opened"
  shows "\<exists>info status progress s. ps \<noteq> [] \<and> (\<exists>e e'. lt_torrent_file E (handle v) e = (Inr (Some info), e'))
    \<and> (\<exists>e e'. lt_status E (handle v) e = (Inr status, e')) \<and> (\<exists>e e'. lt_file_progress E (handle v) e = (Inr progress, e'))
    \<and> (\<forall>k\<in>set (desired_files v). 0 \<le> k \<and> k < ti_num_files info \<and> (ti_pad_file info k \<or>
       (\<exists>path. safe_relative_path (ti_file_absolute info k) (ti_file_path info k) = Some path
          \<and> ti_file_size info k \<le> progress ! nat k
          \<and> payload_present (attrs s)
              \<lparr>payload_path = path_append (save_path status) path, payload_size = ti_file_size info k\<rparr>)))"
proof -
  from assms(1) obtain info status progress e1 e1' e2 e2' e3 e3' s s' where
      engine: "lt_torrent_file E (handle v) e1 = (Inr (Some info), e1')" "lt_status E (handle v) e2 = (Inr status, e2')"
        "lt_file_progress E (handle v) e3 = (Inr progress, e3')"
      and collect: "collect_payloads info (save_path status) progress (desired_files v) [] = (True, ps)"
      and sync: "sync_selected_payloads (env_posix E) ps s = (True, s')"
    unfolding verified_def by blast
  from sync sync_loop_laws [OF assms(2)] have disk: "ps \<noteq> []" "\<forall>p\<in>set ps. payload_present (attrs s) p"
    by (auto simp: sync_selected_payloads_def split: if_splits)
  show ?thesis
    by (intro exI [of _ info] exI [of _ status] exI [of _ progress] exI [of _ s])
      (use engine disk collect_payloads_accepts [OF collect] in blast)
qed

text \<open>
  no torrent is announced as completed without its files. On a system that obeys POSIX, a final
  status is published only if every desired file exists in the layout, is complete according to the
  engine, and, unless it is padding, was found on disk under the save path at the end of the
  completion checkpoint: a regular file of at least its recorded size. At least one such file exists.
\<close>

theorem completed_files_on_disk:
  assumes "posix_laws (env_posix E) fdtab attrs opened" and "session_inv W w" and "session_job w i = Some v"
    and "completion_checkpoint v" and "cp_barrier (checkpoint v) = Saving"
    and "on_resume_saved E i params w = (Ret (), w')"
    and "session_job w' i = Some j" and "final_status j \<noteq> None"
  shows "\<exists>info status progress s. final_payloads j \<noteq> []
    \<and> (\<exists>e e'. lt_torrent_file E (handle v) e = (Inr (Some info), e'))
    \<and> (\<exists>e e'. lt_status E (handle v) e = (Inr status, e')) \<and> (\<exists>e e'. lt_file_progress E (handle v) e = (Inr progress, e'))
    \<and> (\<forall>k\<in>set (desired_files v). 0 \<le> k \<and> k < ti_num_files info \<and> (ti_pad_file info k \<or>
       (\<exists>path. safe_relative_path (ti_file_absolute info k) (ti_file_path info k) = Some path
          \<and> ti_file_size info k \<le> progress ! nat k
          \<and> payload_present (attrs s)
              \<lparr>payload_path = path_append (save_path status) path, payload_size = ti_file_size info k\<rparr>)))"
proof -
  note fresh = completing_fresh [OF assms(2-4)]
  obtain bytes where
    out: "completion_outcome E i (cp_error (checkpoint v) = LTKIT_OK) (replied Succeeded bytes v) (events w) j (events w')"
    using resume_saved_outcome [OF assms(2-6)] assms(7) by (metis option.inject)
  have "final_status j = None" if "restarted (replied Succeeded bytes v) (events w) j (events w')"
    using that fresh(1) by (auto simp: restarted_def begun_def)
  with out assms(8) fresh(1) have "published E i (replied Succeeded bytes v) (events w) j (events w')"
    by (auto simp: completion_outcome_def split: if_splits dest: failedD(5))
  then have "verified E v (final_payloads j)" by (rule publishedD [OF _ fresh(2,3)]) simp
  from verifiedD [OF this assms(1)] show ?thesis .
qed

theorem completed_files_on_disk_witness:
  "\<exists>w' j (s :: sample_os). on_resume_saved sample_env ''t'' ''r'' sample_completing = (Ret (), w') \<and> session_job w' ''t'' = Some j
     \<and> final_payloads j \<noteq> []
     \<and> payload_present (map_of (os_files s)) \<lparr>payload_path = ''/d/a'', payload_size = 5\<rparr>"
proof -
  obtain w' j where run: "on_resume_saved sample_env ''t'' ''r'' sample_completing = (Ret (), w')"
    and j: "session_job w' ''t'' = Some j" "final_status j = Some sample_status"
    using sample_completing_run by blast
  have laws: "posix_laws (env_posix sample_env) os_fds (\<lambda>s. map_of (os_files s)) os_opened"
    using sample_posix_laws by simp
  show ?thesis
    using completed_files_on_disk [OF laws sample_completing_inv sample_completing_job _ _ run j(1)] j run
    by (auto simp: sample_job_def)
qed

end
