(* ===== verification/API_Correct.thy ===== *)
theory API_Correct
  imports Session_API Completion_Correct
begin

text \<open>
  Correctness of the C interface: every call keeps the session invariant whatever libtorrent, the file
  system and the allocator answer, no exception leaves it, and none reaches undefined behaviour.
\<close>

section \<open>Rules for whole calls\<close>

lemma session_inv_irrelevant [simp]:
  "session_inv W (w\<lparr>engine := e\<rparr>) = session_inv W w"
  "session_inv W (w\<lparr>last_error := s\<rparr>) = session_inv W w"
  "session_inv W (w\<lparr>notified := n\<rparr>) = session_inv W w"
  "session_inv W (w\<lparr>wake_generation := g\<rparr>) = session_inv W w"
  "session_inv W (w\<lparr>shutting_down := b\<rparr>) = session_inv W w"
  by (simp_all add: session_inv_def admitted_def)

lemma hoare_fail_inv [wp]: "hoare (\<lambda>w. session_inv W w) (fail code msg) (\<lambda>_. session_inv W) X"
  by (simp add: hoare_def fail_def set_error_def prog_defs)

lemma hoare_fail_with_inv [wp]: "hoare (\<lambda>w. session_inv W w) (fail_with code msg) (\<lambda>_. session_inv W) X"
  by (simp add: hoare_def fail_with_def fail_def set_error_def prog_defs)

lemma hoare_fail_inv_conj:
  "hoare (\<lambda>w. session_inv W w \<and> Q w) (fail code msg) (\<lambda>_. session_inv W) X"
  "hoare (\<lambda>w. session_inv W w \<and> Q w) (fail_with code msg) (\<lambda>_. session_inv W) X"
  by (rule hoare_pre [OF hoare_fail_inv], simp) (rule hoare_pre [OF hoare_fail_with_inv], simp)

lemma hoare_guarded:
  fixes p :: "('h, 'e, int) session_prog"
  assumes "hoare (session_inv W) p (\<lambda>_. session_inv W) (session_inv W)"
  shows "hoare (session_inv W) (guarded p) (\<lambda>_. session_inv W) X"
  unfolding hoare_def
proof (intro allI impI)
  fix w :: "('h, 'e) ltkit_session" assume w: "session_inv W w"
  obtain r w' where run: "p w = (r, w')" by fastforce
  with w assms have "case r of Crash c \<Rightarrow> c \<noteq> Undefined_behaviour | _ \<Rightarrow> session_inv W w'"
    by (auto simp: hoare_def split: outcome.splits)
  with run show "case guarded p w of (Ret x, w') \<Rightarrow> session_inv W w' | (Throw e, w') \<Rightarrow> X w'
      | (Crash c, w') \<Rightarrow> c \<noteq> Undefined_behaviour"
    by (auto simp: guarded_def fail_def set_error_def prog_defs split: outcome.splits exn.splits)
qed

lemma hoare_guarded_with:
  fixes p :: "('h, 'e, 'a) session_prog"
  assumes "hoare (session_inv W) p (\<lambda>_. session_inv W) (session_inv W)"
  shows "hoare (session_inv W) (guarded_with written p) (\<lambda>_. session_inv W) X"
  unfolding hoare_def
proof (intro allI impI)
  fix w :: "('h, 'e) ltkit_session" assume w: "session_inv W w"
  obtain r w' where run: "p w = (r, w')" by fastforce
  with w assms have "case r of Crash c \<Rightarrow> c \<noteq> Undefined_behaviour | _ \<Rightarrow> session_inv W w'"
    by (auto simp: hoare_def split: outcome.splits)
  with run show "case guarded_with written p w of (Ret x, w') \<Rightarrow> session_inv W w' | (Throw e, w') \<Rightarrow> X w'
      | (Crash c, w') \<Rightarrow> c \<noteq> Undefined_behaviour"
    by (auto simp: guarded_with_def guarded_def fail_def set_error_def prog_defs split: outcome.splits exn.splits)
qed

text \<open>A call that looks up a job and then works on it.\<close>

lemma hoare_job_focus:
  assumes "job_triple i (\<lambda>j m. j = v \<and> job_ok (i \<in> W) i j m) (p :: ('h, 'e, 'a) session_prog) R' X'"
    and "\<And>x w0 w. session_inv W w0 \<Longrightarrow> focus i w0 (R' x) w \<Longrightarrow> R x w"
    and "\<And>w0 w. session_inv W w0 \<Longrightarrow> focus i w0 X' w \<Longrightarrow> X w"
  shows "hoare (\<lambda>w. session_inv W w \<and> session_job w i = Some v) p R X"
  unfolding hoare_def
proof (intro allI impI, elim conjE)
  fix w :: "('h, 'e) ltkit_session" assume w: "session_inv W w" "session_job w i = Some v"
  show "case p w of (Ret x, w') \<Rightarrow> R x w' | (Throw e, w') \<Rightarrow> X w' | (Crash c, w') \<Rightarrow> c \<noteq> Undefined_behaviour"
    using job_triple_run [OF assms(1) w] assms(2,3) w(1) by (auto split: prod.splits outcome.splits)
qed

lemma hoare_job:
  assumes "\<And>a. job_triple i (job_ok a i) p (\<lambda>_. job_ok a i) (job_ok a i)"
  shows "hoare (\<lambda>w. session_inv W w \<and> session_job w i = Some v) p (\<lambda>_. session_inv W) (session_inv W)"
  by (rule hoare_job_focus [OF jt_pre [OF assms]]) (auto intro: focus_session_inv_same)

lemma hoare_find_job:
  fixes f :: "'h job option \<Rightarrow> ('h, 'e, 'a) session_prog"
  assumes "hoare (session_inv W) (f None) R X"
    and "\<And>i v. identifier = Some i \<Longrightarrow>
      hoare (\<lambda>w. session_inv W w \<and> session_job w i = Some v) (f (Some v)) R X"
  shows "hoare (session_inv W) (bind (find_job identifier) f) R X"
  unfolding hoare_def
proof (intro allI impI)
  fix w :: "('h, 'e) ltkit_session" assume w: "session_inv W w"
  let ?found = "case identifier of None \<Rightarrow> None | Some i \<Rightarrow> session_job w i"
  have run: "bind (find_job identifier) f w = f ?found w" by (simp add: find_job_def bind_gets)
  show "case bind (find_job identifier) f w of (Ret x, w') \<Rightarrow> R x w' | (Throw e, w') \<Rightarrow> X w'
      | (Crash c, w') \<Rightarrow> c \<noteq> Undefined_behaviour"
  proof (cases ?found)
    case None
    with run w assms(1) show ?thesis by (simp add: hoare_def)
  next
    case (Some v)
    then obtain i where i: "identifier = Some i" "session_job w i = Some v" by (auto split: option.splits)
    with run Some w assms(2) [OF i(1), of v] show ?thesis by (simp add: hoare_def)
  qed
qed

lemma hoare_find:
  assumes "hoare (session_inv W) (f None) R X"
    and "\<And>v. hoare (\<lambda>w. session_inv W w \<and> session_job w i = Some v) (f (Some v)) R X"
  shows "hoare (session_inv W) (bind (find_job (Some i)) f) R X"
proof (rule hoare_find_job)
  fix i' v assume "Some i = Some i'"
  with assms(2) [of v] show "hoare (\<lambda>w. session_inv W w \<and> session_job w i' = Some v) (f (Some v)) R X" by simp
qed (rule assms(1))

lemma hoare_find_waiting:
  fixes f :: "'h job option \<Rightarrow> ('h, 'e, 'a) session_prog"
  assumes "i \<in> W" and "\<And>v. hoare (\<lambda>w. session_inv W w \<and> session_job w i = Some v) (f (Some v)) R X"
  shows "hoare (session_inv W) (bind (find_job (Some i)) f) R X"
  unfolding hoare_def
proof (intro allI impI)
  fix w :: "('h, 'e) ltkit_session" assume w: "session_inv W w"
  with assms(1) obtain v where v: "session_job w i = Some v" unfolding session_inv_def by blast
  with w assms(2) [of v]
  show "case bind (find_job (Some i)) f w of (Ret x, w') \<Rightarrow> R x w' | (Throw e, w') \<Rightarrow> X w'
      | (Crash c, w') \<Rightarrow> c \<noteq> Undefined_behaviour"
    by (simp add: find_job_def bind_gets hoare_def)
qed

lemma hoare_find_some:
  assumes "hoare (session_inv W) (f None) (\<lambda>_. session_inv W) (session_inv W)"
    and "\<And>v a. job_triple i (job_ok a i) (f (Some v)) (\<lambda>_. job_ok a i) (job_ok a i)"
  shows "hoare (session_inv W) (bind (find_job (Some i)) f) (\<lambda>_. session_inv W) (session_inv W)"
  by (rule hoare_find, rule assms(1), rule hoare_job, rule assms(2))

lemma hoare_active_job:
  assumes "\<And>i v a. job_triple i (job_ok a i) (body i v) (\<lambda>_. job_ok a i) (job_ok a i)"
  shows "hoare (session_inv W) (with_active_job identifier body) (\<lambda>_. session_inv W) (session_inv W)"
  unfolding with_active_job_def
  by (rule hoare_find_job)
     (simp_all add: hoare_fail_inv hoare_job [OF assms] hoare_fail_inv_conj)

lemma hoare_active_out:
  assumes "\<And>i v a. job_triple i (job_ok a i) (body i v) (\<lambda>_. job_ok a i) (job_ok a i)"
  shows "hoare (session_inv W) (with_active_out identifier body) (\<lambda>_. session_inv W) (session_inv W)"
  unfolding with_active_out_def
  by (rule hoare_find_job)
     (simp_all add: hoare_fail_with_inv hoare_job [OF assms] hoare_fail_inv_conj)

lemma jt_fail_with [job_wp]: "job_triple i (R (code, None)) (fail_with code msg) R X"
  unfolding fail_with_def by (rule jt_pre, (rule job_wp)+)

lemma jt_respond [job_wp]: "job_triple i (\<lambda>j m. \<forall>r. R r j m) (respond E source msg) R X"
  unfolding respond_def by (rule jt_pre, (rule job_wp)+) auto

lemma jt_map_engine [job_wp]:
  "job_triple i (\<lambda>j m. X j m \<and> (\<forall>ys. length ys = length xs \<longrightarrow> R ys j m)) (map_each xs (\<lambda>x. engine_call (c x))) R X"
proof (induction xs arbitrary: R)
  case Nil
  show ?case unfolding map_each.simps by (rule jt_pre, rule jt_return) simp
next
  case (Cons x xs)
  show ?case
    unfolding map_each.simps
    by (rule jt_pre, rule jt_bind, rule jt_bind, rule jt_return, rule Cons.IH, rule jt_engine) auto
qed

text \<open>The two shapes of a call on an active torrent: reject bad arguments, then work on the job.\<close>

lemma command_ok:
  assumes "\<And>i v a. job_triple i (job_ok a i) (body i v) (\<lambda>_. job_ok a i) (job_ok a i)"
  shows "hoare (session_inv W) (if b then return code else guarded (with_active_job identifier body))
    (\<lambda>_. session_inv W) X"
  using hoare_guarded [OF hoare_active_job [OF assms]] by (simp add: hoare_return [where R = "\<lambda>_. session_inv W"])

lemma query_ok:
  assumes "\<And>i v a. job_triple i (job_ok a i) (body i v) (\<lambda>_. job_ok a i) (job_ok a i)"
  shows "hoare (session_inv W) (if b then return r else guarded_with written (with_active_out identifier body))
    (\<lambda>_. session_inv W) X"
  using hoare_guarded_with [OF hoare_active_out [OF assms]] by (simp add: hoare_return [where R = "\<lambda>_. session_inv W"])

section \<open>What a successful call returns\<close>

text \<open>The bytes of a response; the wrapper takes an absent buffer for empty data.\<close>

definition taken_data :: "ltkit_buffer option \<Rightarrow> string" where
  "taken_data out = (case out of None \<Rightarrow> [] | Some buffer \<Rightarrow> (case buffer_data buffer of None \<Rightarrow> [] | Some bytes \<Rightarrow> bytes))"

lemma guarded_with_OK:
  assumes "guarded_with written p w = (Ret r, w')" and "\<And>c. c \<noteq> LTKIT_OK \<Longrightarrow> written c \<noteq> r"
  shows "p w = (Ret r, w')"
  using assms
  by (auto simp: guarded_with_def guarded_def fail_def set_error_def prog_defs code_defs
      split: prod.splits outcome.splits exn.splits)

lemma respond_OK:
  assumes "respond E source msg w = (Ret (LTKIT_OK, out), w')"
  shows "taken_data out = source"
  using assms
  by (auto simp: respond_def system_call_def copy_buffer_def empty_buffer_def taken_data_def fail_def set_error_def prog_defs
      code_defs Let_def split: prod.splits if_splits)

section \<open>The calls\<close>

lemma select_files_ok:
  assumes "lawful E"
  shows "hoare (session_inv W) (ltkit_session_select_files E session identifier indexes primary) (\<lambda>_. session_inv W) X"
  unfolding ltkit_session_select_files_def
  by (rule command_ok, rule jt_pre, (rule job_wp assms)+)
    (auto simp: reselected_simps)

lemma set_file_priority_ok:
  assumes "lawful E"
  shows "hoare (session_inv W) (ltkit_session_set_file_priority E session identifier k priority) (\<lambda>_. session_inv W) X"
  unfolding ltkit_session_set_file_priority_def
  by (rule command_ok, rule jt_pre, (rule job_wp assms)+)
    (auto simp: reselected_simps)

lemma set_piece_priority_ok:
  "hoare (session_inv W) (ltkit_session_set_piece_priority E session identifier k priority) (\<lambda>_. session_inv W) X"
  unfolding ltkit_session_set_piece_priority_def
  by (rule command_ok, rule jt_pre, (rule job_wp)+)
    (auto simp: reselected_simps)

lemma start_ok: "hoare (session_inv W) (ltkit_session_start E True identifier) (\<lambda>_. session_inv W) X"
  unfolding ltkit_session_start_def if_False not_True_eq_False
  by (rule hoare_guarded, rule hoare_active_job, rule jt_pre, (rule job_wp)+)
    auto

lemma pause_ok: "hoare (session_inv W) (ltkit_session_pause E True identifier) (\<lambda>_. session_inv W) X"
  unfolding ltkit_session_pause_def if_False not_True_eq_False
  by (rule hoare_guarded, rule hoare_active_job, rule jt_pre, (rule job_wp)+)
    auto

lemma clear_window_ok:
  assumes "lawful E"
  shows "hoare (session_inv W) (ltkit_session_clear_streaming_window E True identifier) (\<lambda>_. session_inv W) X"
  unfolding ltkit_session_clear_streaming_window_def if_False not_True_eq_False
  by (rule hoare_guarded, rule hoare_active_job, rule jt_pre, (rule job_wp assms)+)
    (auto simp: reselected_simps)

lemma pieces_ok: "hoare (session_inv W) (ltkit_session_pieces E session identifier output) (\<lambda>_. session_inv W) X"
  unfolding ltkit_session_pieces_def
  by (rule query_ok, rule jt_pre, (rule job_wp)+)
    auto

lemma status_ok: "hoare (session_inv W) (ltkit_session_status E session identifier output) (\<lambda>_. session_inv W) X"
  unfolding ltkit_session_status_def
  by (rule hoare_pre, rule hoare_if, rule hoare_return, rule hoare_guarded_with, rule hoare_find_job,
      simp add: hoare_fail_with_inv, unfold option.case, rule hoare_job, rule jt_pre, (rule job_wp)+) auto

lemma jt_collect_bits [job_wp]:
  assumes "\<forall>k\<in>set ks. nat k div 8 < length bits"
  shows "job_triple i (\<lambda>j m. X j m \<and> (\<forall>bits. R bits j m)) (collect_bits E h ks bits) R X"
  using assms
proof (induction ks arbitrary: bits)
  case Nil
  show ?case unfolding collect_bits.simps by (rule jt_pre, rule jt_return) simp
next
  case (Cons k ks)
  have len: "\<forall>k\<in>set ks. nat k div 8 < length bits" "\<forall>k\<in>set ks. nat k div 8 < length (set_piece_bit (nat k') bits)" for k'
    using Cons.prems by (simp_all add: set_piece_bit_def)
  show ?case
    unfolding collect_bits.simps
    by (rule jt_pre, rule jt_bind, rule jt_if, rule Cons.IH [OF len(1)], rule jt_if, rule jt_undefined,
        rule Cons.IH [OF len(2)], rule jt_engine) (use Cons.prems in auto)
qed

lemma jt_fail_then [job_wp]: "job_triple i (R (f code)) (bind (fail code msg) (\<lambda>c. return (f c))) R X"
  by (rule jt_pre, (rule jt_bind jt_return jt_fail)+) simp

lemma bitset_covers:
  "\<forall>k\<in>set [0..n - 1]. nat k div 8 < length (replicate (nat (n + 7) div 8) (0 :: 8 word))"
  by auto

lemma piece_completion_ok:
  assumes "lawful E"
  shows "hoare (session_inv W) (ltkit_session_piece_completion E session identifier count output) (\<lambda>_. session_inv W) X"
proof -
  have body: "hoare (session_inv W) (piece_completion_query E identifier) (\<lambda>_. session_inv W) (session_inv W)"
    unfolding piece_completion_query_def
    by (rule hoare_find_job, unfold option.case, rule hoare_bind, rule hoare_return, rule hoare_fail_inv,
        rule hoare_job, rule jt_pre, (rule job_wp bitset_covers)+) (auto dest: lawful_count [OF assms])
  show ?thesis
    unfolding ltkit_session_piece_completion_def
    by (rule hoare_pre, rule hoare_if, rule hoare_return, rule hoare_guarded_with, rule body) simp
qed

lemma hoare_fail_then [wp]:
  "hoare (session_inv W) (bind (fail_with code msg) (\<lambda>r. return (f r))) (\<lambda>_. session_inv W) X"
  by (rule hoare_bind, rule hoare_return, rule hoare_fail_with_inv)

subsection \<open>Calls that wait\<close>

lemma metadata_request_ok: "hoare (session_inv W) (metadata_request E i) (\<lambda>_. session_inv W) (session_inv W)"
  unfolding metadata_request_def
  by (rule hoare_find_some, unfold option.case, rule hoare_fail_then, rule jt_pre, (rule job_wp)+) auto

lemma metadata_answer_ok: "hoare (session_inv W) (metadata_answer E i) (\<lambda>_. session_inv W) (session_inv W)"
  unfolding metadata_answer_def
  by (rule hoare_find_some, unfold option.case, rule hoare_fail_with_inv, rule jt_pre, (rule job_wp)+) auto

lemma metadata_resume_ok: "hoare (session_inv W) (metadata_resume E i g ready) (\<lambda>_. session_inv W) (session_inv W)"
  unfolding metadata_resume_def
  by (rule hoare_pre, rule hoare_if, rule hoare_fail_with_inv, rule hoare_bind, rule hoare_if,
      rule hoare_fail_with_inv, rule metadata_answer_ok, rule hoare_gets) simp

text \<open>
  A request that waits makes the torrent one with a waiting caller; so does one that is left by an
  exception of the engine, although nobody waits then. The second half takes the torrent back.
\<close>

lemma jt_checkpoint_open:
  "job_triple i (\<lambda>j m. j = v \<and> job_ok a i j m) (checkpoint_open E i flush v)
     (\<lambda>r. case r of Answer _ \<Rightarrow> job_ok a i | Wait _ \<Rightarrow> job_ok True i) (job_ok True i)"
proof -
  have begin_ok: "job_ok True i (begun flush (v\<lparr>checkpoint := new_checkpoint\<lparr>cp_active := True\<rparr>\<rparr>)) m"
    if "job_ok a i v m" "\<not> cp_active (checkpoint v)" "barrier_idle (cp_barrier (checkpoint v))"
      "\<not> completion_checkpoint v" for m
    using that by (auto simp: job_ok_def job_inv_def begun_def new_checkpoint_def barrier_defs)
  show ?thesis
    unfolding checkpoint_open_def by (rule jt_pre, (rule job_wp)+) (auto intro: begin_ok)
qed

lemma checkpoint_request_ok:
  "hoare (session_inv W) (checkpoint_request E i flush)
     (\<lambda>r. session_inv (case r of Answer _ \<Rightarrow> W | Wait _ \<Rightarrow> insert i W)) (session_inv (insert i W))"
  unfolding checkpoint_request_def
proof (rule hoare_find, unfold option.case)
  show "hoare (session_inv W) (bind (fail_with LTKIT_ERROR_INVALID_IDENTIFIER not_active) (\<lambda>r. return (Answer r)))
     (\<lambda>r. session_inv (case r of Answer _ \<Rightarrow> W | Wait _ \<Rightarrow> insert i W)) (session_inv (insert i W))"
    by (rule hoare_bind, rule hoare_return, unfold request.case, rule hoare_fail_with_inv)
  show "hoare (\<lambda>w. session_inv W w \<and> session_job w i = Some v) (checkpoint_open E i flush v)
     (\<lambda>r. session_inv (case r of Answer _ \<Rightarrow> W | Wait _ \<Rightarrow> insert i W)) (session_inv (insert i W))" for v
    by (rule hoare_job_focus [OF jt_checkpoint_open])
      (auto split: request.splits dest: focus_session_inv focus_session_inv_same)
qed

lemma jt_checkpoint_close:
  "job_triple i (\<lambda>j m. j = v \<and> job_ok True i j m) (checkpoint_close E i completed interrupted v)
     (\<lambda>_. job_ok False i) (job_ok False i)"
proof -
  have reset: "job_ok False i (begin_waiting (v\<lparr>checkpoint := new_checkpoint\<rparr>)) m" if "job_ok True i v m" for m
    by (rule begin_waiting_ok) (use that in \<open>auto simp: job_ok_def job_inv_def\<close>)
  have abandon: "job_ok False i (v\<lparr>checkpoint := (checkpoint v)\<lparr>cp_active := False\<rparr>\<rparr>) m"
    if "job_ok True i v m" "\<not> cp_done (checkpoint v)" for m
    using that by (auto simp: job_ok_def job_inv_def)
  show ?thesis
    unfolding checkpoint_close_def by (rule jt_pre, (rule job_wp)+) (auto intro: reset abandon)
qed

lemma checkpoint_finish_ok:
  assumes "i \<in> W"
  shows "hoare (session_inv W) (checkpoint_finish E i g completed) (\<lambda>_. session_inv (W - {i})) (session_inv (W - {i}))"
  unfolding checkpoint_finish_def
proof (rule hoare_bind [OF _ hoare_gets], rule hoare_find_waiting [OF assms], unfold option.case)
  fix interrupted :: bool and v :: "'a job"
  show "hoare (\<lambda>w. session_inv W w \<and> session_job w i = Some v) (checkpoint_close E i completed interrupted v)
     (\<lambda>_. session_inv (W - {i})) (session_inv (W - {i}))"
    by (rule hoare_job_focus [OF jt_pre [OF jt_checkpoint_close]])
      (use assms focus_session_inv [where a = False] in auto)
qed

subsection \<open>Removal, events, admission\<close>

lemma retire_job_at: "job_at (retire i m) k = Some y \<Longrightarrow> k = i \<Longrightarrow> Job_retired y"
  by (auto simp: retire_def Let_def split: option.splits if_splits)

lemma retire_other: "k \<noteq> i \<Longrightarrow> job_at (retire i m) k = job_at m k"
  by (auto simp: retire_def Let_def split: option.splits)

lemma session_inv_remove:
  assumes inv: "session_inv W w" and "i \<notin> W"
  shows "session_inv W (w\<lparr>events := retire i (events w), jobs := AList.delete i (jobs w)\<rparr>)"
  unfolding session_inv_def
proof (intro conjI allI impI ballI)
  show "admitted (w\<lparr>events := retire i (events w), jobs := AList.delete i (jobs w)\<rparr>)"
    unfolding admitted_def
  proof
    fix k
    have "session_job w k \<noteq> None \<longleftrightarrow> (\<exists>m. job_at (events w) k = Some m \<and> \<not> Job_retired m)"
      using inv unfolding session_inv_def admitted_def by blast
    then show "session_job (w\<lparr>events := retire i (events w), jobs := AList.delete i (jobs w)\<rparr>) k \<noteq> None \<longleftrightarrow>
        (\<exists>m. job_at (events (w\<lparr>events := retire i (events w), jobs := AList.delete i (jobs w)\<rparr>)) k = Some m
           \<and> \<not> Job_retired m)"
      by (cases "k = i") (auto simp: retire_other dest: retire_job_at)
  qed
next
  fix k j assume "session_job (w\<lparr>events := retire i (events w), jobs := AList.delete i (jobs w)\<rparr>) k = Some j"
  then have "k \<noteq> i" and "session_job w k = Some j" by (auto split: if_splits)
  moreover from this inv have "job_ok (k \<in> W) k j (events w)" unfolding session_inv_def by blast
  ultimately show "job_ok (k \<in> W) k j (events (w\<lparr>events := retire i (events w), jobs := AList.delete i (jobs w)\<rparr>))"
    by (simp add: job_ok_def flag_def retire_other)
next
  fix k assume "k \<in> W"
  with assms show "session_job (w\<lparr>events := retire i (events w), jobs := AList.delete i (jobs w)\<rparr>) k \<noteq> None"
    unfolding session_inv_def by (cases "k = i") auto
qed (use inv in \<open>auto simp: session_inv_def inv_retire distinct_keys_delete\<close>)

text \<open>Programs that keep the invariant of the whole session.\<close>

definition keeps :: "string set \<Rightarrow> ('h, 'e, 'a) session_prog \<Rightarrow> bool" where
  "keeps W p \<longleftrightarrow> hoare (session_inv W) p (\<lambda>_. session_inv W) (session_inv W)"

lemma keepsD: "keeps W p \<Longrightarrow> hoare (session_inv W) p (\<lambda>_. session_inv W) (session_inv W)"
  by (simp add: keeps_def)

lemma keeps_return: "keeps W (return x)"
  unfolding keeps_def by (rule hoare_return)

lemma keeps_gets: "keeps W (gets f)"
  unfolding keeps_def by (rule hoare_gets)

lemma keeps_bind: "keeps W p \<Longrightarrow> (\<And>x. keeps W (f x)) \<Longrightarrow> keeps W (bind p f)"
  unfolding keeps_def by (rule hoare_bind)

lemma keeps_andthen: "keeps W p \<Longrightarrow> keeps W q \<Longrightarrow> keeps W (andthen p q)"
  unfolding keeps_def by (rule hoare_andthen)

lemma keeps_if: "(b \<Longrightarrow> keeps W p) \<Longrightarrow> (\<not> b \<Longrightarrow> keeps W q) \<Longrightarrow> keeps W (if b then p else q)"
  by simp

lemma keeps_case_option:
  "keeps W p \<Longrightarrow> (\<And>x. v = Some x \<Longrightarrow> keeps W (f x)) \<Longrightarrow> keeps W (case v of None \<Rightarrow> p | Some x \<Rightarrow> f x)"
  by (cases v) auto

lemma keeps_case_prod: "(\<And>a b. keeps W (f a b)) \<Longrightarrow> keeps W (case v of (a, b) \<Rightarrow> f a b)"
  by (cases v) simp

lemma keeps_let: "keeps W (f v) \<Longrightarrow> keeps W (let x = v in f x)"
  by simp

lemma keeps_engine: "keeps W (engine_call c)"
  by (auto simp: keeps_def hoare_def engine_call_def split: prod.splits sum.splits)

lemma keeps_system: "keeps W (system_call c)"
  by (auto simp: keeps_def hoare_def system_call_def split: prod.splits)

lemma keeps_notify: "keeps W notify_all"
  by (simp add: keeps_def hoare_def notify_all_def prog_defs)

lemma keeps_fail: "keeps W (fail code msg)"
  by (simp add: keeps_def hoare_fail_inv)

lemma keeps_fail_with: "keeps W (fail_with code msg)"
  by (simp add: keeps_def hoare_fail_with_inv)

lemma keeps_modify: "(\<And>w. session_inv W w \<Longrightarrow> session_inv W (f w)) \<Longrightarrow> keeps W (modify f)"
  by (simp add: keeps_def hoare_def prog_defs)

lemma keeps_guarded: "keeps W p \<Longrightarrow> hoare (session_inv W) (guarded p) (\<lambda>_. session_inv W) X"
  unfolding keeps_def by (rule hoare_guarded)

lemma keeps_guarded_with: "keeps W p \<Longrightarrow> hoare (session_inv W) (guarded_with written p) (\<lambda>_. session_inv W) X"
  unfolding keeps_def by (rule hoare_guarded_with)

lemma hoare_vacuous: "(\<And>w. \<not> P w) \<Longrightarrow> hoare P p R X"
  by (simp add: hoare_def)

lemma hoare_reject: "hoare (session_inv W) p (\<lambda>_. session_inv W) X \<Longrightarrow>
    hoare (session_inv W) (if b then return x else p) (\<lambda>_. session_inv W) X"
  by (auto simp: hoare_return [where R = "\<lambda>_. session_inv W"])

lemmas keeps_intros = keeps_return keeps_gets keeps_bind keeps_andthen keeps_if keeps_case_option
  keeps_case_prod keeps_let keeps_engine keeps_system keeps_notify keeps_fail keeps_fail_with

lemma remove_ok: "hoare (session_inv W) (ltkit_session_remove E session identifier delete_files) (\<lambda>_. session_inv W) X"
proof (cases "identifier")
  case None
  then show ?thesis unfolding ltkit_session_remove_def by (simp add: hoare_return [where R = "\<lambda>_. session_inv W"])
next
  case (Some i)
  let ?rest = "\<lambda>v. if cp_active (checkpoint v)
       then fail LTKIT_ERROR_NATIVE_FAILURE ''The torrent cannot be removed while a checkpoint is pending.''
       else andthen (if stopped v then return () else engine_call (lt_remove_torrent E (handle v) delete_files))
        (andthen (modify (\<lambda>w. w\<lparr>events := retire i (events w), jobs := AList.delete i (jobs w)\<rparr>))
        (andthen notify_all (return LTKIT_OK)))"
  have rest: "hoare (\<lambda>w. session_inv W w \<and> session_job w i = Some v) (?rest v) (\<lambda>_. session_inv W) (session_inv W)" for v
  proof (cases "i \<in> W \<longleftrightarrow> cp_active (checkpoint v)")
    case True
    then have "keeps W (?rest v)" by (intro keeps_intros keeps_modify session_inv_remove) auto
    then show ?thesis unfolding keeps_def by (rule hoare_pre) simp
  next
    case False
    show ?thesis by (rule hoare_vacuous) (use False in \<open>auto simp: session_inv_def job_ok_def\<close>)
  qed
  show ?thesis
    unfolding ltkit_session_remove_def Some option.case
    by (rule hoare_reject, rule hoare_guarded, rule hoare_find, unfold option.case, rule hoare_return, rule rest)
qed

lemma pop_keeps:
  assumes "job_at m k = Some y" and "\<not> Job_retired y"
  shows "\<exists>y'. job_at (snd (mailbox_pop ks m)) k = Some y' \<and> \<not> Job_retired y'
    \<and> delivered_or_pending y' = delivered_or_pending y"
  using assms by (auto simp: mailbox_pop_def Let_def split: list.splits option.splits)

lemma session_inv_pop:
  assumes inv: "session_inv W w"
  shows "session_inv W (w\<lparr>events := snd (mailbox_pop ks (events w))\<rparr>)"
proof -
  have adm: "session_job w k \<noteq> None \<longleftrightarrow> (\<exists>m. job_at (events w) k = Some m \<and> \<not> Job_retired m)" for k
    using inv unfolding session_inv_def admitted_def by blast
  have "admitted (w\<lparr>events := snd (mailbox_pop ks (events w))\<rparr>)"
    unfolding admitted_def using adm pop_keeps pop_jobs by (simp, metis option.distinct(1))
  moreover have "flag (snd (mailbox_pop ks (events w))) k kind = flag (events w) k kind"
    if "session_job w k = Some j" for k j kind
    using adm [of k] that pop_keeps [of "events w" k _ ks] by (auto simp: flag_def)
  ultimately show ?thesis
    using inv inv_pop unfolding session_inv_def job_ok_def by auto
qed

lemma keeps_pop: "keeps W (mailbox_call (mailbox_pop ks))"
  unfolding keeps_def hoare_def
proof (intro allI impI)
  fix w :: "('a, 'b) ltkit_session" assume w: "session_inv W w"
  then have "fst (mailbox_pop ks (events w)) = Ret ()" by (simp add: session_inv_def pop_outcome)
  with session_inv_pop [OF w, of ks]
  show "case mailbox_call (mailbox_pop ks) w of (Ret x, w') \<Rightarrow> session_inv W w' | (Throw e, w') \<Rightarrow> session_inv W w'
      | (Crash c, w') \<Rightarrow> c \<noteq> Undefined_behaviour"
    by (simp add: mailbox_call_def case_prod_beta)
qed

lemma keeps_wait:
  "(\<And>w. session_inv W w \<Longrightarrow> session_inv W (between w)) \<Longrightarrow> keeps W (wait_for between ready)"
  by (simp add: keeps_def hoare_def wait_for_def)

lemma next_event_ok:
  assumes "\<And>w. session_inv W w \<Longrightarrow> session_inv W (between w)"
  shows "hoare (session_inv W) (ltkit_session_next_event E order between session timeout_ms output) (\<lambda>_. session_inv W) X"
  unfolding ltkit_session_next_event_def
  by (rule hoare_reject, rule keeps_guarded_with) (intro keeps_intros keeps_pop keeps_wait assms)

lemma metadata_ok:
  assumes "\<And>w. session_inv W w \<Longrightarrow> session_inv W (between w)"
  shows "hoare (session_inv W) (ltkit_session_metadata E between session identifier timeout_ms output) (\<lambda>_. session_inv W) X"
proof -
  have "keeps W (case r of None \<Rightarrow> metadata_answer E i | Some r \<Rightarrow> (case r of Answer a \<Rightarrow> return a
      | Wait g \<Rightarrow> bind (wait_for between (metadata_woken i g)) (metadata_resume E i g)))" for r i
    by (cases r) (auto split: request.splits intro!: keeps_intros keeps_wait assms
        metadata_answer_ok [folded keeps_def] metadata_resume_ok [folded keeps_def])
  then show ?thesis
    unfolding ltkit_session_metadata_def
    by (cases "identifier") (auto intro!: keeps_guarded_with keeps_bind hoare_return [where R = "\<lambda>_. session_inv W"]
        metadata_request_ok [folded keeps_def])
qed

lemma take_last_error_ok: "hoare (session_inv W) (ltkit_session_take_last_error E session output) (\<lambda>_. session_inv W) X"
  by (auto simp: hoare_def ltkit_session_take_last_error_def prog_defs system_call_def split: prod.splits)

lemma wake_ok: "hoare (session_inv W) (ltkit_session_wake session) (\<lambda>_. session_inv W) X"
  by (simp add: hoare_def ltkit_session_wake_def prog_defs notify_all_def)

lemma destroy_ok: "hoare (session_inv W) (ltkit_session_destroy E session) (\<lambda>_. session_inv W) (session_inv W)"
  by (auto simp: hoare_def ltkit_session_destroy_def prog_defs notify_all_def engine_call_def split: prod.splits sum.splits)

text \<open>Admission: the identifier is free in the session and in the mailbox.\<close>

definition admissible :: "string set \<Rightarrow> string \<Rightarrow> ('h, 'e) ltkit_session \<Rightarrow> bool" where
  "admissible W i w \<longleftrightarrow> session_inv W w \<and> session_job w i = None \<and> can_add i (events w)"

lemma session_inv_add:
  assumes adm: "admissible W i w" and v: "job_inv v" "\<not> cp_active (checkpoint v)" "final_status v = None"
  shows "session_inv W (w\<lparr>events := snd (mailbox_add dbg i (events w)), jobs := AList.update i v (jobs w)\<rparr>)"
proof -
  let ?w = "w\<lparr>events := snd (mailbox_add dbg i (events w)), jobs := AList.update i v (jobs w)\<rparr>"
  from adm have inv: "session_inv W w" and none: "session_job w i = None" and room: "can_add i (events w)"
    by (auto simp: admissible_def)
  have mail: "snd (mailbox_add dbg i (events w)) = put_Job i new_Job (events w)"
    using room by (auto simp: mailbox_add_def can_add_def)
  have "i \<notin> W" using inv none unfolding session_inv_def by blast
  show ?thesis
    unfolding session_inv_def
  proof (intro conjI allI impI ballI)
    show "admitted ?w"
      using inv unfolding session_inv_def admitted_def by (auto simp: mail new_Job_def)
  next
    fix k j assume "session_job ?w k = Some j"
    then show "job_ok (k \<in> W) k j (events ?w)"
      using inv v \<open>i \<notin> W\<close> unfolding session_inv_def
      by (cases "k = i") (auto simp: job_ok_def flag_def mail new_Job_def)
  next
    fix k assume "k \<in> W" then show "session_job ?w k \<noteq> None"
      using inv unfolding session_inv_def by auto
  qed (use inv room in \<open>auto simp: session_inv_def inv_add distinct_keys_update\<close>)
qed

lemma hoare_admissible_engine: "hoare (admissible W i) (engine_call c) (\<lambda>_. admissible W i) (session_inv W)"
  by (auto simp: hoare_def engine_call_def admissible_def split: prod.splits sum.splits)

lemma hoare_admissible_fail: "hoare (admissible W i) (fail code msg) (\<lambda>_. session_inv W) (session_inv W)"
  by (rule hoare_pre [OF hoare_fail_inv]) (simp add: admissible_def)

lemma hoare_admit:
  fixes q :: "('h, 'e, 'a) session_prog"
  assumes "hoare (\<lambda>w. session_inv W w \<and> session_job w i = Some v) q R X"
    and v: "job_inv v" "\<not> cp_active (checkpoint v)" "final_status v = None"
  shows "hoare (admissible W i) (andthen (mailbox_call (mailbox_add dbg i))
    (andthen (modify (\<lambda>w. w\<lparr>jobs := AList.update i v (jobs w)\<rparr>)) q)) R X"
  unfolding hoare_def
proof (intro allI impI)
  fix w :: "('h, 'e) ltkit_session" assume w: "admissible W i w"
  let ?w = "w\<lparr>events := snd (mailbox_add dbg i (events w)), jobs := AList.update i v (jobs w)\<rparr>"
  have "fst (mailbox_add dbg i (events w)) = Ret ()"
    using w by (simp add: mailbox_add_def admissible_def)
  then have "andthen (mailbox_call (mailbox_add dbg i)) (andthen (modify (\<lambda>w. w\<lparr>jobs := AList.update i v (jobs w)\<rparr>)) q) w
      = q ?w"
    by (simp add: prog_defs mailbox_call_def case_prod_beta)
  moreover have "session_inv W ?w \<and> session_job ?w i = Some v"
    using session_inv_add [OF w v] by simp
  ultimately show "case andthen (mailbox_call (mailbox_add dbg i))
      (andthen (modify (\<lambda>w. w\<lparr>jobs := AList.update i v (jobs w)\<rparr>)) q) w of
      (Ret x, w') \<Rightarrow> R x w' | (Throw e, w') \<Rightarrow> X w' | (Crash c, w') \<Rightarrow> c \<noteq> Undefined_behaviour"
    using assms(1) by (simp add: hoare_def)
qed

lemma register_torrent_ok:
  "hoare (admissible W i) (register_torrent E i rq desired params) (\<lambda>_. session_inv W) (session_inv W)"
proof -
  have announce: "hoare (\<lambda>w. session_inv W w \<and> session_job w i = Some v)
      (bind (engine_call c) (\<lambda>info. if info \<noteq> None then andthen (enqueue E i K_metadata json) (return LTKIT_OK)
         else return LTKIT_OK)) (\<lambda>_. session_inv W) (session_inv W)" for v c json
    by (rule hoare_job, rule jt_pre, (rule job_wp)+) (auto elim!: job_ok_post)
  have fresh: "job_inv ((new_job h)\<lparr>desired_files := d, file_priorities := f, piece_priorities := p,
      primary_file := k, metadata_ready := b, completion_stops := s\<rparr>)" for h d f p k b s
    by (simp add: job_inv_def new_job_def new_checkpoint_def)
  show ?thesis
    unfolding register_torrent_def
    by (rule hoare_bind [OF _ hoare_admissible_engine], rule hoare_pre, rule hoare_case_option,
        rule hoare_admissible_fail [of W i], rule hoare_bind [OF _ hoare_admissible_engine], rule hoare_admit,
        rule announce, rule fresh) (simp_all add: new_job_def new_checkpoint_def)
qed

text \<open>The size of a null resume pointer has to be zero; the call does not check it.\<close>

definition resume_readable :: "add_request \<Rightarrow> bool" where
  "resume_readable rq \<longleftrightarrow> c_null (rq_resume rq) \<longrightarrow> c_count (rq_resume rq) = 0"

lemma add_parsed_ok: "hoare (admissible W i) (add_parsed E i rq params) (\<lambda>_. session_inv W) (session_inv W)"
  unfolding add_parsed_def Let_def
  by (rule hoare_pre, rule hoare_case_option, rule hoare_admissible_fail [of W i], rule register_torrent_ok) simp

lemma add_admitted_ok:
  assumes "resume_readable rq"
  shows "hoare (admissible W i) (add_admitted E i rq) (\<lambda>_. session_inv W) (session_inv W)"
proof -
  have parse: "hoare (admissible W i) (parse_source E rq) (\<lambda>_. admissible W i) (session_inv W)"
    unfolding parse_source_def by (simp add: hoare_admissible_engine)
  have resume: "hoare (admissible W i) (read_resume E rq) (\<lambda>_. admissible W i) (session_inv W)"
    if "c_count (rq_resume rq) > 0"
    using assms that unfolding read_resume_def resume_readable_def by (auto simp: hoare_admissible_engine)
  have restored: "hoare (admissible W i) (bind (read_resume E rq) (\<lambda>restored. case restored of
      None \<Rightarrow> fail code msg | Some restored \<Rightarrow> add_parsed E i rq (merge_resume params restored)))
     (\<lambda>_. session_inv W) (session_inv W)" if "c_count (rq_resume rq) > 0" for code msg params
    by (rule hoare_bind [OF _ resume [OF that]], rule hoare_pre, rule hoare_case_option,
        rule hoare_admissible_fail [of W i], rule add_parsed_ok) simp
  have source: "hoare (admissible W i) (case parsed of None \<Rightarrow> fail code msg | Some params \<Rightarrow>
      if c_count (rq_resume rq) > 0 then bind (read_resume E rq) (\<lambda>restored. case restored of
          None \<Rightarrow> fail code' msg' | Some restored \<Rightarrow> add_parsed E i rq (merge_resume params restored))
      else add_parsed E i rq params) (\<lambda>_. session_inv W) (session_inv W)" for parsed code msg code' msg'
    by (cases parsed) (simp_all add: hoare_admissible_fail restored add_parsed_ok)
  show ?thesis
    unfolding add_admitted_def
    by (rule hoare_pre, rule hoare_if, rule hoare_admissible_fail [of W i], rule hoare_bind [OF source parse]) simp
qed

lemma add_ok:
  assumes "resume_readable rq"
  shows "hoare (session_inv W) (ltkit_session_add E session rq) (\<lambda>_. session_inv W) X"
proof -
  let ?i = "the (rq_identifier rq)"
  let ?body = "\<lambda>w. if shutting_down w then fail LTKIT_ERROR_SESSION_SHUT_DOWN ''The torrent session has shut down.''
     else if session_job w ?i \<noteq> None then fail LTKIT_ERROR_DUPLICATE_IDENTIFIER ''The torrent identifier already exists.''
     else if \<not> can_add ?i (events w)
     then fail LTKIT_ERROR_ALLOCATION_LIMIT ''Drain events and remove unused torrents before adding more torrents.''
     else if \<not> path_rooted (the (rq_directory rq))
     then fail LTKIT_ERROR_INVALID_ARGUMENT ''The download directory must be absolute.''
     else add_admitted E ?i rq"
  have "keeps W (bind (gets (\<lambda>w. w)) ?body)"
    unfolding keeps_def hoare_def
  proof (intro allI impI)
    fix w :: "('a, 'b) ltkit_session" assume w: "session_inv W w"
    show "case bind (gets (\<lambda>w. w)) ?body w of (Ret x, w') \<Rightarrow> session_inv W w' | (Throw e, w') \<Rightarrow> session_inv W w'
        | (Crash c, w') \<Rightarrow> c \<noteq> Undefined_behaviour"
      using add_admitted_ok [OF assms, of W ?i E] w
      by (simp add: bind_gets hoare_def admissible_def fail_def set_error_def prog_defs)
  qed
  then have body: "hoare (session_inv W) (guarded (bind (gets (\<lambda>w. w)) ?body)) (\<lambda>_. session_inv W) X"
    by (rule keeps_guarded)
  show ?thesis
  proof (cases "add_request_invalid session rq")
    case True
    then show ?thesis
      by (simp add: ltkit_session_add_def hoare_fail_inv hoare_return [where R = "\<lambda>_. session_inv W"])
  next
    case False
    then have "ltkit_session_add E session rq = guarded (bind (gets (\<lambda>w. w)) ?body)"
      unfolding ltkit_session_add_def Let_def by (rule if_not_P)
    then show ?thesis by (simp only: body)
  qed
qed

end
