(* ===== verification/Streaming.thy ===== *)
theory Streaming
  imports API_Correct Complex_Main "HOL-Library.Signed_Division"
begin

text \<open>
  The streaming window (\<open>ltkit_session_update_streaming_window\<close> in
  \<open>src/Native/src/LibtorrentNative.cpp\<close>): from a byte offset in a file and two buffer sizes, the pieces
  the player needs next get priorities, and the most urgent ones deadlines.

  Piece indexes are narrowed from \<open>int64_t\<close> to \<open>int\<close>; a sum that leaves \<open>int64_t\<close>, a division by
  zero, \<open>std::clamp\<close> with crossed bounds and a floating-point value that does not fit an \<open>int\<close> are
  undefined behaviour. \<open>long double\<close> arithmetic is rational arithmetic in which \<open>rnd\<close> rounds every
  result: its width differs between the platforms.
\<close>

section \<open>The window\<close>

text \<open>\<open>std::clamp\<close>, undefined when the bounds are crossed.\<close>

definition clamp :: "int \<Rightarrow> int \<Rightarrow> int \<Rightarrow> int option" where
  "clamp v lo hi = (if hi < lo then None else Some (if v < lo then lo else if hi < v then hi else v))"

text \<open>\<open>int((file_offset + position) / piece_length)\<close>.\<close>

definition piece_at :: "torrent_info \<Rightarrow> int \<Rightarrow> int \<Rightarrow> int option" where
  "piece_at info k position =
     (if ti_piece_length info = 0 \<or> ti_file_offset info k + position \<ge> 2 ^ 63 then None
      else Some (int32_of ((ti_file_offset info k + position) sdiv ti_piece_length info)))"

record window =
  win_first :: int
  win_last :: int
  win_playback :: int
  win_critical :: int
  win_warm :: int

definition window_end :: "int \<Rightarrow> int \<Rightarrow> int \<Rightarrow> int" where
  "window_end file_bytes byte_offset bytes = byte_offset + min (file_bytes - 1 - byte_offset) (bytes - 1)"

text \<open>The window of a byte offset; \<open>None\<close> is undefined behaviour.\<close>

definition streaming_window :: "torrent_info \<Rightarrow> int \<Rightarrow> int \<Rightarrow> int \<Rightarrow> int \<Rightarrow> window option" where
  "streaming_window info k byte_offset critical_bytes warm_bytes =
     (let file_bytes = ti_file_size info k;
          file_first = ti_first_piece info k;
          file_last = ti_last_piece info k;
          at_byte = (\<lambda>position lo. Option.bind (piece_at info k position) (\<lambda>p. clamp p lo file_last))
      in Option.bind (at_byte byte_offset file_first) (\<lambda>playback.
         Option.bind (at_byte (window_end file_bytes byte_offset critical_bytes) playback) (\<lambda>critical_last.
         Option.bind (at_byte (window_end file_bytes byte_offset warm_bytes) critical_last) (\<lambda>warm_last.
         Some \<lparr>win_first = file_first, win_last = file_last, win_playback = playback,
           win_critical = critical_last, win_warm = warm_last\<rparr>))))"

text \<open>The raised priorities, in order: the edges, the warm pieces, the critical pieces.\<close>

definition raised_pieces :: "('h, 'e) env \<Rightarrow> bool \<Rightarrow> window \<Rightarrow> (int \<times> nat) list" where
  "raised_pieces E prioritize_edges win =
     (if prioritize_edges then (win_first win, top_priority E)
        # (if win_last win \<noteq> win_first win then [(win_last win, top_priority E)] else []) else [])
     @ map (\<lambda>piece. (piece, 6)) [win_playback win..win_warm win]
     @ map (\<lambda>piece. (piece, top_priority E)) [win_playback win..win_critical win]"

section \<open>Deadlines\<close>

definition int_max :: int where
  "int_max = 2 ^ 31 - 1"

text \<open>The bytes the player reads before it reaches a piece.\<close>

definition bytes_ahead :: "torrent_info \<Rightarrow> int \<Rightarrow> int \<Rightarrow> int \<Rightarrow> int" where
  "bytes_ahead info k byte_offset piece =
     max (piece * ti_piece_length info - ti_file_offset info k) byte_offset - byte_offset"

text \<open>\<open>static_cast<int>\<close> of a \<open>long double\<close> truncates; \<open>None\<close> when the value does not fit.\<close>

definition truncate_int :: "rat \<Rightarrow> int option" where
  "truncate_int x =
     (let n = (if x < 0 then \<lceil>x\<rceil> else \<lfloor>x\<rfloor>)
      in if - (2 ^ 31) \<le> n \<and> n \<le> int_max then Some n else None)"

definition deadline_ms :: "(rat \<Rightarrow> rat) \<Rightarrow> int \<Rightarrow> int \<Rightarrow> int option" where
  "deadline_ms rnd ahead rate =
     truncate_int (min (rnd (100 + rnd (rnd (rnd (of_int ahead) * 1000) / rnd (of_int rate)))) (of_int int_max))"

definition place_deadline ::
  "('h, 'e) env \<Rightarrow> (rat \<Rightarrow> rat) \<Rightarrow> string \<Rightarrow> 'h \<Rightarrow> torrent_info \<Rightarrow> int \<Rightarrow> int \<Rightarrow> int \<Rightarrow> int \<Rightarrow> ('h, 'e, unit) session_prog" where
  "place_deadline E rnd i h info k byte_offset rate piece =
     (case deadline_ms rnd (bytes_ahead info k byte_offset piece) rate of
        None \<Rightarrow> crash Undefined_behaviour
      | Some deadline \<Rightarrow>
          andthen (engine_call (lt_set_piece_deadline E h piece deadline))
            (set_job i (\<lambda>value. value\<lparr>deadline_pieces := insert piece (deadline_pieces value)\<rparr>)))"

section \<open>The call\<close>

definition window_json :: "int \<Rightarrow> int \<Rightarrow> window \<Rightarrow> string" where
  \<open>window_json file_index byte_offset win =
     ''{"fileIndex":'' @ show_int file_index @ '',"requestedByteOffset":'' @ show_int byte_offset
     @ '',"firstPieceIndex":'' @ show_int (win_playback win) @ '',"lastPieceIndex":'' @ show_int (win_warm win)
     @ '',"playbackPieceIndex":'' @ show_int (win_playback win) @ '',"prioritizedPieceIndexes":[''
     @ commas (map show_int [win_playback win..win_warm win])
     @ ''],"deadlinePieceIndexes":[''
     @ commas (map show_int [win_playback win..win_critical win]) @ '']}''\<close>

text \<open>What happens once the window is known.\<close>

definition apply_window ::
  "('h, 'e) env \<Rightarrow> (rat \<Rightarrow> rat) \<Rightarrow> string \<Rightarrow> 'h \<Rightarrow> torrent_info \<Rightarrow> int \<Rightarrow> int \<Rightarrow> int \<Rightarrow> bool \<Rightarrow> window
     \<Rightarrow> ('h, 'e, int \<times> ltkit_buffer option) session_prog" where
  "apply_window E rnd i h info file_index byte_offset rate prioritize_edges win =
     andthen (set_job i (\<lambda>value. value\<lparr>deadline_pieces := {}\<rparr>))
     (andthen (for_each [win_playback win..win_critical win] (place_deadline E rnd i h info file_index byte_offset rate))
     (andthen (engine_call (lt_raise_pieces E h (raised_pieces E prioritize_edges win)))
     (andthen (set_job i (\<lambda>value. value\<lparr>primary_file := file_index\<rparr>))
     (respond E (window_json file_index byte_offset win) ''The streaming response could not be allocated.''))))"

definition update_window ::
  "('h, 'e) env \<Rightarrow> (rat \<Rightarrow> rat) \<Rightarrow> int \<Rightarrow> int \<Rightarrow> int \<Rightarrow> int \<Rightarrow> int \<Rightarrow> bool \<Rightarrow> string \<Rightarrow> 'h job
     \<Rightarrow> ('h, 'e, int \<times> ltkit_buffer option) session_prog" where
  "update_window E rnd file_index byte_offset critical_bytes warm_bytes rate prioritize_edges i value =
     bind (engine_call (lt_torrent_file E (handle value))) (\<lambda>info. case info of
       None \<Rightarrow> fail_with LTKIT_ERROR_METADATA_UNAVAILABLE metadata_unavailable
     | Some info \<Rightarrow>
         if file_index \<ge> ti_num_files info
         then fail_with LTKIT_ERROR_INVALID_FILE_INDEX ''The streaming file index is invalid.''
         else if file_index \<notin> set (desired_files value)
         then fail_with LTKIT_ERROR_INVALID_FILE_INDEX ''The streaming file must be selected.''
         else if ti_file_size info file_index \<le> 0 \<or> byte_offset \<ge> ti_file_size info file_index
         then fail_with LTKIT_ERROR_INVALID_OFFSET ''The streaming byte offset is outside the file.''
         else
           andthen (engine_call (lt_clear_piece_deadlines E (handle value)))
           (bind (apply_selection E i) (\<lambda>applied.
             if \<not> applied then fail_with LTKIT_ERROR_INVALID_FILE_INDEX ''A requested file index is invalid.''
             else case streaming_window info file_index byte_offset critical_bytes warm_bytes of
               None \<Rightarrow> crash Undefined_behaviour
             | Some win \<Rightarrow>
                 apply_window E rnd i (handle value) info file_index byte_offset rate prioritize_edges win)))"

definition ltkit_session_update_streaming_window ::
  "('h, 'e) env \<Rightarrow> (rat \<Rightarrow> rat) \<Rightarrow> bool \<Rightarrow> string option \<Rightarrow> int \<Rightarrow> int \<Rightarrow> int \<Rightarrow> int \<Rightarrow> int \<Rightarrow> bool \<Rightarrow> bool
     \<Rightarrow> ('h, 'e, int \<times> ltkit_buffer option) session_prog" where
  "ltkit_session_update_streaming_window E rnd session identifier file_index byte_offset critical_bytes warm_bytes
       rate prioritize_edges output =
     (if \<not> session \<or> identifier = None \<or> \<not> output \<or> file_index < 0 \<or> byte_offset < 0 \<or> critical_bytes \<le> 0
         \<or> warm_bytes < critical_bytes \<or> rate \<le> 0 then return (LTKIT_ERROR_INVALID_ARGUMENT, None)
      else guarded_out (with_active_out identifier
        (update_window E rnd file_index byte_offset critical_bytes warm_bytes rate prioritize_edges)))"

section \<open>The plan of the Swift wrapper\<close>

text \<open>
  \<open>PieceWindowPlan.make\<close> checks the request before the native call. It throws an error, stops the process where an
  \<open>Int64\<close> overflows, or makes a plan. \<open>Int\<close> is 64 bits wide.
\<close>

record PieceWindowPlan =
  firstPiece :: int
  criticalLastPiece :: int
  warmLastPiece :: int
  playbackPiece :: int

datatype plan_result = Plan_throws | Plan_traps | Plan PieceWindowPlan

definition add64 :: "int \<Rightarrow> int \<Rightarrow> int option" where
  "add64 x y = (if - (2 ^ 63) \<le> x + y \<and> x + y < 2 ^ 63 then Some (x + y) else None)"

definition plan_last :: "int \<Rightarrow> int \<Rightarrow> int \<Rightarrow> int \<Rightarrow> int \<Rightarrow> int \<Rightarrow> int \<Rightarrow> int option" where
  "plan_last fileOffset fileSize pieceLength byteOffset fileLast playback byteCount =
     Option.bind (add64 fileSize (-1)) (\<lambda>fileEnd.
     Option.bind (add64 fileEnd (- byteOffset)) (\<lambda>rest.
     Option.bind (add64 byteCount (-1)) (\<lambda>ahead.
     Option.bind (add64 byteOffset (min rest ahead)) (\<lambda>inclusiveEnd.
     Option.bind (add64 fileOffset inclusiveEnd) (\<lambda>position.
     Some (min fileLast (max playback (position sdiv pieceLength))))))))"

definition PieceWindowPlan_make :: "int \<Rightarrow> int \<Rightarrow> int \<Rightarrow> int \<Rightarrow> int \<Rightarrow> int \<Rightarrow> int \<Rightarrow> plan_result" where
  "PieceWindowPlan_make fileOffset fileSize pieceLength byteOffset criticalBufferBytes warmBufferBytes rate =
     (if fileSize \<le> 0 then Plan_throws
      else if \<not> (pieceLength > 0 \<and> fileOffset \<ge> 0 \<and> byteOffset \<ge> 0 \<and> byteOffset < fileSize
         \<and> criticalBufferBytes > 0 \<and> warmBufferBytes \<ge> criticalBufferBytes \<and> rate > 0) then Plan_throws
      else case
        Option.bind (Option.bind (add64 fileOffset fileSize) (\<lambda>end_offset. add64 end_offset (-1))) (\<lambda>lastByte.
        Option.bind (add64 fileOffset byteOffset) (\<lambda>firstByte.
        (let fileFirst = fileOffset sdiv pieceLength;
             fileLast = lastByte sdiv pieceLength;
             playback = min fileLast (max fileFirst (firstByte sdiv pieceLength));
             last = plan_last fileOffset fileSize pieceLength byteOffset fileLast playback
         in Option.bind (last criticalBufferBytes) (\<lambda>criticalLast.
            Option.bind (last warmBufferBytes) (\<lambda>warmLast.
            Some \<lparr>firstPiece = fileFirst, criticalLastPiece = criticalLast, warmLastPiece = warmLast,
              playbackPiece = playback\<rparr>)))))
      of None \<Rightarrow> Plan_traps | Some plan \<Rightarrow> Plan plan)"

section \<open>What libtorrent and the floating-point unit promise\<close>

text \<open>The position of a file's pieces in a torrent, and the limits of a torrent's size.\<close>

definition wf_layout :: "torrent_info \<Rightarrow> bool" where
  "wf_layout info \<longleftrightarrow> 0 < ti_piece_length info \<and> ti_piece_length info \<le> int_max \<and> ti_num_pieces info \<le> int_max \<and>
     (\<forall>k\<in>{0..<ti_num_files info}. 0 < ti_file_size info k \<longrightarrow>
        0 \<le> ti_file_offset info k \<and> ti_file_offset info k + ti_file_size info k \<le> 2 ^ 63
        \<and> ti_first_piece info k = ti_file_offset info k div ti_piece_length info
        \<and> ti_last_piece info k = (ti_file_offset info k + ti_file_size info k - 1) div ti_piece_length info
        \<and> ti_last_piece info k < ti_num_pieces info)"

definition laid_out :: "('h, 'e) env \<Rightarrow> bool" where
  "laid_out E \<longleftrightarrow> (\<forall>h e info e'. lt_torrent_file E h e = (Inr (Some info), e') \<longrightarrow> wf_layout info)"

text \<open>Rounding is monotone and exact on the integers both formats represent.\<close>

definition rounding :: "(rat \<Rightarrow> rat) \<Rightarrow> bool" where
  "rounding rnd \<longleftrightarrow> mono rnd \<and> (\<forall>n :: int. \<bar>n\<bar> \<le> 2 ^ 53 \<longrightarrow> rnd (of_int n) = of_int n)"

section \<open>The window in closed form\<close>

lemma sdiv_nonneg: "0 \<le> (a :: int) \<Longrightarrow> 0 < b \<Longrightarrow> a sdiv b = a div b"
  by (auto simp: signed_divide_int_def sgn_if)

lemma int32_of_id: "- (2 ^ 31) \<le> x \<Longrightarrow> x \<le> int_max \<Longrightarrow> int32_of x = x"
  by (simp add: int32_of_def int_max_def)

lemma clamp_within: "lo \<le> v \<Longrightarrow> v \<le> hi \<Longrightarrow> clamp v lo hi = Some v"
  by (simp add: clamp_def)

text \<open>A request the call accepts, on a file of a consistent layout.\<close>

definition window_request :: "torrent_info \<Rightarrow> int \<Rightarrow> int \<Rightarrow> int \<Rightarrow> int \<Rightarrow> bool" where
  "window_request info k byte_offset critical_bytes warm_bytes \<longleftrightarrow>
     wf_layout info \<and> 0 \<le> k \<and> k < ti_num_files info \<and> 0 \<le> byte_offset \<and> byte_offset < ti_file_size info k
     \<and> 0 < critical_bytes \<and> critical_bytes \<le> warm_bytes"

definition piece_of :: "torrent_info \<Rightarrow> int \<Rightarrow> int \<Rightarrow> int" where
  "piece_of info k position = (ti_file_offset info k + position) div ti_piece_length info"

lemma window_requestD:
  assumes "window_request info k byte_offset critical_bytes warm_bytes"
  shows "0 < ti_piece_length info" "0 \<le> ti_file_offset info k"
    "ti_file_offset info k + ti_file_size info k \<le> 2 ^ 63" "ti_num_pieces info \<le> int_max"
    "ti_first_piece info k = piece_of info k 0" "ti_last_piece info k = piece_of info k (ti_file_size info k - 1)"
    "ti_last_piece info k < ti_num_pieces info"
    "0 \<le> byte_offset" "byte_offset < ti_file_size info k" "0 < critical_bytes" "critical_bytes \<le> warm_bytes"
proof -
  from assms have layout: "wf_layout info" and req: "k \<in> {0..<ti_num_files info}" "0 \<le> byte_offset"
    "byte_offset < ti_file_size info k" "0 < critical_bytes" "critical_bytes \<le> warm_bytes"
    by (auto simp: window_request_def)
  from req have "0 < ti_file_size info k" by linarith
  moreover from layout have "\<forall>k\<in>{0..<ti_num_files info}. 0 < ti_file_size info k \<longrightarrow>
        0 \<le> ti_file_offset info k \<and> ti_file_offset info k + ti_file_size info k \<le> 2 ^ 63
        \<and> ti_first_piece info k = piece_of info k 0
        \<and> ti_last_piece info k = piece_of info k (ti_file_size info k - 1)
        \<and> ti_last_piece info k < ti_num_pieces info"
    unfolding wf_layout_def piece_of_def add_0_right add_diff_eq by (elim conjE)
  note bspec [OF this req(1)]
  ultimately show "0 \<le> ti_file_offset info k"
    "ti_file_offset info k + ti_file_size info k \<le> 2 ^ 63" 
    "ti_first_piece info k = piece_of info k 0" "ti_last_piece info k = piece_of info k (ti_file_size info k - 1)"
    "ti_last_piece info k < ti_num_pieces info"
    by blast+
  from layout show "0 < ti_piece_length info" "ti_num_pieces info \<le> int_max"
    by (simp_all only: wf_layout_def simp_thms)
qed (use assms in \<open>simp_all add: window_request_def\<close>)

lemma piece_of_mono: "0 < ti_piece_length info \<Longrightarrow> a \<le> b \<Longrightarrow> piece_of info k a \<le> piece_of info k b"
  by (simp add: piece_of_def zdiv_mono1)

lemma piece_of_range:
  assumes "window_request info k byte_offset critical_bytes warm_bytes" and "0 \<le> p" and "p < ti_file_size info k"
  shows "0 \<le> piece_of info k p" "piece_of info k 0 \<le> piece_of info k p"
    "piece_of info k p \<le> ti_last_piece info k" "piece_of info k p \<le> int_max"
proof -
  note req = window_requestD [OF assms(1)]
  show "0 \<le> piece_of info k p" using req assms(2) by (simp add: piece_of_def pos_imp_zdiv_nonneg_iff)
  show "piece_of info k 0 \<le> piece_of info k p" using req assms(2) by (intro piece_of_mono)
  show "piece_of info k p \<le> ti_last_piece info k" unfolding req(6) using req assms(3) by (intro piece_of_mono) auto
  with req show "piece_of info k p \<le> int_max" by linarith
qed

lemma piece_at_piece_of:
  assumes "window_request info k byte_offset critical_bytes warm_bytes" and "0 \<le> p" and "p < ti_file_size info k"
  shows "piece_at info k p = Some (piece_of info k p)"
proof -
  note req = window_requestD [OF assms(1)]
  have "(ti_file_offset info k + p) sdiv ti_piece_length info = piece_of info k p"
    using req assms(2) by (simp add: piece_of_def sdiv_nonneg)
  moreover have "int32_of (piece_of info k p) = piece_of info k p"
    using piece_of_range [OF assms] by (intro int32_of_id) auto
  ultimately show ?thesis using req assms(3) by (simp add: piece_at_def)
qed

lemma window_end_range:
  assumes "0 < bytes" and "0 \<le> byte_offset" and "byte_offset < file_bytes"
  shows "byte_offset \<le> window_end file_bytes byte_offset bytes" "window_end file_bytes byte_offset bytes < file_bytes"
  using assms by (auto simp: window_end_def)

lemma streaming_window_eq:
  assumes "window_request info k byte_offset critical_bytes warm_bytes"
  shows "streaming_window info k byte_offset critical_bytes warm_bytes = Some
    \<lparr>win_first = piece_of info k 0, win_last = piece_of info k (ti_file_size info k - 1),
     win_playback = piece_of info k byte_offset,
     win_critical = piece_of info k (window_end (ti_file_size info k) byte_offset critical_bytes),
     win_warm = piece_of info k (window_end (ti_file_size info k) byte_offset warm_bytes)\<rparr>"
proof -
  note req = window_requestD [OF assms]
  let ?c = "window_end (ti_file_size info k) byte_offset critical_bytes"
  let ?w = "window_end (ti_file_size info k) byte_offset warm_bytes"
  have ends: "byte_offset \<le> ?c" "?c \<le> ?w" "?w < ti_file_size info k"
    using req by (auto simp: window_end_def)
  have at_byte: "piece_at info k p = Some (piece_of info k p)" "piece_of info k p \<le> piece_of info k (ti_file_size info k - 1)"
    if "0 \<le> p" "p < ti_file_size info k" for p
    using piece_at_piece_of [OF assms that] piece_of_range(3) [OF assms that] req(6) by auto
  have order: "piece_of info k 0 \<le> piece_of info k byte_offset" "piece_of info k byte_offset \<le> piece_of info k ?c"
    "piece_of info k ?c \<le> piece_of info k ?w"
    using req ends by (auto intro: piece_of_mono)
  show ?thesis
    using at_byte [of byte_offset] at_byte [of ?c] at_byte [of ?w] order ends req
    by (simp add: streaming_window_def Let_def clamp_within)
qed

section \<open>Deadlines\<close>

lemma rounding_of_int: "rounding rnd \<Longrightarrow> \<bar>n\<bar> \<le> 2 ^ 53 \<Longrightarrow> rnd (of_int n) = of_int n"
  by (simp add: rounding_def)

lemma rounding_mono: "rounding rnd \<Longrightarrow> x \<le> y \<Longrightarrow> rnd x \<le> rnd y"
  by (auto simp: rounding_def dest: monoD)

lemma rounding_ge: "rounding rnd \<Longrightarrow> of_int n \<le> x \<Longrightarrow> \<bar>n\<bar> \<le> 2 ^ 53 \<Longrightarrow> of_int n \<le> rnd x"
  using rounding_mono [of rnd "of_int n" x] rounding_of_int [of rnd n] by simp

lemmas rounding_nonneg = rounding_ge [where n = 0, simplified]
  and rounding_pos = rounding_ge [where n = 1, simplified]
  and rounding_hundred = rounding_ge [where n = 100, simplified]

definition deadline_value :: "(rat \<Rightarrow> rat) \<Rightarrow> int \<Rightarrow> int \<Rightarrow> rat" where
  "deadline_value rnd ahead rate = rnd (100 + rnd (rnd (rnd (of_int ahead) * 1000) / rnd (of_int rate)))"

lemma deadline_value_bounds:
  assumes rnd: "rounding rnd" and "0 \<le> ahead" and "0 < rate"
  shows "100 \<le> deadline_value rnd ahead rate"
proof -
  have "0 \<le> rnd (of_int ahead)" using assms by (simp add: rounding_nonneg)
  then have "0 \<le> rnd (rnd (of_int ahead) * 1000)" by (simp add: rounding_nonneg [OF rnd])
  moreover have "1 \<le> rnd (of_int rate)" using assms by (simp add: rounding_pos)
  ultimately have "0 \<le> rnd (rnd (of_int ahead) * 1000) / rnd (of_int rate)" by simp
  then have "0 \<le> rnd (rnd (rnd (of_int ahead) * 1000) / rnd (of_int rate))" by (rule rounding_nonneg [OF rnd])
  then show ?thesis by (simp add: deadline_value_def rounding_hundred [OF rnd])
qed

lemma deadline_value_mono:
  assumes "rounding rnd" and "0 < rate" and "a \<le> b"
  shows "deadline_value rnd a rate \<le> deadline_value rnd b rate"
proof -
  have "1 \<le> rnd (of_int rate)" using assms(1,2) by (simp add: rounding_pos)
  then show ?thesis
    unfolding deadline_value_def using assms(3)
    by (intro rounding_mono [OF assms(1)] add_left_mono divide_right_mono mult_right_mono) auto
qed

lemma deadline_ms_eq:
  assumes "rounding rnd" and "0 \<le> ahead" and "0 < rate"
  shows "deadline_ms rnd ahead rate = Some (min \<lfloor>deadline_value rnd ahead rate\<rfloor> int_max)"
proof -
  let ?x = "deadline_value rnd ahead rate"
  have "100 \<le> ?x" by (rule deadline_value_bounds [OF assms])
  moreover have "\<lfloor>min ?x (of_int int_max)\<rfloor> = min \<lfloor>?x\<rfloor> int_max"
    by (simp add: min_def le_floor_iff) linarith
  ultimately show ?thesis
    unfolding deadline_ms_def deadline_value_def [symmetric] truncate_int_def Let_def
    by (auto simp: int_max_def min_def le_floor_iff split: if_splits)
qed

lemma bytes_ahead_nonneg: "0 \<le> bytes_ahead info k byte_offset piece"
  by (simp add: bytes_ahead_def)

lemma bytes_ahead_mono:
  assumes "0 \<le> ti_piece_length info" and "p \<le> q"
  shows "bytes_ahead info k byte_offset p \<le> bytes_ahead info k byte_offset q"
  using mult_right_mono [OF assms(2,1)] by (simp add: bytes_ahead_def)

lemma bytes_ahead_playback:
  assumes "window_request info k byte_offset critical_bytes warm_bytes"
  shows "bytes_ahead info k byte_offset (piece_of info k byte_offset) = 0"
proof -
  have "piece_of info k byte_offset * ti_piece_length info \<le> ti_file_offset info k + byte_offset"
    using window_requestD(1) [OF assms] pos_mod_sign [of "ti_piece_length info" "ti_file_offset info k + byte_offset"]
    by (simp add: piece_of_def minus_mod_eq_div_mult [symmetric])
  then show ?thesis by (simp add: bytes_ahead_def)
qed

section \<open>The call\<close>

lemma jt_place_deadline:
  assumes "rounding rnd" and "0 < rate"
  shows "job_triple i (\<lambda>j m. X j m \<and> R () (j\<lparr>deadline_pieces := insert piece (deadline_pieces j)\<rparr>) m)
     (place_deadline E rnd i h info k byte_offset rate piece) R X"
  unfolding place_deadline_def deadline_ms_eq [OF assms(1) bytes_ahead_nonneg assms(2)] option.case
  by (rule jt_pre, (rule job_wp)+) auto

lemma jt_place_deadlines:
  assumes "rounding rnd" and "0 < rate"
  shows "job_triple i (\<lambda>j m. (\<forall>D. X (j\<lparr>deadline_pieces := D\<rparr>) m) \<and> R () (j\<lparr>deadline_pieces := set ps \<union> deadline_pieces j\<rparr>) m)
     (for_each ps (place_deadline E rnd i h info k byte_offset rate)) R X"
proof (induction ps)
  case Nil
  show ?case unfolding for_each.simps by (rule jt_pre, rule jt_return) simp
next
  case (Cons p ps)
  show ?case
    unfolding for_each.simps
  proof (rule jt_pre, rule jt_andthen, rule Cons.IH, rule jt_place_deadline [OF assms])
    fix j :: "'a job" and m
    assume pre: "(\<forall>D. X (j\<lparr>deadline_pieces := D\<rparr>) m) \<and> R () (j\<lparr>deadline_pieces := set (p # ps) \<union> deadline_pieces j\<rparr>) m"
    then have "X (j\<lparr>deadline_pieces := deadline_pieces j\<rparr>) m" by blast
    with pre show "X j m \<and> (\<forall>D. X (j\<lparr>deadline_pieces := insert p (deadline_pieces j)\<rparr>\<lparr>deadline_pieces := D\<rparr>) m)
        \<and> R () (j\<lparr>deadline_pieces := insert p (deadline_pieces j)\<rparr>
             \<lparr>deadline_pieces := set ps \<union> deadline_pieces (j\<lparr>deadline_pieces := insert p (deadline_pieces j)\<rparr>)\<rparr>) m"
      by simp
  qed
qed

lemma laid_outD: "laid_out E \<Longrightarrow> lt_torrent_file E h e = (Inr (Some info), e') \<Longrightarrow> wf_layout info"
  by (auto simp: laid_out_def)

lemma update_window_ok:
  assumes E: "lawful E" "laid_out E" and rnd: "rounding rnd"
  shows "hoare (session_inv W) (ltkit_session_update_streaming_window E rnd session identifier file_index byte_offset
    critical_bytes warm_bytes rate edges output) (\<lambda>_. session_inv W) X"
proof (cases "0 \<le> file_index \<and> 0 \<le> byte_offset \<and> 0 < critical_bytes \<and> critical_bytes \<le> warm_bytes \<and> 0 < rate")
  case True
  have win: "streaming_window info file_index byte_offset critical_bytes warm_bytes \<noteq> None"
    if "lt_torrent_file E h e = (Inr (Some info), e')" "file_index < ti_num_files info"
      "byte_offset < ti_file_size info file_index" for h e e' info
    using streaming_window_eq [of info file_index byte_offset critical_bytes warm_bytes] laid_outD [OF E(2) that(1)]
      that True by (simp add: window_request_def)
  show ?thesis
    unfolding ltkit_session_update_streaming_window_def update_window_def [abs_def] apply_window_def
    by (rule query_ok, rule jt_pre,
        (rule job_wp E jt_place_deadlines rnd True [THEN conjunct2, THEN conjunct2, THEN conjunct2, THEN conjunct2])+)
      (auto simp: reselected_simps dest: win)
next
  case False
  then show ?thesis
    by (auto simp: ltkit_session_update_streaming_window_def intro: hoare_return [where R = "\<lambda>_. session_inv W"])
qed

lemma jt_respond_ok:
  "job_triple i (\<lambda>j m. \<forall>r. (fst r = LTKIT_OK \<longrightarrow> snd r = Some
      \<lparr>buffer_data = (if source = [] then None else Some source), buffer_size = length source\<rparr>) \<longrightarrow> R r j m)
     (respond E source msg) R X"
  unfolding respond_def
  by (rule jt_pre, (rule job_wp)+)
    (auto simp: copy_buffer_def empty_buffer_def code_defs Let_def case_prod_beta split: if_splits)

lemma window_json_nonempty: "window_json k byte_offset win \<noteq> []"
  by (simp add: window_json_def)

text \<open>What a successful call has done.\<close>

definition window_applied ::
  "int \<Rightarrow> int \<Rightarrow> window \<Rightarrow> int \<times> ltkit_buffer option \<Rightarrow> 'h job \<Rightarrow> bool" where
  "window_applied k byte_offset win r v \<longleftrightarrow>
     deadline_pieces v = {win_playback win..win_critical win} \<and> primary_file v = k
     \<and> snd r = Some \<lparr>buffer_data = Some (window_json k byte_offset win),
         buffer_size = length (window_json k byte_offset win)\<rparr>"

lemma jt_apply_window:
  assumes "rounding rnd" and "0 < rate"
  shows "job_triple i (\<lambda>j m. (\<forall>j m. X j m) \<and> (\<forall>r j m. (fst r = LTKIT_OK \<longrightarrow> window_applied k byte_offset win r j) \<longrightarrow> R r j m))
    (apply_window E rnd i h info k byte_offset rate edges win) R X"
  unfolding apply_window_def
  by (rule jt_pre, (rule jt_andthen jt_set_job jt_engine jt_place_deadlines [OF assms] jt_respond_ok)+)
    (auto simp: window_applied_def window_json_nonempty)

text \<open>The window of a request, in the layout libtorrent reports for the torrent.\<close>

definition window_for :: "('h, 'e) env \<Rightarrow> 'h \<Rightarrow> int \<Rightarrow> int \<Rightarrow> int \<Rightarrow> int \<Rightarrow> window \<Rightarrow> bool" where
  "window_for E h k byte_offset critical_bytes warm_bytes win \<longleftrightarrow>
     (\<exists>info e e'. lt_torrent_file E h e = (Inr (Some info), e') \<and> window_request info k byte_offset critical_bytes warm_bytes
        \<and> streaming_window info k byte_offset critical_bytes warm_bytes = Some win)"

lemma jt_update_window:
  assumes E: "lawful E" "laid_out E" and rnd: "rounding rnd" "0 < rate"
    and args: "0 \<le> k" "0 \<le> byte_offset" "0 < critical_bytes" "critical_bytes \<le> warm_bytes"
  shows "job_triple i (\<lambda>j m. True) (update_window E rnd k byte_offset critical_bytes warm_bytes rate edges i v)
    (\<lambda>r j m. fst r = LTKIT_OK \<longrightarrow> k \<in> set (desired_files v) \<and> (\<exists>win.
        window_for E (handle v) k byte_offset critical_bytes warm_bytes win \<and> window_applied k byte_offset win r j))
    (\<lambda>j m. True)"
proof -
  have request: "streaming_window info k byte_offset critical_bytes warm_bytes = Some win
      \<Longrightarrow> window_for E h k byte_offset critical_bytes warm_bytes win"
    "streaming_window info k byte_offset critical_bytes warm_bytes \<noteq> None"
    if "lt_torrent_file E h e = (Inr (Some info), e')" "k < ti_num_files info" "byte_offset < ti_file_size info k"
    for h e e' info win
    using laid_outD [OF E(2) that(1)] that args streaming_window_eq [of info k byte_offset critical_bytes warm_bytes]
    unfolding window_for_def window_request_def by blast+
  show ?thesis
    unfolding update_window_def
    by (rule jt_pre, (rule jt_bind jt_case_option jt_if jt_andthen jt_engine jt_fail_with jt_undefined jt_apply_selection E
        jt_apply_window [OF rnd])+)
      (auto simp: code_defs dest: request)
qed

lemma run_active_out:
  assumes "guarded_out (with_active_out (Some i) body) w = (Ret (LTKIT_OK, out), w')"
  obtains v where "session_job w i = Some v" "\<not> stopped v" "body i v w = (Ret (LTKIT_OK, out), w')"
proof -
  from assms have "with_active_out (Some i) body w = (Ret (LTKIT_OK, out), w')"
    by (auto simp: guarded_with_def guarded_def fail_def set_error_def prog_defs code_defs
        split: prod.splits outcome.splits exn.splits)
  with that show ?thesis
    by (auto simp: with_active_out_def find_job_def bind_gets fail_with_def fail_def set_error_def prog_defs code_defs
        split: option.splits if_splits)
qed

section \<open>The plan in closed form\<close>

text \<open>The native window as a plan.\<close>

definition plan_of :: "window \<Rightarrow> PieceWindowPlan" where
  "plan_of win = \<lparr>firstPiece = win_first win, criticalLastPiece = win_critical win, warmLastPiece = win_warm win,
     playbackPiece = win_playback win\<rparr>"

lemma add64_within: "- (2 ^ 63) \<le> x + y \<Longrightarrow> x + y < 2 ^ 63 \<Longrightarrow> add64 x y = Some (x + y)"
  by (simp add: add64_def)

lemma plan_last_eq:
  assumes req: "window_request info k byte_offset critical_bytes warm_bytes" and "0 < bytes" "bytes < 2 ^ 63"
    and "ti_file_offset info k + ti_file_size info k < 2 ^ 63"
  shows "plan_last (ti_file_offset info k) (ti_file_size info k) (ti_piece_length info) byte_offset
      (piece_of info k (ti_file_size info k - 1)) (piece_of info k byte_offset) bytes
    = Some (piece_of info k (window_end (ti_file_size info k) byte_offset bytes))"
proof -
  let ?o = "ti_file_offset info k" and ?n = "ti_file_size info k" and ?e = "window_end (ti_file_size info k) byte_offset bytes"
  note reqD = window_requestD [OF req]
  have ends: "byte_offset \<le> ?e" "?e \<le> ?n - 1" using window_end_range [OF assms(2) reqD(8,9)] by simp_all
  have sums: "add64 ?n (-1) = Some (?n - 1)" "add64 (?n - 1) (- byte_offset) = Some (?n - 1 - byte_offset)"
    "add64 bytes (-1) = Some (bytes - 1)" "add64 byte_offset (min (?n - 1 - byte_offset) (bytes - 1)) = Some ?e"
    "add64 ?o ?e = Some (?o + ?e)"
    using reqD ends assms(2-4) by (simp_all add: add64_def window_end_def)
  have "(?o + ?e) sdiv ti_piece_length info = piece_of info k ?e"
    using reqD ends by (simp add: piece_of_def sdiv_nonneg)
  with sums ends piece_of_mono [OF reqD(1), of byte_offset ?e k] piece_of_mono [OF reqD(1), of ?e "?n - 1" k] show ?thesis
    by (simp add: plan_last_def)
qed

lemma plan_window:
  assumes req: "window_request info k byte_offset critical_bytes warm_bytes" and "0 < rate" and "warm_bytes < 2 ^ 63"
    and win: "streaming_window info k byte_offset critical_bytes warm_bytes = Some win"
  shows "PieceWindowPlan_make (ti_file_offset info k) (ti_file_size info k) (ti_piece_length info)
      byte_offset critical_bytes warm_bytes rate
    = (if ti_file_offset info k + ti_file_size info k = 2 ^ 63 then Plan_traps else Plan (plan_of win))"
proof -
  let ?o = "ti_file_offset info k" and ?n = "ti_file_size info k" and ?l = "ti_piece_length info"
  note reqD = window_requestD [OF req]
  show ?thesis
  proof (cases "?o + ?n = 2 ^ 63")
    case True
    then have "add64 ?o ?n = None" by (simp add: add64_def)
    with True reqD assms(2) show ?thesis by (simp add: PieceWindowPlan_make_def)
  next
    case False
    with reqD have total: "?o + ?n < 2 ^ 63" by linarith
    have piece: "(?o + p) sdiv ?l = piece_of info k p" if "0 \<le> p" for p
      using reqD that by (simp add: piece_of_def sdiv_nonneg)
    have first: "?o sdiv ?l = piece_of info k 0" using piece [of 0] by simp
    have last: "(?o + ?n - 1) sdiv ?l = piece_of info k (?n - 1)" using piece [of "?n - 1"] reqD by (simp add: algebra_simps)
    have sums: "add64 ?o ?n = Some (?o + ?n)" "add64 (?o + ?n) (-1) = Some (?o + ?n - 1)" "add64 ?o byte_offset = Some (?o + byte_offset)"
      using reqD total by (simp_all add: add64_def)
    note order = piece_of_mono [OF reqD(1), of 0 byte_offset k] piece_of_mono [OF reqD(1), of byte_offset "?n - 1" k]
    have plans: "plan_last ?o ?n ?l byte_offset (piece_of info k (?n - 1)) (piece_of info k byte_offset) bytes
      = Some (piece_of info k (window_end ?n byte_offset bytes))" if "bytes \<in> {critical_bytes, warm_bytes}" for bytes
      using plan_last_eq [OF req _ _ total] that reqD assms(3) by auto
    from False reqD assms(2) order win show ?thesis
      by (auto simp: PieceWindowPlan_make_def sums first last piece plans Let_def streaming_window_eq [OF req] plan_of_def)
  qed
qed

section \<open>Properties\<close>

text \<open>
  C16: On a file of a consistent layout the window is defined, no computation overflows, and its pieces
  are ordered: first piece of the file, playback, end of the critical part, end of the warm part, last
  piece of the file. The playback piece holds the requested byte, the critical pieces hold every byte of
  the critical buffer that lies in the file, and the warm pieces every byte of the warm buffer.
\<close>

theorem streaming_window_covers:
  assumes "window_request info k byte_offset critical_bytes warm_bytes"
  shows "\<exists>win. streaming_window info k byte_offset critical_bytes warm_bytes = Some win
    \<and> 0 \<le> win_first win \<and> win_first win \<le> win_playback win \<and> win_playback win \<le> win_critical win
    \<and> win_critical win \<le> win_warm win \<and> win_warm win \<le> win_last win \<and> win_last win < ti_num_pieces info
    \<and> win_playback win = piece_of info k byte_offset
    \<and> (\<forall>p\<in>{byte_offset..<min (byte_offset + critical_bytes) (ti_file_size info k)}.
         win_playback win \<le> piece_of info k p \<and> piece_of info k p \<le> win_critical win)
    \<and> (\<forall>p\<in>{byte_offset..<min (byte_offset + warm_bytes) (ti_file_size info k)}.
         win_playback win \<le> piece_of info k p \<and> piece_of info k p \<le> win_warm win)"
proof -
  note req = window_requestD [OF assms] and mono = piece_of_mono [OF window_requestD(1) [OF assms]]
  let ?c = "window_end (ti_file_size info k) byte_offset critical_bytes"
  let ?w = "window_end (ti_file_size info k) byte_offset warm_bytes"
  have ends: "byte_offset \<le> ?c" "?c \<le> ?w" "?w \<le> ti_file_size info k - 1"
    using req by (auto simp: window_end_def)
  have covers: "piece_of info k byte_offset \<le> piece_of info k p"
      "piece_of info k p \<le> piece_of info k (window_end (ti_file_size info k) byte_offset bytes)"
    if "p \<in> {byte_offset..<min (byte_offset + bytes) (ti_file_size info k)}" for p bytes
    using that by (auto simp: window_end_def intro!: mono)
  show ?thesis
    unfolding streaming_window_eq [OF assms]
    using req ends piece_of_range(1) [OF assms, of 0] covers by (auto intro!: mono)
qed

text \<open>
  C19: The deadlines of the pieces of a window fit an \<open>int\<close>, are at least 100 ms and never decrease from
  one piece to a later one, whatever the width of \<open>long double\<close>; the piece being played has a deadline of
  exactly 100 ms.
\<close>

theorem streaming_deadlines_ordered:
  assumes "window_request info k byte_offset critical_bytes warm_bytes" and "rounding rnd" and "0 < rate" and "p \<le> q"
  shows "(\<exists>d d'. deadline_ms rnd (bytes_ahead info k byte_offset p) rate = Some d
      \<and> deadline_ms rnd (bytes_ahead info k byte_offset q) rate = Some d'
      \<and> 100 \<le> d \<and> d \<le> d' \<and> d' \<le> int_max)
    \<and> deadline_ms rnd (bytes_ahead info k byte_offset (piece_of info k byte_offset)) rate = Some 100"
proof -
  let ?d = "\<lambda>p. deadline_value rnd (bytes_ahead info k byte_offset p) rate"
  note ms = deadline_ms_eq [OF assms(2) bytes_ahead_nonneg assms(3)]
  have "100 \<le> ?d p" by (rule deadline_value_bounds [OF assms(2) bytes_ahead_nonneg assms(3)])
  then have low: "100 \<le> \<lfloor>?d p\<rfloor>" by (simp add: le_floor_iff)
  have "?d p \<le> ?d q"
    using window_requestD(1) [OF assms(1)] assms(4) by (intro deadline_value_mono assms(2,3) bytes_ahead_mono) auto
  then have "\<lfloor>?d p\<rfloor> \<le> \<lfloor>?d q\<rfloor>" by (rule floor_mono)
  with low have "\<exists>d d'. deadline_ms rnd (bytes_ahead info k byte_offset p) rate = Some d
      \<and> deadline_ms rnd (bytes_ahead info k byte_offset q) rate = Some d'
      \<and> 100 \<le> d \<and> d \<le> d' \<and> d' \<le> int_max"
    unfolding ms by (auto simp: int_max_def)
  moreover have "deadline_value rnd 0 rate = 100"
    using rounding_of_int [OF assms(2), of 0] rounding_of_int [OF assms(2), of 100] by (simp add: deadline_value_def)
  ultimately show ?thesis
    using deadline_ms_eq [OF assms(2) _ assms(3), of 0] by (simp add: bytes_ahead_playback [OF assms(1)] int_max_def)
qed

text \<open>
  C30: When the call returns \<open>LTKIT_OK\<close>, the torrent was active and the file selected, the response is the
  JSON document of the window, the torrent's deadline pieces are exactly the pieces from playback to the end
  of the critical part, and the file is now the primary one.
\<close>

theorem streaming_window_applied:
  assumes "lawful E" and "laid_out E" and "rounding rnd" and "session_inv W w"
    and run: "ltkit_session_update_streaming_window E rnd session (Some i) k byte_offset critical_bytes warm_bytes rate
      edges output w = (Ret (LTKIT_OK, out), w')"
  shows "\<exists>v win v'. session_job w i = Some v \<and> \<not> stopped v \<and> k \<in> set (desired_files v)
    \<and> window_for E (handle v) k byte_offset critical_bytes warm_bytes win
    \<and> session_job w' i = Some v' \<and> window_applied k byte_offset win (LTKIT_OK, out) v'"
proof -
  from run have args: "0 \<le> k" "0 \<le> byte_offset" "0 < critical_bytes" "critical_bytes \<le> warm_bytes" and rate: "0 < rate"
    and "guarded_out (with_active_out (Some i) (update_window E rnd k byte_offset critical_bytes warm_bytes rate edges)) w
       = (Ret (LTKIT_OK, out), w')"
    by (auto simp: ltkit_session_update_streaming_window_def prog_defs code_defs split: if_splits)
  then obtain v where v: "session_job w i = Some v" "\<not> stopped v"
    and body: "update_window E rnd k byte_offset critical_bytes warm_bytes rate edges i v w = (Ret (LTKIT_OK, out), w')"
    by (auto elim: run_active_out)
  from job_triple_run [OF jt_update_window [OF assms(1,2,3) rate args, of i edges v] assms(4) v(1)] body v
  show ?thesis by (auto simp: focus_def) blast
qed

section \<open>Witnesses\<close>

lemma sample_layout: "wf_layout sample_info"
  by (auto simp: wf_layout_def int_max_def)

lemma sample_request: "window_request sample_info 0 1 2 3"
  using sample_layout by (simp add: window_request_def)

lemma exact_rounding: "rounding (\<lambda>x. x)"
  by (simp add: rounding_def mono_def)

theorem streaming_window_covers_witness:
  "streaming_window sample_info 0 1 2 3 = Some \<lparr>win_first = 0, win_last = 2, win_playback = 0, win_critical = 1, win_warm = 1\<rparr>
   \<and> piece_of sample_info 0 1 = 0 \<and> piece_of sample_info 0 2 \<le> 1"
  using streaming_window_covers [OF sample_request] streaming_window_eq [OF sample_request]
  by (simp add: piece_of_def window_end_def)

theorem streaming_deadlines_ordered_witness:
  "deadline_ms (\<lambda>x. x) (bytes_ahead sample_info 0 1 0) 10 = Some 100
   \<and> (\<exists>d. deadline_ms (\<lambda>x. x) (bytes_ahead sample_info 0 1 1) 10 = Some d \<and> 100 \<le> d)"
  using streaming_deadlines_ordered [OF sample_request exact_rounding, of 10 0 1]
  by (auto simp: piece_of_def)

lemma sample_laid_out: "laid_out sample_env"
  using sample_layout by (simp add: laid_out_def)

lemma sample_stream_run:
  "case fst (ltkit_session_update_streaming_window sample_env (\<lambda>x. x) True (Some ''t'') 0 1 2 3 10 True True sample_session)
   of Ret (code, out) \<Rightarrow> code = LTKIT_OK | _ \<Rightarrow> False"
  by code_simp

theorem streaming_window_applied_witness:
  "\<exists>out w' win v'. ltkit_session_update_streaming_window sample_env (\<lambda>x. x) True (Some ''t'') 0 1 2 3 10 True True sample_session
       = (Ret (LTKIT_OK, out), w')
     \<and> window_for sample_env 1 0 1 2 3 win \<and> session_job w' ''t'' = Some v' \<and> window_applied 0 1 win (LTKIT_OK, out) v'"
proof -
  obtain out w' where run: "ltkit_session_update_streaming_window sample_env (\<lambda>x. x) True (Some ''t'') 0 1 2 3 10 True True
      sample_session = (Ret (LTKIT_OK, out), w')"
    using sample_stream_run
    by (cases "ltkit_session_update_streaming_window sample_env (\<lambda>x. x) True (Some ''t'') 0 1 2 3 10 True True sample_session")
      (auto split: outcome.splits)
  have "session_job sample_session ''t'' = Some sample_job" "handle sample_job = 1"
    by (simp_all add: sample_session_def sample_job_def new_job_def)
  with streaming_window_applied [OF sample_lawful sample_laid_out exact_rounding sample_session_inv run] run
  show ?thesis by auto
qed

end
