(* ===== verification/Session_Machine.thy ===== *)
theory Session_Machine
  imports Streaming
begin

text \<open>
  The session as a state machine. Callers' threads and the alert thread interleave between the points
  where the session mutex is free: every step of \<open>session_step\<close> is one critical section. A state is a
  session together with the set of torrents whose checkpoint somebody has claimed.

  A call that waits is cut at \<open>condition.wait_for\<close>, which frees the mutex. The part of
  \<open>ltkit_session_metadata\<close> and \<open>ltkit_session_next_event\<close> before the wait changes nothing
  (\<open>metadata_cut\<close>, \<open>next_event_cut\<close>), so only the part after it is a step; \<open>ltkit_session_checkpoint\<close> is
  two steps (\<open>checkpoint_cut\<close>). \<open>ltkit_session_destroy\<close> sets its flag in one critical section; the
  \<open>abort()\<close> after it is a change of the engine.
\<close>

section \<open>Calls\<close>

datatype api_call =
    Add add_request
  | Metadata string
  | Metadata_woken string "64 word" bool
  | Select_files "string option" "int c_array" int
  | Set_file_priority "string option" int nat
  | Set_piece_priority "string option" int nat
  | Start "string option"
  | Pause "string option"
  | Status "string option"
  | Pieces "string option"
  | Piece_completion "string option"
  | Update_window "string option" int int int int int bool
  | Clear_window "string option"
  | Remove "string option" bool
  | Next_event "string list"
  | Take_last_error

definition code_of :: "('h, 'e, int \<times> 'a) session_prog \<Rightarrow> ('h, 'e, int) session_prog" where
  "code_of p = bind p (\<lambda>r. return (fst r))"

fun run_call :: "('h, 'e) env \<Rightarrow> (rat \<Rightarrow> rat) \<Rightarrow> api_call \<Rightarrow> ('h, 'e, int) session_prog" where
  "run_call E rnd (Add rq) = ltkit_session_add E True rq"
| "run_call E rnd (Metadata i) = code_of (ltkit_session_metadata E id True (Some i) 0 True)"
| "run_call E rnd (Metadata_woken i g ready) = code_of (guarded_out (metadata_resume E i g ready))"
| "run_call E rnd (Select_files i indexes primary) = ltkit_session_select_files E True i indexes primary"
| "run_call E rnd (Set_file_priority i k p) = ltkit_session_set_file_priority E True i k p"
| "run_call E rnd (Set_piece_priority i k p) = ltkit_session_set_piece_priority E True i k p"
| "run_call E rnd (Start i) = ltkit_session_start E True i"
| "run_call E rnd (Pause i) = ltkit_session_pause E True i"
| "run_call E rnd (Status i) = code_of (ltkit_session_status E True i True)"
| "run_call E rnd (Pieces i) = code_of (ltkit_session_pieces E True i True)"
| "run_call E rnd (Piece_completion i) = code_of (ltkit_session_piece_completion E True i True True)"
| "run_call E rnd (Update_window i k off critical_bytes warm_bytes rate edges) =
     code_of (ltkit_session_update_streaming_window E rnd True i k off critical_bytes warm_bytes rate edges True)"
| "run_call E rnd (Clear_window i) = ltkit_session_clear_streaming_window E True i"
| "run_call E rnd (Remove i delete_files) = ltkit_session_remove E True i delete_files"
| "run_call E rnd (Next_event ks) = code_of (ltkit_session_next_event E (\<lambda>_. ks) id True 0 True)"
| "run_call E rnd Take_last_error = code_of (ltkit_session_take_last_error E True True)"

fun call_ok :: "api_call \<Rightarrow> bool" where
  "call_ok (Add rq) = resume_readable rq"
| "call_ok _ = True"

section \<open>Steps\<close>

inductive session_step ::
  "('h, 'e) env \<Rightarrow> (rat \<Rightarrow> rat) \<Rightarrow> string set \<times> ('h, 'e) ltkit_session \<Rightarrow> string set \<times> ('h, 'e) ltkit_session \<Rightarrow> bool"
  for E rnd where
  step_engine: "session_step E rnd (W, w) (W, w\<lparr>engine := e\<rparr>)"
| step_alerts: "alert_batch E ks batch w = (Ret again, w') \<Longrightarrow> session_step E rnd (W, w) (W, w')"
| step_call: "call_ok c \<Longrightarrow> run_call E rnd c w = (Ret code, w') \<Longrightarrow> session_step E rnd (W, w) (W, w')"
| step_wake: "ltkit_session_wake True w = (Ret u, w') \<Longrightarrow> session_step E rnd (W, w) (W, w')"
| step_shutdown: "\<not> shutting_down w \<Longrightarrow>
    session_step E rnd (W, w) (W, w\<lparr>shutting_down := True, notified := Suc (notified w)\<rparr>)"
| step_answered: "checkpoint_request E i flush w = (Ret (Answer a), w') \<Longrightarrow> session_step E rnd (W, w) (W, w')"
| step_waits: "checkpoint_request E i flush w = (Ret (Wait g), w') \<Longrightarrow> session_step E rnd (W, w) (insert i W, w')"
| step_throws: "checkpoint_request E i flush w = (Throw x, w') \<Longrightarrow> guarded (throw x) w' = (r, w'')
    \<Longrightarrow> session_step E rnd (W, w) (insert i W, w'')"
| step_returns: "i \<in> W \<Longrightarrow> guarded_out (checkpoint_finish E i g completed) w = (Ret a, w')
    \<Longrightarrow> session_step E rnd (W, w) (W - {i}, w')"

definition session_reachable ::
  "('h, 'e) env \<Rightarrow> (rat \<Rightarrow> rat) \<Rightarrow> string set \<Rightarrow> ('h, 'e) ltkit_session \<Rightarrow> bool" where
  "session_reachable E rnd W w \<longleftrightarrow> (\<exists>e. (session_step E rnd)\<^sup>*\<^sup>* ({}, new_session e) (W, w))"

inductive_cases session_stepE: "session_step E rnd (W, w) s"

section \<open>Every step keeps the session invariant\<close>

lemma session_inv_new: "session_inv {} (new_session e)"
proof -
  have "job_at empty_mailbox k = None" for k by (simp add: empty_mailbox_def)
  then show ?thesis by (simp add: session_inv_def new_session_def admitted_def inv_empty_mailbox)
qed

lemma hoare_code_of:
  "hoare P p (\<lambda>_. R) X \<Longrightarrow> hoare P (code_of p) (\<lambda>_. R) X"
  unfolding code_of_def by (rule hoare_bind [OF hoare_return [where R = "\<lambda>_. R"]])

text \<open>The hypotheses on the code outside the repository, together.\<close>

definition sound_engine :: "('h, 'e) env \<Rightarrow> (rat \<Rightarrow> rat) \<Rightarrow> bool" where
  "sound_engine E rnd \<longleftrightarrow> lawful E \<and> laid_out E \<and> rounding rnd"

lemma run_call_ok:
  assumes "sound_engine E rnd" and "call_ok c"
  shows "hoare (session_inv W) (run_call E rnd c) (\<lambda>_. session_inv W) X"
proof (cases c)
  case (Metadata_woken i g ready)
  have "hoare (session_inv W) (guarded_out (metadata_resume E i g ready)) (\<lambda>_. session_inv W) X"
    by (rule hoare_guarded_with [OF metadata_resume_ok])
  with Metadata_woken show ?thesis by (simp add: hoare_code_of)
qed (use assms in \<open>auto simp: sound_engine_def intro!: hoare_code_of intro: add_ok metadata_ok select_files_ok
    set_file_priority_ok set_piece_priority_ok start_ok pause_ok status_ok pieces_ok piece_completion_ok update_window_ok
    clear_window_ok remove_ok next_event_ok take_last_error_ok\<close>)

lemma alert_batch_inv:
  assumes "lawful E" and "session_inv W w" and "alert_batch E ks batch w = (Ret again, w')"
  shows "session_inv W w'"
  using hoare_alerts [OF assms(1), of W batch ks] assms(2,3)
  by (auto simp: alert_batch_def hoare_def split: prod.splits outcome.splits if_splits)

lemma guarded_throw_inv: "guarded (throw x) w = (r, w') \<Longrightarrow> session_inv W w' = session_inv W w"
  by (auto simp: guarded_def fail_def set_error_def prog_defs split: exn.splits)

lemma checkpoint_return_inv:
  assumes "i \<in> W" and "session_inv W w" and "guarded_out (checkpoint_finish E i g completed) w = (Ret a, w')"
  shows "session_inv (W - {i}) w'"
proof -
  obtain r w1 where run: "checkpoint_finish E i g completed w = (r, w1)" by fastforce
  with checkpoint_finish_ok [OF assms(1), of E g completed] assms(2)
  have "case r of Crash c \<Rightarrow> c \<noteq> Undefined_behaviour | _ \<Rightarrow> session_inv (W - {i}) w1"
    by (auto simp: hoare_def split: outcome.splits)
  with run assms(3) show ?thesis
    by (auto simp: guarded_with_def guarded_def fail_def set_error_def prog_defs split: outcome.splits exn.splits)
qed

lemma session_step_inv:
  assumes "sound_engine E rnd" and "session_inv W w" and "session_step E rnd (W, w) (W', w')"
  shows "session_inv W' w'"
  using assms(3)
proof cases
  case (step_alerts ks batch again)
  with assms show ?thesis by (auto simp: sound_engine_def intro: alert_batch_inv)
next
  case (step_call c code)
  with hoare_RetD [OF run_call_ok [OF assms(1), of c W] assms(2)] show ?thesis by simp
next
  case (step_wake u)
  with hoare_RetD [OF wake_ok assms(2)] show ?thesis by simp
next
  case (step_answered i flush a)
  with hoare_RetD [OF checkpoint_request_ok assms(2)] show ?thesis by fastforce
next
  case (step_waits i flush g)
  with hoare_RetD [OF checkpoint_request_ok assms(2)] show ?thesis by fastforce
next
  case (step_throws i flush x w1 r)
  with hoare_ThrowD [OF checkpoint_request_ok assms(2)] guarded_throw_inv show ?thesis by blast
next
  case (step_returns i g completed a)
  with checkpoint_return_inv [OF _ assms(2)] show ?thesis by simp
qed (use assms(2) in simp_all)

interpretation session: inductive_invariant "\<lambda>s. \<exists>e. s = ({}, new_session e)" "session_step E rnd"
  "\<lambda>(W, w). sound_engine E rnd \<longrightarrow> session_inv W w" for E :: "('h, 'e) env" and rnd
  by unfold_locales (auto simp: session_inv_new intro: session_step_inv)

lemma reachable_inv: "session_reachable E rnd W w \<Longrightarrow> sound_engine E rnd \<Longrightarrow> session_inv W w"
  using session.reachable_good [of _ E rnd "(W, w)"] unfolding session_reachable_def by blast

lemma step_reachable: "session_reachable E rnd W w \<Longrightarrow> session_step E rnd (W, w) (W', w') \<Longrightarrow> session_reachable E rnd W' w'"
  unfolding session_reachable_def by (blast intro: rtranclp.rtrancl_into_rtrancl)

lemma steps_reachable:
  "session_reachable E rnd W w \<Longrightarrow> (session_step E rnd)\<^sup>*\<^sup>* (W, w) (W', w') \<Longrightarrow> session_reachable E rnd W' w'"
  unfolding session_reachable_def by (blast intro: rtranclp_trans)

section \<open>Where the waiting calls are cut\<close>

lemma metadata_cut:
  assumes "0 \<le> timeout_ms" and "session_job w i = Some v" and "\<not> stopped v" and "\<not> metadata_ready v"
  shows "ltkit_session_metadata E between True (Some i) timeout_ms True w
    = (let g = wake_generation w; w' = (if shutting_down w then w else between w)
       in guarded_out (metadata_resume E i g (metadata_woken i g w')) w')"
  using assms by (simp add: ltkit_session_metadata_def guarded_with_def metadata_request_def find_job_def bind_gets
      wait_for_def bind_def return_def gets_def metadata_woken_def Let_def)

lemma metadata_uncut:
  assumes "0 \<le> timeout_ms" and "\<And>v. session_job w i = Some v \<Longrightarrow> stopped v \<or> metadata_ready v"
  shows "ltkit_session_metadata E between True (Some i) timeout_ms True w
    = ltkit_session_metadata E id True (Some i) 0 True w"
proof -
  have "metadata_request E i w \<noteq> (Ret (Some (Wait g)), w')" for g w'
    using assms(2) by (cases "session_job w i")
      (auto simp: metadata_request_def find_job_def bind_def gets_def return_def split: prod.splits outcome.splits if_splits)
  with assms(1) show ?thesis
    by (auto simp: ltkit_session_metadata_def guarded_with_def bind_def split: prod.splits outcome.splits option.splits request.splits)
qed

lemma next_event_cut:
  assumes "0 \<le> timeout_ms"
  shows "ltkit_session_next_event E order between True timeout_ms True w
    = ltkit_session_next_event E order id True 0 True
        (if mailbox_front (order w) (events w) = None \<and> \<not> shutting_down w then between w else w)"
  using assms by (auto simp: ltkit_session_next_event_def guarded_with_def bind_gets wait_for_def event_woken_def
      andthen_def bind_def return_def gets_def)

lemma checkpoint_cut:
  assumes "0 < timeout_ms"
  shows "ltkit_session_checkpoint E between True (Some i) flush timeout_ms True w
    = (case checkpoint_request E i flush w of
         (Ret (Answer a), w1) \<Rightarrow> (Ret a, w1)
       | (Ret (Wait g), w1) \<Rightarrow>
           (let w2 = (if checkpoint_woken i g w1 then w1 else between w1)
            in guarded_out (checkpoint_finish E i g (checkpoint_woken i g w2)) w2)
       | (Throw x, w1) \<Rightarrow> bind (guarded (throw x)) (\<lambda>c. return (c, None)) w1
       | (Crash c, w1) \<Rightarrow> (Crash c, w1))"
  using assms by (auto simp: ltkit_session_checkpoint_def guarded_with_def wait_for_def bind_def return_def Let_def
      split: prod.splits outcome.splits request.splits)

lemma destroy_cut:
  "snd (ltkit_session_destroy E True w) = (if shutting_down w then w
     else w\<lparr>shutting_down := True, notified := Suc (notified w),
            engine := engine (snd (ltkit_session_destroy E True w))\<rparr>)"
  by (auto simp: ltkit_session_destroy_def prog_defs notify_all_def engine_call_def split: prod.splits sum.splits)

section \<open>How a call can end\<close>

text \<open>
  \<open>ends Q p\<close>: a value \<open>p\<close> returns satisfies \<open>Q\<close>, and \<open>p\<close> ends the process only by undefined behaviour.
\<close>

definition ends :: "('a \<Rightarrow> bool) \<Rightarrow> ('w, 'a) prog \<Rightarrow> bool" where
  "ends Q p \<longleftrightarrow> (\<forall>w. case fst (p w) of Ret x \<Rightarrow> Q x | Throw _ \<Rightarrow> True | Crash c \<Rightarrow> c = Undefined_behaviour)"

lemma endsI:
  assumes "\<And>w x w'. p w = (Ret x, w') \<Longrightarrow> Q x" and "\<And>w c w'. p w = (Crash c, w') \<Longrightarrow> c = Undefined_behaviour"
  shows "ends Q p"
  unfolding ends_def
proof
  fix w show "case fst (p w) of Ret x \<Rightarrow> Q x | Throw _ \<Rightarrow> True | Crash c \<Rightarrow> c = Undefined_behaviour"
    using assms by (cases "p w") (auto split: outcome.splits)
qed

lemma endsD:
  "ends Q p \<Longrightarrow> p w = (Ret x, w') \<Longrightarrow> Q x"
  "ends Q p \<Longrightarrow> p w = (Crash c, w') \<Longrightarrow> c = Undefined_behaviour"
  unfolding ends_def by (erule allE [of _ w], simp)+

lemma ends_return: "Q x \<Longrightarrow> ends Q (return x)"
  by (simp add: ends_def return_def)

lemma ends_bind:
  assumes "ends (\<lambda>x. ends Q (f x)) p"
  shows "ends Q (bind p f)"
  by (rule endsI) (auto simp: bind_def split: prod.splits outcome.splits dest: endsD(2) [OF assms]
      dest!: endsD(1) [OF assms] dest: endsD [of Q])

lemma ends_andthen: "ends (\<lambda>_. ends Q q) p \<Longrightarrow> ends Q (andthen p q)"
  unfolding andthen_def by (rule ends_bind)

lemma ends_if: "(b \<Longrightarrow> ends Q p) \<Longrightarrow> (\<not> b \<Longrightarrow> ends Q q) \<Longrightarrow> ends Q (if b then p else q)"
  by simp

lemma ends_case_option:
  "ends Q p \<Longrightarrow> (\<And>x. v = Some x \<Longrightarrow> ends Q (f x)) \<Longrightarrow> ends Q (case v of None \<Rightarrow> p | Some x \<Rightarrow> f x)"
  by (cases v) auto

lemma ends_case_prod: "(\<And>a b. ends Q (f a b)) \<Longrightarrow> ends Q (case v of (a, b) \<Rightarrow> f a b)"
  by (cases v) auto

lemma ends_let: "ends Q (f v) \<Longrightarrow> ends Q (let x = v in f x)"
  by simp

lemma ends_undefined: "ends Q (crash Undefined_behaviour)"
  by (simp add: ends_def crash_def)

lemma ends_gets: "(\<And>x. Q x) \<Longrightarrow> ends Q (gets f)"
  by (simp add: ends_def gets_def)

lemma ends_modify: "Q () \<Longrightarrow> ends Q (modify f)"
  by (simp add: ends_def modify_def)

lemma ends_engine: "(\<And>x. Q x) \<Longrightarrow> ends Q (engine_call c)"
  by (auto simp: ends_def engine_call_def split: prod.splits sum.splits)

lemma ends_system: "(\<And>x. Q x) \<Longrightarrow> ends Q (system_call c)"
  by (simp add: ends_def system_call_def split: prod.splits)

lemma ends_the_job: "(\<And>x. Q x) \<Longrightarrow> ends Q (the_job i)"
  by (auto simp: ends_def the_job_def split: option.splits)

lemma ends_set_job: "Q () \<Longrightarrow> ends Q (set_job i f)"
  by (auto simp: ends_def set_job_def split: option.splits)

lemma ends_notify: "Q () \<Longrightarrow> ends Q notify_all"
  unfolding notify_all_def by (rule ends_modify)

lemma ends_find_job: "(\<And>x. Q x) \<Longrightarrow> ends Q (find_job i)"
  unfolding find_job_def by (rule ends_gets)

lemma ends_fail: "Q code \<Longrightarrow> ends Q (fail code msg)"
  unfolding fail_def set_error_def by (intro ends_andthen ends_modify ends_return)

lemma ends_wait_for: "(\<And>x. Q x) \<Longrightarrow> ends Q (wait_for between ready)"
  by (simp add: ends_def wait_for_def)

lemmas ends_intros = ends_return ends_bind ends_andthen ends_if ends_case_option ends_case_prod ends_let ends_undefined
  ends_gets ends_modify ends_engine ends_system ends_the_job ends_set_job ends_notify ends_find_job ends_fail ends_wait_for

lemma ends_fail_with: "Q (code, None) \<Longrightarrow> ends Q (fail_with code msg)"
  unfolding fail_with_def by (intro ends_intros)

lemma ends_respond: "(\<And>b. Q (LTKIT_OK, b)) \<Longrightarrow> (\<And>b. Q (LTKIT_ERROR_ALLOCATION_LIMIT, b)) \<Longrightarrow> ends Q (respond E source msg)"
  unfolding respond_def by (intro ends_intros)

lemma ends_map_each:
  assumes "\<And>x R. (\<And>y. R y) \<Longrightarrow> ends R (f x)" and "\<And>ys. Q ys"
  shows "ends Q (map_each xs f)"
  using assms(2)
proof (induction xs arbitrary: Q)
  case (Cons x xs)
  show ?case
    unfolding map_each.simps by (intro ends_intros assms(1) Cons.IH) (rule Cons.prems)
qed (simp add: ends_return)

lemma ends_for_each:
  assumes "\<And>x R. R () \<Longrightarrow> ends R (f x)" and "Q ()"
  shows "ends Q (for_each xs f)"
  by (induction xs) (auto intro!: ends_intros assms)

lemma ends_collect_bits: "(\<And>bits. Q bits) \<Longrightarrow> ends Q (collect_bits E h ks bits)"
  by (induction ks arbitrary: bits) (auto intro!: ends_intros)

lemma ends_apply_selection: "(\<And>b. Q b) \<Longrightarrow> ends Q (apply_selection E i)"
  unfolding apply_selection_def by (intro ends_intros) auto

lemma ends_metadata_json: "(\<And>r. Q r) \<Longrightarrow> ends Q (metadata_json E i)"
  unfolding metadata_json_def by (intro ends_intros) auto

lemma ends_place_deadline: "Q () \<Longrightarrow> ends Q (place_deadline E rnd i h info k byte_offset rate piece)"
  unfolding place_deadline_def by (intro ends_intros) auto

lemma ends_guarded_with:
  assumes "ends Q p" and "\<And>code. 0 \<le> code \<Longrightarrow> code \<le> 16 \<Longrightarrow> Q (written code)"
  shows "ends Q (guarded_with written p)"
  by (rule endsI) (auto simp: guarded_with_def guarded_def fail_def set_error_def prog_defs code_defs
      split: prod.splits outcome.splits exn.splits intro: assms(2) dest: endsD [OF assms(1)])

text \<open>Release builds: no assertion can fail.\<close>

lemma ends_mailbox_add: "\<not> dbg \<Longrightarrow> Q () \<Longrightarrow> ends Q (mailbox_call (mailbox_add dbg i))"
  by (simp add: ends_def mailbox_call_def mailbox_add_def)

lemma ends_critical: "\<not> dbg \<Longrightarrow> Q () \<Longrightarrow> ends Q (mailbox_call (critical dbg i kind json))"
  by (auto simp: ends_def mailbox_call_def critical_def push_critical_def check_assert_def prog_defs Let_def
      split: prod.splits option.splits outcome.splits if_splits)

lemma ends_pop: "Q () \<Longrightarrow> ends Q (mailbox_call (mailbox_pop ks))"
  by (auto simp: ends_def mailbox_call_def mailbox_pop_def Let_def split: prod.splits option.splits list.splits)

text \<open>The codes the header declares.\<close>

definition declared :: "int \<Rightarrow> bool" where
  "declared code \<longleftrightarrow> 0 \<le> code \<and> code \<le> 16"

lemma declared_codes [simp]:
  "declared LTKIT_OK" "declared LTKIT_ERROR_UNKNOWN" "declared LTKIT_ERROR_INVALID_ARGUMENT"
  "declared LTKIT_ERROR_INVALID_SOURCE" "declared LTKIT_ERROR_INVALID_IDENTIFIER"
  "declared LTKIT_ERROR_DUPLICATE_IDENTIFIER" "declared LTKIT_ERROR_METADATA_UNAVAILABLE"
  "declared LTKIT_ERROR_INVALID_FILE_INDEX" "declared LTKIT_ERROR_INVALID_PIECE_INDEX"
  "declared LTKIT_ERROR_INVALID_OFFSET" "declared LTKIT_ERROR_CORRUPT_RESUME_DATA"
  "declared LTKIT_ERROR_TIMED_OUT" "declared LTKIT_ERROR_NATIVE_FAILURE" "declared LTKIT_ERROR_SESSION_SHUT_DOWN"
  "declared LTKIT_ERROR_ALLOCATION_LIMIT" "declared LTKIT_ERROR_PATH_VIOLATION" "declared LTKIT_ERROR_COMPLETION_FAILED"
  by (simp_all add: declared_def code_defs)

lemma ends_guarded: "ends declared p \<Longrightarrow> ends declared (guarded p)"
  by (rule endsI) (auto simp: guarded_def fail_def set_error_def prog_defs
      split: prod.splits outcome.splits exn.splits dest: endsD)

lemma ends_guarded_out: "ends (\<lambda>r. declared (fst r)) p \<Longrightarrow> ends (\<lambda>r. declared (fst r)) (guarded_with (\<lambda>c. (c, out)) p)"
  by (rule ends_guarded_with) (simp_all add: declared_def)

lemma ends_code_of: "ends (\<lambda>r. declared (fst r)) p \<Longrightarrow> ends declared (code_of p)"
  unfolding code_of_def by (rule endsI) (auto simp: prog_defs split: prod.splits outcome.splits dest: endsD)

lemmas ends_calls = ends_fail_with ends_respond ends_map_each ends_for_each ends_collect_bits ends_apply_selection
  ends_metadata_json ends_place_deadline

lemma ends_add: "\<not> asserts E \<Longrightarrow> ends declared (ltkit_session_add E session rq)"
  unfolding ltkit_session_add_def add_admitted_def add_parsed_def register_torrent_def parse_source_def read_resume_def
    enqueue_def
  by (intro ends_intros ends_guarded ends_mailbox_add ends_critical) simp_all

lemma ends_active_job: "(\<And>i v. ends declared (body i v)) \<Longrightarrow> ends declared (with_active_job identifier body)"
  unfolding with_active_job_def by (intro ends_intros) auto

lemma ends_active_out:
  "(\<And>i v. ends (\<lambda>r. declared (fst r)) (body i v)) \<Longrightarrow> ends (\<lambda>r. declared (fst r)) (with_active_out identifier body)"
  unfolding with_active_out_def by (intro ends_intros ends_calls) auto

lemma ends_metadata_answer: "ends (\<lambda>r. declared (fst r)) (metadata_answer E i)"
  unfolding metadata_answer_def by (intro ends_intros ends_calls) auto

lemma ends_metadata_resume: "ends (\<lambda>r. declared (fst r)) (metadata_resume E i g ready)"
  unfolding metadata_resume_def by (intro ends_intros ends_calls ends_metadata_answer) auto

lemma ends_metadata: "ends (\<lambda>r. declared (fst r)) (ltkit_session_metadata E between session identifier timeout_ms output)"
proof -
  have "ends (\<lambda>r. ends (\<lambda>r. declared (fst r)) (case r of None \<Rightarrow> metadata_answer E i
      | Some r \<Rightarrow> (case r of Answer a \<Rightarrow> return a
        | Wait g \<Rightarrow> bind (wait_for between (metadata_woken i g)) (metadata_resume E i g)))) (metadata_request E i)" for i
    unfolding metadata_request_def
    by (intro ends_intros ends_calls) (auto intro!: ends_intros ends_metadata_answer ends_metadata_resume)
  then show ?thesis
    unfolding ltkit_session_metadata_def by (intro ends_intros ends_guarded_out) auto
qed

lemma ends_update_window:
  "ends (\<lambda>r. declared (fst r)) (update_window E rnd k byte_offset critical_bytes warm_bytes rate edges i v)"
  unfolding update_window_def apply_window_def by (intro ends_intros ends_calls) auto

lemma ends_piece_completion:
  "ends (\<lambda>r. declared (fst r)) (ltkit_session_piece_completion E session identifier count output)"
  unfolding ltkit_session_piece_completion_def piece_completion_query_def split_def
  by (intro ends_intros ends_guarded_out ends_calls) auto

lemma ends_next_event: "ends (\<lambda>r. declared (fst r)) (ltkit_session_next_event E order between session timeout_ms output)"
  unfolding ltkit_session_next_event_def by (intro ends_intros ends_guarded_out ends_pop) auto

lemma run_call_ends:
  assumes "\<not> asserts E"
  shows "ends declared (run_call E rnd c)"
proof (cases c)
  case (Add rq)
  with assms show ?thesis by (simp add: ends_add)
qed (auto simp: ltkit_session_select_files_def ltkit_session_set_file_priority_def ltkit_session_set_piece_priority_def
    ltkit_session_start_def ltkit_session_pause_def ltkit_session_status_def ltkit_session_pieces_def
    ltkit_session_update_streaming_window_def ltkit_session_clear_streaming_window_def ltkit_session_remove_def
    ltkit_session_take_last_error_def Let_def
    intro!: ends_intros ends_calls ends_code_of ends_guarded ends_guarded_out ends_active_job ends_active_out ends_metadata
    ends_metadata_resume ends_update_window ends_piece_completion ends_next_event)

text \<open>A critical section returns a declared code, in a build without assertions.\<close>

lemma run_call_declared:
  assumes "sound_engine E rnd" and "session_reachable E rnd W w" and "call_ok c" and "\<not> asserts E"
  shows "\<exists>code w'. run_call E rnd c w = (Ret code, w') \<and> declared code"
proof -
  obtain r w' where run: "run_call E rnd c w = (r, w')" by fastforce
  note ok = run_call_ok [OF assms(1,3), of W "\<lambda>_. False"] and inv = reachable_inv [OF assms(2,1)]
  from run hoare_ThrowD [OF ok inv] hoare_CrashD [OF ok inv] endsD [OF run_call_ends [OF assms(4)], of rnd c w]
  obtain code where "r = Ret code" "declared code" by (cases r) auto
  with run show ?thesis by simp
qed

section \<open>Properties\<close>

text \<open>
  C1: Every session state that callers and the alert thread can reach together, in any interleaving of their
  critical sections and whatever libtorrent, the file system and the allocator answer, satisfies the session
  invariant: identifiers are unique, the mailbox holds exactly the session's torrents and its own invariant,
  a torrent's completion and a caller's checkpoint exclude each other, a settled checkpoint has an owner, and
  completion and stop have been announced exactly for the torrents with a final status.
\<close>

theorem session_always_consistent:
  assumes "sound_engine E rnd" and "session_reachable E rnd W w"
  shows "session_inv W w"
  by (rule reachable_inv [OF assms(2,1)])

text \<open>
  C8: A torrent whose checkpoint is claimed cannot be removed under its owner: the job exists and is marked,
  \<open>ltkit_session_remove\<close> refuses and changes nothing but the error text, a second checkpoint is refused too,
  and the owner finds the job when it wakes.
\<close>

theorem claimed_torrent_protected:
  assumes "sound_engine E rnd" and "session_reachable E rnd W w" and "i \<in> W"
  shows "(\<exists>v. session_job w i = Some v \<and> cp_active (checkpoint v))
    \<and> (\<exists>msg. ltkit_session_remove E True (Some i) delete_files w = (Ret LTKIT_ERROR_NATIVE_FAILURE, w\<lparr>last_error := msg\<rparr>))
    \<and> (\<forall>g w'. checkpoint_request E i flush w \<noteq> (Ret (Wait g), w'))"
proof -
  have "session_inv W w" by (rule reachable_inv [OF assms(2,1)])
  with assms(3) obtain v where v: "session_job w i = Some v" and active: "cp_active (checkpoint v)"
    unfolding session_inv_def job_ok_def by blast
  have "ltkit_session_remove E True (Some i) delete_files w = (Ret LTKIT_ERROR_NATIVE_FAILURE,
      w\<lparr>last_error := ''The torrent cannot be removed while a checkpoint is pending.''\<rparr>)"
    using v active by (simp add: ltkit_session_remove_def guarded_def find_job_def bind_gets fail_def set_error_def prog_defs)
  moreover have "ends (\<lambda>r. \<forall>g. r \<noteq> Wait g) (checkpoint_open E i flush v)"
    using active unfolding checkpoint_open_def by (intro ends_intros ends_calls) auto
  then have "checkpoint_request E i flush w \<noteq> (Ret (Wait g), w')" for g w'
    using v by (auto simp: checkpoint_request_def find_job_def bind_gets dest: endsD)
  ultimately show ?thesis using v active by (intro conjI exI allI)
qed

section \<open>Witnesses\<close>

definition sample_add :: add_request where
  "sample_add = \<lparr>rq_identifier = Some ''t'', rq_source_kind = 1, rq_source = Array ''x'', rq_resume = Array [],
     rq_directory = Some ''/d'', rq_selected = Array [0], rq_has_selection = True, rq_primary = -1, rq_paused = False,
     rq_download_limit = 0, rq_upload_limit = 0, rq_policy = 0\<rparr>"

lemma sample_sound: "sound_engine sample_env (\<lambda>x. x)"
  using sample_lawful sample_laid_out exact_rounding by (simp add: sound_engine_def)

lemma sample_add_ok: "call_ok (Add sample_add)"
  by (simp add: sample_add_def resume_readable_def)

definition sample_added :: "(nat, sample_os) ltkit_session" where
  "sample_added = snd (ltkit_session_add sample_env True sample_add (new_session sample_disk))"

lemma sample_rooted: "path_rooted ''/d''"
  by code_simp

lemmas sample_add_eval = ltkit_session_add_def add_request_invalid_def sample_add_def sample_rooted kMaxSourceBytes_def kMaxResumeBytes_def
      guarded_def bind_gets new_session_def can_add_def empty_mailbox_def max_jobs_def add_admitted_def parse_source_def
      sample_params_def add_parsed_def Let_def prepare_params_def desired_of_def initial_priorities_def
      register_torrent_def engine_call_def prog_defs mailbox_call_def mailbox_add_def enqueue_def critical_def
      push_critical_def notify_all_def new_Job_def

lemma sample_add_runs: "fst (ltkit_session_add sample_env True sample_add (new_session sample_disk)) = Ret LTKIT_OK"
  by (simp add: sample_add_eval)

lemma sample_reachable: "session_reachable sample_env (\<lambda>x. x) {} sample_added"
  unfolding session_reachable_def
  by (intro exI [of _ sample_disk] r_into_rtranclp step_call [OF sample_add_ok, where code = LTKIT_OK])
    (simp add: sample_added_def prod_eq_iff sample_add_runs)

theorem session_always_consistent_witness: "session_inv {} sample_added"
  by (rule session_always_consistent [OF sample_sound sample_reachable])

definition sample_claimed :: "(nat, sample_os) ltkit_session" where
  "sample_claimed = snd (checkpoint_request sample_env ''t'' True sample_added)"

lemma sample_added_job: "\<exists>v. session_job sample_added ''t'' = Some v \<and> \<not> stopped v \<and> checkpoint v = new_checkpoint
    \<and> \<not> completion_checkpoint v \<and> \<not> completion_waiting v \<and> wake_generation sample_added = 0"
  by (simp add: sample_added_def sample_add_eval new_job_def)

lemma sample_claims: "fst (checkpoint_request sample_env ''t'' True sample_added) = Ret (Wait 0)"
  using sample_added_job
  by (auto simp: checkpoint_request_def checkpoint_open_def find_job_def bind_gets new_checkpoint_def barrier_idle_def
      set_job_def start_checkpoint_def the_job_def engine_call_def prog_defs)

lemma sample_claimed_reachable: "session_reachable sample_env (\<lambda>x. x) {''t''} sample_claimed"
proof -
  have "session_step sample_env (\<lambda>x. x) ({}, sample_added) ({''t''}, sample_claimed)"
    by (rule step_waits [where flush = True and g = 0]) (simp add: sample_claimed_def prod_eq_iff sample_claims)
  with sample_reachable show ?thesis
    unfolding session_reachable_def by (blast intro: rtranclp.rtrancl_into_rtrancl)
qed

theorem claimed_torrent_protected_witness:
  "\<exists>msg. ltkit_session_remove sample_env True (Some ''t'') False sample_claimed
     = (Ret LTKIT_ERROR_NATIVE_FAILURE, sample_claimed\<lparr>last_error := msg\<rparr>)"
  using claimed_torrent_protected [OF sample_sound sample_claimed_reachable, of "''t''"] by auto

end
