(* ===== verification/Checkpoint_Correct.thy ===== *)
theory Checkpoint_Correct
  imports Session_Machine
begin

text \<open>
  Checkpoints seen by their caller (\<open>ltkit_session_checkpoint\<close> in
  \<open>src/Native/src/LibtorrentNative.cpp\<close>): the reply of libtorrent wakes the caller, the caller takes
  the resume data, a completion that had to wait then starts, and the two ways in which a request ends wrongly.
\<close>

section \<open>The second half of a request\<close>

text \<open>What the caller leaves behind: the checkpoint is its no longer, and a waiting completion has begun.\<close>

definition released :: "'h job \<Rightarrow> 'h job \<Rightarrow> bool" where
  "released v v' \<longleftrightarrow> \<not> cp_active (checkpoint v')
     \<and> (if completion_waiting v then completion_checkpoint v' \<and> \<not> completion_waiting v' \<and> cp_barrier (checkpoint v') = Flushing
        else checkpoint v' = new_checkpoint)"

text \<open>
  A caller that was cancelled or timed out gives up its claim; a reply that came all the same is discarded,
  a barrier that is still pending stays for the reply to come.
\<close>

definition given_up :: "'h job \<Rightarrow> 'h job \<Rightarrow> bool" where
  "given_up v v' \<longleftrightarrow> (if cp_done (checkpoint v) then released v v'
     else v' = v\<lparr>checkpoint := (checkpoint v)\<lparr>cp_active := False\<rparr>\<rparr>)"

text \<open>What a call that succeeds has handed out.\<close>

definition delivered :: "'h job \<Rightarrow> int \<Rightarrow> ltkit_buffer option \<Rightarrow> bool" where
  "delivered v code out \<longleftrightarrow>
     (code = LTKIT_OK \<longrightarrow> cp_error (checkpoint v) = LTKIT_OK \<and> taken_data out = cp_data (checkpoint v))"

lemma released_reset: "released v (begin_waiting (v\<lparr>checkpoint := new_checkpoint\<rparr>))"
  by (simp add: released_def begin_waiting_def may_start_def begun_def new_checkpoint_def barrier_defs)

lemma jt_respond_taken:
  "job_triple i (\<lambda>j m. \<forall>r. (fst r = LTKIT_OK \<longrightarrow> taken_data (snd r) = source) \<longrightarrow> R r j m) (respond E source msg) R X"
  by (rule jt_pre, rule jt_respond_ok) (simp add: taken_data_def)

lemma jt_close:
  "job_triple i (\<lambda>j m. j = v) (checkpoint_close E i completed interrupted v)
     (\<lambda>r j m. if completed \<and> \<not> interrupted then released v j \<and> delivered v (fst r) (snd r)
        else given_up v j \<and> fst r \<noteq> LTKIT_OK)
     (\<lambda>j m. if completed \<and> \<not> interrupted then released v j else given_up v j)"
  unfolding checkpoint_close_def
  by (rule jt_pre, (rule jt_if jt_andthen jt_set_job jt_start_waiting_completion jt_fail_with jt_respond_taken jt_return)+)
    (auto simp: released_reset given_up_def delivered_def code_defs)

lemma close_run:
  assumes "session_inv W w" and "session_job w i = Some v"
    and run: "guarded_out (checkpoint_finish E i g completed) w = (Ret (code, out), w')"
  shows "\<exists>v'. session_job w' i = Some v' \<and> (if completed \<and> wake_generation w = g then released v v' \<and> delivered v code out
    else given_up v v' \<and> code \<noteq> LTKIT_OK)"
proof -
  obtain r w1 where fin: "checkpoint_close E i completed (wake_generation w \<noteq> g) v w = (r, w1)" by fastforce
  with job_triple_run [OF jt_close [of i v E completed "wake_generation w \<noteq> g"] assms(1,2)]
  have "case r of Ret x \<Rightarrow> \<exists>v'. session_job w1 i = Some v' \<and> (if completed \<and> wake_generation w = g
          then released v v' \<and> delivered v (fst x) (snd x) else given_up v v' \<and> fst x \<noteq> LTKIT_OK)
      | Throw _ \<Rightarrow> \<exists>v'. session_job w1 i = Some v' \<and> (if completed \<and> wake_generation w = g then released v v' else given_up v v')
      | Crash _ \<Rightarrow> True"
    by (auto simp: focus_def split: outcome.splits)
  moreover have "checkpoint_finish E i g completed w = (r, w1)"
    using fin assms(2) by (simp add: checkpoint_finish_def find_job_def bind_gets)
  ultimately show ?thesis
    using run by (auto simp: guarded_with_def guarded_def fail_def set_error_def prog_defs code_defs delivered_def
        split: outcome.splits exn.splits)
qed

section \<open>Properties\<close>

text \<open>
  The reply to a caller's checkpoint is not lost. When libtorrent delivers the resume data the
  barrier waits for, the job is marked done with exactly the bytes libtorrent wrote, the condition is
  notified, and the caller's wait predicate holds, whatever generation it watches. The checkpoint succeeds
  unless an engine error was recorded while it was pending.
\<close>

theorem checkpoint_reply_wakes:
  assumes "session_inv W w" and "i \<in> W" and "session_job w i = Some v" and "cp_barrier (checkpoint v) = Saving"
    and "lt_write_resume_data_buf E params (engine w) = (Inr bytes, e')"
  shows "\<exists>w' v'. on_resume_saved E i params w = (Ret (), w') \<and> session_job w' i = Some v'
    \<and> cp_done (checkpoint v') \<and> cp_active (checkpoint v') \<and> cp_data (checkpoint v') = bytes
    \<and> (cp_error (checkpoint v') = LTKIT_OK \<longleftrightarrow> cp_error (checkpoint v) = LTKIT_OK)
    \<and> notified w' = Suc (notified w) \<and> (\<forall>g. checkpoint_woken i g w')"
proof -
  from assms(1,3) have "job_ok (i \<in> W) i v (events w)" unfolding session_inv_def by blast
  with assms(2) have "cp_active (checkpoint v)" "\<not> completion_checkpoint v"
    by (auto simp: job_ok_def job_inv_def)
  with assms(3-5) show ?thesis
    by (simp add: on_resume_saved_def the_job_def set_job_def bind_def andthen_def barrier_resume_saved_def engine_call_def
        finish_checkpoint_def Let_def notify_all_def modify_def checkpoint_woken_def code_defs)
qed

text \<open>
  C6: What a caller does when its wait ends, whatever ended it. If the reply or the shutdown of the session
  woke it and nobody cancelled it, its checkpoint is cleared, so the next request is accepted, and a completion that was waiting for it
  begins at once with its disk fence; the call returns \<open>LTKIT_OK\<close> only with the resume data of the checkpoint
  and only when no error was recorded. If it was cancelled by \<open>ltkit_session_wake\<close> or timed out, it never returns \<open>LTKIT_OK\<close>: it
  clears a checkpoint that is done, and of one that is still pending it drops nothing but its claim. In
  every case the claim is given back and the session invariant holds without it.
\<close>

theorem checkpoint_handed_over:
  assumes "sound_engine E rnd" and "session_reachable E rnd W w" and "i \<in> W"
    and "guarded_out (checkpoint_finish E i g (checkpoint_woken i g w)) w = (Ret (code, out), w')"
  shows "\<exists>v v'. session_job w i = Some v \<and> session_job w' i = Some v' \<and> session_inv (W - {i}) w'
    \<and> (if checkpoint_woken i g w \<and> wake_generation w = g
       then released v v' \<and> delivered v code out \<and> (cp_done (checkpoint v) \<or> shutting_down w)
       else given_up v v' \<and> code \<noteq> LTKIT_OK)"
proof -
  have inv: "session_inv W w" by (rule reachable_inv [OF assms(2,1)])
  with assms(3) obtain v where v: "session_job w i = Some v" unfolding session_inv_def by blast
  then have "checkpoint_woken i g w \<and> wake_generation w = g \<longrightarrow> cp_done (checkpoint v) \<or> shutting_down w"
    by (auto simp: checkpoint_woken_def)
  with v close_run [OF inv v assms(4)] checkpoint_return_inv [OF assms(3) inv assms(4)] show ?thesis by auto
qed

text \<open>
  C37: A caller that is woken by the shutdown of the session, before libtorrent replied, returns \<open>LTKIT_OK\<close>
  with empty data: it takes the unfinished checkpoint for a finished one.
\<close>

theorem checkpoint_shutdown_reports_success:
  assumes "session_job w i = Some v" and "checkpoint v = new_checkpoint\<lparr>cp_active := True, cp_barrier := phase\<rparr>"
    and "barrier_pending phase" and "\<not> completion_waiting v" and "shutting_down w"
  shows "checkpoint_woken i g w \<and> (\<exists>w'. guarded_out (checkpoint_finish E i (wake_generation w) True) w
      = (Ret (LTKIT_OK, Some empty_buffer), w'))"
proof -
  have "start_waiting_completion E i w1 = (Ret (), w1)" if "session_job w1 i = Some v1" "\<not> completion_waiting v1" for w1 v1
    using that by (simp add: start_waiting_completion_def the_job_def bind_def return_def)
  with assms show ?thesis
    by (simp add: guarded_with_def checkpoint_finish_def find_job_def bind_gets checkpoint_close_def set_job_def
        checkpoint_woken_def prog_defs respond_def system_call_def copy_buffer_def new_checkpoint_def)
qed

text \<open>
  C36: When libtorrent throws as a checkpoint is started, the call reports the failure but the torrent stays
  claimed: no one waits for its checkpoint, and from then on neither another checkpoint nor the removal of the
  torrent is accepted.
\<close>

theorem checkpoint_throw_leaks_claim:
  assumes "session_job w i = Some v" and "\<not> stopped v" and "\<not> cp_active (checkpoint v)"
    and "cp_barrier (checkpoint v) = Idle" and "\<not> completion_checkpoint v"
    and "lt_flush_cache E (handle v) (engine w) = (Inl Std_Exception, e')" and "0 < timeout_ms"
  shows "\<exists>w'. ltkit_session_checkpoint E between True (Some i) True timeout_ms True w
       = (Ret (LTKIT_ERROR_NATIVE_FAILURE, None), w')
     \<and> (\<exists>w''. ltkit_session_checkpoint E between True (Some i) flush timeout_ms True w' = (Ret (LTKIT_ERROR_NATIVE_FAILURE, None), w'')
          \<and> jobs w'' = jobs w')
     \<and> (\<exists>w''. ltkit_session_remove E True (Some i) delete_files w' = (Ret LTKIT_ERROR_NATIVE_FAILURE, w'') \<and> jobs w'' = jobs w')"
proof -
  let ?v = "v\<lparr>checkpoint := new_checkpoint\<lparr>cp_active := True, cp_barrier := Flushing\<rparr>\<rparr>"
  obtain w' where run: "ltkit_session_checkpoint E between True (Some i) True timeout_ms True w
      = (Ret (LTKIT_ERROR_NATIVE_FAILURE, None), w')" and job: "session_job w' i = Some ?v"
    using assms by (simp add: ltkit_session_checkpoint_def guarded_with_def checkpoint_request_def checkpoint_open_def
        find_job_def bind_def gets_def barrier_defs set_job_def start_checkpoint_def the_job_def engine_call_def
        andthen_def guarded_def throw_def fail_def set_error_def modify_def return_def new_checkpoint_def)
  have "ltkit_session_remove E True (Some i) delete_files w' = (Ret LTKIT_ERROR_NATIVE_FAILURE,
      w'\<lparr>last_error := ''The torrent cannot be removed while a checkpoint is pending.''\<rparr>)"
    using job by (simp add: ltkit_session_remove_def guarded_def find_job_def bind_gets fail_def set_error_def prog_defs)
  moreover have "ltkit_session_checkpoint E between True (Some i) flush timeout_ms True w' = (Ret (LTKIT_ERROR_NATIVE_FAILURE, None),
      w'\<lparr>last_error := ''A checkpoint is already pending for this torrent.''\<rparr>)"
    using job assms(2,7) by (simp add: ltkit_session_checkpoint_def guarded_with_def checkpoint_request_def checkpoint_open_def
        find_job_def fail_with_def fail_def set_error_def prog_defs)
  ultimately show ?thesis using run by (intro exI [of _ w']) simp
qed

section \<open>The whole call\<close>

lemma ends_start_waiting: "Q () \<Longrightarrow> ends Q (start_waiting_completion E i)"
  unfolding start_waiting_completion_def start_checkpoint_def by (intro ends_intros) auto

lemma ends_checkpoint_close:
  assumes "declared (cp_error (checkpoint v))"
  shows "ends (\<lambda>r. declared (fst r)) (checkpoint_close E i completed interrupted v)"
  unfolding checkpoint_close_def by (intro ends_intros ends_calls ends_start_waiting) (use assms in auto)

lemma ends_checkpoint_request:
  "ends (\<lambda>r. case r of Answer a \<Rightarrow> declared (fst a) | Wait g \<Rightarrow> True) (checkpoint_request E i flush)"
  unfolding checkpoint_request_def checkpoint_open_def start_checkpoint_def by (intro ends_intros ends_calls) auto


lemma guarded_throw_declared:
  "\<exists>code w'. bind (guarded (throw x)) (\<lambda>c. return (c, None)) w = (Ret (code, None), w') \<and> declared code"
  by (cases x) (auto simp: guarded_def fail_def set_error_def prog_defs)

lemma finish_declared:
  assumes "session_inv W w" and "i \<in> W"
  shows "\<exists>code out w'. guarded_out (checkpoint_finish E i g completed) w = (Ret (code, out), w') \<and> declared code"
proof -
  obtain v where v: "session_job w i = Some v" and ok: "job_ok (i \<in> W) i v (events w)"
    using assms unfolding session_inv_def by blast
  have "cp_error (checkpoint v) \<in> {LTKIT_OK, LTKIT_ERROR_NATIVE_FAILURE}" using ok unfolding job_ok_def job_inv_def by blast
  then have "declared (cp_error (checkpoint v))" by auto
  note close = ends_checkpoint_close [OF this, of E i completed "wake_generation w \<noteq> g"]
  have run: "checkpoint_finish E i g completed w = checkpoint_close E i completed (wake_generation w \<noteq> g) v w"
    using v by (simp add: checkpoint_finish_def bind_gets find_job_def)
  obtain r w1 where r: "checkpoint_finish E i g completed w = (r, w1)" by fastforce
  show ?thesis
  proof (cases r)
    case (Ret a)
    with r run endsD(1) [OF close] show ?thesis by (cases a) (auto simp: guarded_with_def)
  next
    case (Throw x)
    with r guarded_throw_declared [of x w1] show ?thesis by (auto simp: guarded_with_def)
  next
    case (Crash c)
    with r run endsD(2) [OF close, of w c w1] hoare_CrashD [OF checkpoint_finish_ok [OF assms(2)] assms(1), of E g completed w1]
    show ?thesis by simp
  qed
qed

text \<open>What other threads do while the owner of a claim waits: they run critical sections and keep the claim.\<close>

definition awaits :: "('h, 'e) env \<Rightarrow> (rat \<Rightarrow> rat) \<Rightarrow> string \<Rightarrow> (('h, 'e) ltkit_session \<Rightarrow> ('h, 'e) ltkit_session) \<Rightarrow> bool" where
  "awaits E rnd i between \<longleftrightarrow> (\<forall>W w. session_reachable E rnd W w \<longrightarrow> i \<in> W \<longrightarrow>
     (\<exists>W'. (session_step E rnd)\<^sup>*\<^sup>* (W, w) (W', between w) \<and> i \<in> W'))"

lemma finish_step:
  assumes "sound_engine E rnd" and "session_reachable E rnd W w" and "i \<in> W"
  shows "\<exists>code out w'. guarded_out (checkpoint_finish E i g completed) w = (Ret (code, out), w') \<and> declared code
    \<and> session_reachable E rnd (W - {i}) w'"
proof -
  obtain code out w' where run: "guarded_out (checkpoint_finish E i g completed) w = (Ret (code, out), w')" "declared code"
    using finish_declared [OF reachable_inv [OF assms(2,1)] assms(3)] by blast
  from step_reachable [OF assms(2) step_returns [OF assms(3) run(1)]] run show ?thesis by blast
qed

text \<open>The whole call, by the way its first critical section ends.\<close>

lemma checkpoint_run:
  assumes "sound_engine E rnd" and "session_reachable E rnd W w" and "awaits E rnd i between" and "0 < timeout_ms"
  shows "\<exists>code out w' W'. ltkit_session_checkpoint E between True (Some i) flush timeout_ms True w = (Ret (code, out), w')
    \<and> 0 \<le> code \<and> code \<le> 16 \<and> session_reachable E rnd W' w'
    \<and> (i \<notin> W \<and> i \<in> W' \<longrightarrow> (\<exists>x w1. checkpoint_request E i flush w = (Throw x, w1)))"
proof -
  note cut = checkpoint_cut [OF assms(4), of E between i flush w]
  obtain r w1 where request: "checkpoint_request E i flush w = (r, w1)" by fastforce
  show ?thesis
  proof (cases r)
    case (Ret a)
    note ended = endsD(1) [OF ends_checkpoint_request request [unfolded Ret]]
    show ?thesis
    proof (cases a)
      case (Answer p)
      with request Ret have "session_reachable E rnd W w1"
        by (blast intro: step_reachable [OF assms(2)] step_answered)
      with cut request Ret Answer ended show ?thesis
        by (cases p) (auto simp: declared_def)
    next
      case (Wait g)
      with request Ret have w1: "session_reachable E rnd (insert i W) w1"
        by (blast intro: step_reachable [OF assms(2)] step_waits)
      have "\<exists>W2. session_reachable E rnd W2 (if checkpoint_woken i g w1 then w1 else between w1) \<and> i \<in> W2"
        using assms(3) w1 steps_reachable unfolding awaits_def by (metis insertI1)
      then obtain W2 where W2: "session_reachable E rnd W2 (if checkpoint_woken i g w1 then w1 else between w1)" "i \<in> W2"
        by blast
      let ?w2 = "if checkpoint_woken i g w1 then w1 else between w1"
      from finish_step [OF assms(1) W2, of g "checkpoint_woken i g ?w2"] obtain code out w' where
        "guarded_out (checkpoint_finish E i g (checkpoint_woken i g ?w2)) ?w2 = (Ret (code, out), w')"
        "declared code" "session_reachable E rnd (W2 - {i}) w'" by blast
      with cut request Ret Wait show ?thesis
        by (intro exI [of _ code] exI [of _ out] exI [of _ w'] exI [of _ "W2 - {i}"]) (simp add: declared_def Let_def)
    qed
  next
    case (Throw x)
    obtain code w' where code: "bind (guarded (throw x)) (\<lambda>c. return (c, None :: ltkit_buffer option)) w1 = (Ret (code, None), w')" "declared code"
      using guarded_throw_declared by blast
    then obtain r' where "guarded (throw x) w1 = (r', w')" by (auto simp: bind_def return_def split: prod.splits outcome.splits)
    with request Throw have "session_reachable E rnd (insert i W) w'"
      by (blast intro: step_reachable [OF assms(2)] step_throws)
    with cut request Throw code show ?thesis
      by (intro exI [of _ code] exI [of _ None] exI [of _ w'] exI [of _ "insert i W"]) (simp add: declared_def)
  next
    case (Crash c)
    with request endsD(2) [OF ends_checkpoint_request] hoare_CrashD [OF checkpoint_request_ok reachable_inv [OF assms(2,1)]]
    show ?thesis by blast
  qed
qed

text \<open>
  C12: The blocking call as a whole. In every reachable session \<open>ltkit_session_checkpoint\<close> returns a declared code,
  whether it is answered at once, is left by an exception of the engine or waits while other threads run any
  number of critical sections, and it leaves a reachable session in which its claim is given back, an
  exception of the engine excepted.
\<close>

theorem checkpoint_call_returns:
  assumes "sound_engine E rnd" and "session_reachable E rnd W w" and "awaits E rnd i between" and "0 < timeout_ms"
  shows "\<exists>code out w' W'. ltkit_session_checkpoint E between True (Some i) flush timeout_ms True w = (Ret (code, out), w')
    \<and> 0 \<le> code \<and> code \<le> 16 \<and> session_reachable E rnd W' w'
    \<and> (i \<notin> W \<and> i \<in> W' \<longrightarrow> (\<exists>x w1. checkpoint_request E i flush w = (Throw x, w1)))"
  by (rule checkpoint_run [OF assms])

section \<open>Witnesses\<close>

lemma sample_checkpoint_request:
  "\<exists>v w'. checkpoint_request sample_env ''t'' flush sample_added = (Ret (Wait 0), w') \<and> session_job w' ''t'' = Some v
     \<and> \<not> completion_waiting v \<and> wake_generation w' = 0
     \<and> checkpoint v = new_checkpoint\<lparr>cp_active := True, cp_barrier := (if flush then Flushing else Saving)\<rparr>"
  using sample_added_job
  by (auto simp: checkpoint_request_def checkpoint_open_def find_job_def bind_gets new_checkpoint_def barrier_defs
      set_job_def start_checkpoint_def the_job_def engine_call_def prog_defs)

definition sample_saving :: "(nat, sample_os) ltkit_session" where
  "sample_saving = snd (checkpoint_request sample_env ''t'' False sample_added)"

lemma sample_saving_job:
  "\<exists>v. session_job sample_saving ''t'' = Some v \<and> \<not> completion_waiting v \<and> wake_generation sample_saving = 0
     \<and> checkpoint v = new_checkpoint\<lparr>cp_active := True, cp_barrier := Saving\<rparr>"
  using sample_checkpoint_request [of False] by (auto simp: sample_saving_def)

lemma sample_saving_reachable: "session_reachable sample_env (\<lambda>x. x) {''t''} sample_saving"
proof -
  have "session_step sample_env (\<lambda>x. x) ({}, sample_added) ({''t''}, sample_saving)"
    using sample_checkpoint_request [of False] by (auto simp: sample_saving_def intro: step_waits)
  with sample_reachable show ?thesis
    unfolding session_reachable_def by (blast intro: rtranclp.rtrancl_into_rtrancl)
qed

theorem checkpoint_reply_wakes_witness:
  "\<exists>w'. on_resume_saved sample_env ''t'' ''r'' sample_saving = (Ret (), w') \<and> (\<forall>g. checkpoint_woken ''t'' g w')"
proof -
  obtain v where v: "session_job sample_saving ''t'' = Some v" "cp_barrier (checkpoint v) = Saving"
    using sample_saving_job by auto
  from checkpoint_reply_wakes [OF reachable_inv [OF sample_saving_reachable sample_sound] _ v, of sample_env "''r''" "''r''"]
  show ?thesis by auto
qed

lemma sample_saving_handle: "\<exists>v. session_job sample_saving ''t'' = Some v \<and> handle v = 1 \<and> \<not> completion_waiting v
    \<and> \<not> completion_checkpoint v \<and> \<not> shutting_down sample_saving \<and> wake_generation sample_saving = 0
    \<and> checkpoint v = new_checkpoint\<lparr>cp_active := True, cp_barrier := Saving\<rparr>"
proof -
  have "\<exists>v. session_job sample_added ''t'' = Some v \<and> handle v = 1 \<and> \<not> stopped v \<and> checkpoint v = new_checkpoint
    \<and> \<not> completion_checkpoint v \<and> \<not> completion_waiting v \<and> wake_generation sample_added = 0 \<and> \<not> shutting_down sample_added"
    by (simp add: sample_added_def sample_add_eval new_job_def)
  then show ?thesis
    by (auto simp: sample_saving_def checkpoint_request_def checkpoint_open_def find_job_def bind_gets new_checkpoint_def barrier_defs
      set_job_def start_checkpoint_def the_job_def engine_call_def prog_defs)
qed

text \<open>The reply of libtorrent wakes the caller of \<open>sample_saving\<close>.\<close>

definition sample_saved :: "(nat, sample_os) ltkit_session" where
  "sample_saved = snd (alert_batch sample_env [''t''] [Save_resume_data 1 ''r''] sample_saving)"

lemma sample_saves:
  "alert_batch sample_env [''t''] [Save_resume_data 1 ''r''] sample_saving = (Ret True, sample_saved)
    \<and> checkpoint_woken ''t'' 0 sample_saved
    \<and> (\<exists>v. session_job sample_saved ''t'' = Some v \<and> \<not> completion_waiting v \<and> wake_generation sample_saved = 0
      \<and> cp_done (checkpoint v) \<and> cp_error (checkpoint v) = LTKIT_OK \<and> cp_data (checkpoint v) = ''r'')"
proof -
  obtain v where "session_job sample_saving ''t'' = Some v" "handle v = 1" "\<not> completion_waiting v"
    "\<not> completion_checkpoint v" "\<not> shutting_down sample_saving" "wake_generation sample_saving = 0"
    "checkpoint v = new_checkpoint\<lparr>cp_active := True, cp_barrier := Saving\<rparr>"
    using sample_saving_handle by blast
  then show ?thesis
    by (simp add: sample_saved_def alert_batch_def handle_alert_def dispatch_alert_def on_resume_saved_def
        the_job_def set_job_def barrier_resume_saved_def engine_call_def finish_checkpoint_def notify_all_def prog_defs
        checkpoint_woken_def new_checkpoint_def)
qed

lemma sample_saved_reachable: "session_reachable sample_env (\<lambda>x. x) {''t''} sample_saved"
  by (rule step_reachable [OF sample_saving_reachable step_alerts [OF conjunct1 [OF sample_saves]]])

lemma sample_taken:
  "\<exists>out w'. guarded_out (checkpoint_finish sample_env ''t'' 0 (checkpoint_woken ''t'' 0 sample_saved)) sample_saved
     = (Ret (LTKIT_OK, out), w')"
  using sample_saves
  by (auto simp: guarded_with_def checkpoint_finish_def find_job_def bind_gets checkpoint_close_def set_job_def
      start_waiting_completion_def the_job_def prog_defs respond_def system_call_def copy_buffer_def)

theorem checkpoint_handed_over_witness:
  "\<exists>out w' v v'. guarded_out (checkpoint_finish sample_env ''t'' 0 (checkpoint_woken ''t'' 0 sample_saved)) sample_saved
       = (Ret (LTKIT_OK, out), w') \<and> session_job sample_saved ''t'' = Some v \<and> cp_done (checkpoint v)
     \<and> taken_data out = ''r'' \<and> session_job w' ''t'' = Some v' \<and> released v v'"
proof -
  obtain out w' where run: "guarded_out (checkpoint_finish sample_env ''t'' 0 (checkpoint_woken ''t'' 0 sample_saved)) sample_saved
     = (Ret (LTKIT_OK, out), w')" using sample_taken by blast
  from checkpoint_handed_over [OF sample_sound sample_saved_reachable _ run] run sample_saves show ?thesis
    by (auto simp: delivered_def)
qed

theorem checkpoint_shutdown_reports_success_witness:
  "\<exists>w'. guarded_out (checkpoint_finish sample_env ''t'' 0 True) (sample_saving\<lparr>shutting_down := True\<rparr>)
     = (Ret (LTKIT_OK, Some empty_buffer), w')"
proof -
  obtain v where v: "session_job (sample_saving\<lparr>shutting_down := True\<rparr>) ''t'' = Some v" "\<not> completion_waiting v"
    "checkpoint v = new_checkpoint\<lparr>cp_active := True, cp_barrier := Saving\<rparr>" and g: "wake_generation sample_saving = 0"
    using sample_saving_job by auto
  from checkpoint_shutdown_reports_success [OF v(1,3) _ v(2), where E = sample_env] g show ?thesis
    by (simp add: barrier_pending_def)
qed

definition throwing_env :: "(nat, sample_os) env" where
  "throwing_env = sample_env\<lparr>lt_flush_cache := (\<lambda>h e. (Inl Std_Exception, e))\<rparr>"

theorem checkpoint_throw_leaks_claim_witness:
  "\<exists>w' w''. ltkit_session_checkpoint throwing_env id True (Some ''t'') True 10 True sample_session
       = (Ret (LTKIT_ERROR_NATIVE_FAILURE, None), w')
     \<and> ltkit_session_remove throwing_env True (Some ''t'') False w' = (Ret LTKIT_ERROR_NATIVE_FAILURE, w'')"
proof -
  have "session_job sample_session ''t'' = Some sample_job" "\<not> stopped sample_job" "checkpoint sample_job = new_checkpoint"
    "\<not> completion_checkpoint sample_job"
    by (simp_all add: sample_session_def sample_job_def new_job_def)
  with checkpoint_throw_leaks_claim [of sample_session "''t''" sample_job throwing_env sample_disk 10 id] show ?thesis
    by (simp add: new_checkpoint_def throwing_env_def sample_session_def new_session_def) blast
qed

lemma sample_awaits: "awaits sample_env (\<lambda>x. x) ''t'' (\<lambda>w. w\<lparr>engine := sample_disk\<rparr>)"
  unfolding awaits_def by (blast intro: step_engine)

theorem checkpoint_call_returns_witness:
  "\<exists>code out w'. ltkit_session_checkpoint sample_env (\<lambda>w. w\<lparr>engine := sample_disk\<rparr>) True (Some ''t'') True 500 True sample_added
     = (Ret (code, out), w') \<and> code \<le> 16"
  using checkpoint_call_returns [OF sample_sound sample_reachable sample_awaits, of 500 True] by auto

end
