(* ===== verification/Session_Calls.thy ===== *)
theory Session_Calls
  imports Session_Machine
begin

text \<open>
  What the commands of the C interface do, branch by branch: which torrents accept commands, admission,
  file selection, removal, the delivery of events, and the streaming window against the plan of the Swift wrapper.
\<close>

section \<open>Commands that need an active torrent\<close>

text \<open>The commands for torrent \<open>i\<close> whose arguments pass the first check.\<close>

fun command_for :: "string \<Rightarrow> api_call \<Rightarrow> bool" where
  "command_for i (Select_files j indexes primary) \<longleftrightarrow>
     j = Some i \<and> \<not> (c_count indexes > 0 \<and> c_null indexes) \<and> c_count indexes \<le> 100000 \<and> primary \<ge> -1"
| "command_for i (Set_file_priority j k p) \<longleftrightarrow> j = Some i \<and> k \<ge> 0 \<and> p \<le> 7"
| "command_for i (Set_piece_priority j k p) \<longleftrightarrow> j = Some i \<and> k \<ge> 0 \<and> p \<le> 7"
| "command_for i (Start j) \<longleftrightarrow> j = Some i"
| "command_for i (Pause j) \<longleftrightarrow> j = Some i"
| "command_for i (Pieces j) \<longleftrightarrow> j = Some i"
| "command_for i (Piece_completion j) \<longleftrightarrow> j = Some i"
| "command_for i (Update_window j k off critical_bytes warm_bytes rate edges) \<longleftrightarrow>
     j = Some i \<and> k \<ge> 0 \<and> off \<ge> 0 \<and> critical_bytes > 0 \<and> warm_bytes \<ge> critical_bytes \<and> rate > 0"
| "command_for i (Clear_window j) \<longleftrightarrow> j = Some i"
| "command_for i _ \<longleftrightarrow> False"

lemmas call_run_simps = with_active_job_def with_active_out_def find_job_def guarded_def guarded_with_def code_of_def
  fail_with_def fail_def set_error_def prog_defs

text \<open>
  A torrent that does not exist, was removed, or has stopped accepts no command: every command for it
  returns \<open>LTKIT_ERROR_INVALID_IDENTIFIER\<close>, calls libtorrent not at all and changes nothing but the error text.
\<close>

theorem inactive_torrent_refused:
  assumes "command_for i c" and "\<And>v. session_job w i = Some v \<Longrightarrow> stopped v"
  shows "run_call E rnd c w = (Ret LTKIT_ERROR_INVALID_IDENTIFIER, w\<lparr>last_error := not_active\<rparr>)"
  using assms
  by (cases c; cases "session_job w i")
    (auto simp: call_run_simps ltkit_session_select_files_def ltkit_session_set_file_priority_def
      ltkit_session_set_piece_priority_def ltkit_session_start_def ltkit_session_pause_def ltkit_session_pieces_def
      ltkit_session_piece_completion_def piece_completion_query_def ltkit_session_update_streaming_window_def
      ltkit_session_clear_streaming_window_def)

section \<open>Creating the session\<close>

text \<open>
  C23: Creating a session either gives a session that satisfies everything proved of reachable sessions, or an error code and no
  session. It succeeds only for a valid port range and a regular file as certificate bundle, which is put into the
  environment before the engine is created, and the engine is created with the validation of HTTPS trackers
  switched on. The end of the port range is compared with its start and otherwise ignored.
\<close>

theorem session_create_outcome:
  assumes "ltkit_session_create is_regular_file setenv new_engine start_thread config output e = ((code, session), e')"
  shows "(case session of
       None \<Rightarrow> code \<in> {LTKIT_ERROR_INVALID_ARGUMENT, LTKIT_ERROR_NATIVE_FAILURE}
     | Some w \<Rightarrow> code = LTKIT_OK \<and> session_reachable E rnd {} w \<and> w = new_session e' \<and> output
         \<and> (\<exists>c agent ca e1 e2 pack. config = Some c \<and> user_agent c = Some agent \<and> ca_bundle_path c = Some ca
              \<and> listen_port_start c \<le> listen_port_end c \<and> is_regular_file ca e = (Inr True, e1)
              \<and> new_engine pack (setenv ''SSL_CERT_FILE'' ca e1) = (Inr (), e2) \<and> start_thread e2 = (Inr (), e')
              \<and> set_user_agent pack = agent \<and> set_validate_https_trackers pack))
    \<and> (\<forall>c p. config = Some c \<and> listen_port_start c \<le> listen_port_end c \<and> listen_port_start c \<le> p
         \<longrightarrow> ltkit_session_create is_regular_file setenv new_engine start_thread (Some (c\<lparr>listen_port_end := p\<rparr>)) output e
           = ((code, session), e'))"
proof
  have reach: "session_reachable E rnd {} (new_session e0)" for e0
    unfolding session_reachable_def by blast
  have pack: "set_user_agent (session_settings agent c) = agent" "set_validate_https_trackers (session_settings agent c)" for agent c
    by (simp_all add: session_settings_def)
  have same: "session_settings agent (c\<lparr>listen_port_end := p\<rparr>) = session_settings agent c" for agent c p
    by (simp add: session_settings_def)
  show "case session of
       None \<Rightarrow> code \<in> {LTKIT_ERROR_INVALID_ARGUMENT, LTKIT_ERROR_NATIVE_FAILURE}
     | Some w \<Rightarrow> code = LTKIT_OK \<and> session_reachable E rnd {} w \<and> w = new_session e' \<and> output
         \<and> (\<exists>c agent ca e1 e2 pack. config = Some c \<and> user_agent c = Some agent \<and> ca_bundle_path c = Some ca
              \<and> listen_port_start c \<le> listen_port_end c \<and> is_regular_file ca e = (Inr True, e1)
              \<and> new_engine pack (setenv ''SSL_CERT_FILE'' ca e1) = (Inr (), e2) \<and> start_thread e2 = (Inr (), e')
              \<and> set_user_agent pack = agent \<and> set_validate_https_trackers pack)"
    using assms reach pack unfolding ltkit_session_create_def
    by (auto split: option.splits if_splits prod.splits sum.splits bool.splits) blast
  show "\<forall>c p. config = Some c \<and> listen_port_start c \<le> listen_port_end c \<and> listen_port_start c \<le> p
         \<longrightarrow> ltkit_session_create is_regular_file setenv new_engine start_thread (Some (c\<lparr>listen_port_end := p\<rparr>)) output e
           = ((code, session), e')"
  proof (intro allI impI, elim conjE)
    fix c p assume "config = Some c" "listen_port_start c \<le> listen_port_end c" "listen_port_start c \<le> p"
    with assms [unfolded ltkit_session_create_def] show "ltkit_session_create is_regular_file setenv new_engine start_thread (Some (c\<lparr>listen_port_end := p\<rparr>)) output e
        = ((code, session), e')"
      unfolding ltkit_session_create_def option.case same
      by (cases "user_agent c"; cases "ca_bundle_path c") (simp_all split: if_splits)
  qed
qed

section \<open>Selecting files\<close>

lemma jt_select_body:
  assumes "lawful E"
  shows "job_triple i (\<lambda>j m. j = v)
    (andthen (set_job i (\<lambda>value. value\<lparr>desired_files := ks, file_priorities := [], piece_priorities := [], primary_file := primary\<rparr>))
      (if b then fail c1 msg1 else bind (apply_selection E i) (\<lambda>applied. if \<not> applied then fail c2 msg2 else return LTKIT_OK)))
    (\<lambda>code j m. code = LTKIT_OK \<longrightarrow> c1 \<noteq> LTKIT_OK \<longrightarrow> c2 \<noteq> LTKIT_OK \<longrightarrow> \<not> b
       \<and> desired_files j = ks \<and> selection_applied E (v\<lparr>desired_files := ks, file_priorities := [], piece_priorities := [],
           primary_file := primary\<rparr>) True j) (\<lambda>_ _. True)"
proof -
  let ?v = "v\<lparr>desired_files := ks, file_priorities := [], piece_priorities := [], primary_file := primary\<rparr>"
  have "job_triple i (\<lambda>j m. j = ?v) (bind (apply_selection E i) (\<lambda>applied. if \<not> applied then fail c2 msg2 else return LTKIT_OK))
      (\<lambda>code j m. code = LTKIT_OK \<longrightarrow> c1 \<noteq> LTKIT_OK \<longrightarrow> c2 \<noteq> LTKIT_OK \<longrightarrow> \<not> b
         \<and> desired_files j = ks \<and> selection_applied E ?v True j) (\<lambda>_ _. True)" if "\<not> b"
    by (rule jt_bind [OF _ jt_apply_selection_fresh [OF assms]], rule jt_pre, (rule job_wp)+)
      (use that in \<open>auto simp: reselected_simps\<close>)
  then show ?thesis
    by (cases b) (auto intro!: jt_andthen [OF _ jt_pre [OF jt_set_job]] jt_pre [OF jt_fail])
qed

lemma guarded_OK: "guarded p w = (Ret LTKIT_OK, w') \<Longrightarrow> p w = (Ret LTKIT_OK, w')"
  by (auto simp: guarded_def fail_def set_error_def prog_defs code_defs split: prod.splits outcome.splits exn.splits)

lemma fail_run: "fail code msg w = (Ret code, w\<lparr>last_error := msg\<rparr>)"
  by (simp add: fail_def set_error_def prog_defs)

lemma engine_then_Ret:
  assumes "bind (engine_call c) f w = (Ret x, w')"
  obtains v e where "f v (w\<lparr>engine := e\<rparr>) = (Ret x, w')"
  using assms by (auto simp: bind_def engine_call_def split: prod.splits sum.splits)

lemma active_job_OK:
  assumes "guarded (with_active_job (Some i) body) w = (Ret LTKIT_OK, w')"
  obtains v where "session_job w i = Some v" "\<not> stopped v" "body i v w = (Ret LTKIT_OK, w')"
  using guarded_OK [OF assms] that
  by (auto simp: with_active_job_def find_job_def bind_gets fail_def set_error_def prog_defs code_defs
      split: option.splits if_splits)

text \<open>
  C26: When a selection is accepted, the torrent was active and not completing, the primary file is none or a
  selected one, every index names a file of the torrent, the torrent's desired files are exactly the requested
  ones, and the files and pieces have exactly the priorities of the selection.
\<close>

theorem select_files_exact:
  assumes "lawful E" and "session_inv W w"
    and run: "ltkit_session_select_files E True (Some i) indexes primary w = (Ret LTKIT_OK, w')"
  shows "\<exists>v v'. session_job w i = Some v \<and> \<not> stopped v \<and> \<not> completion_checkpoint v \<and> \<not> completion_waiting v
    \<and> (primary = -1 \<or> primary \<in> set (c_items indexes))
    \<and> session_job w' i = Some v' \<and> desired_files v' = c_items indexes
    \<and> selection_applied E (v\<lparr>desired_files := c_items indexes, file_priorities := [], piece_priorities := [],
         primary_file := primary\<rparr>) True v'"
proof -
  let ?body = "\<lambda>i. andthen (set_job i (\<lambda>value. value\<lparr>desired_files := c_items indexes, file_priorities := [],
              piece_priorities := [], primary_file := primary\<rparr>))
            (if primary \<ge> 0 \<and> primary \<notin> set (c_items indexes)
             then fail LTKIT_ERROR_INVALID_FILE_INDEX ''The primary file must be selected.''
             else bind (apply_selection E i) (\<lambda>applied.
               if \<not> applied then fail LTKIT_ERROR_INVALID_FILE_INDEX ''A requested file index is invalid.''
               else return LTKIT_OK))"
  from run have primary: "primary \<ge> -1" and "guarded (with_active_job (Some i) (\<lambda>i value.
        if completion_checkpoint value \<or> completion_waiting value
        then fail LTKIT_ERROR_NATIVE_FAILURE completing
        else bind (engine_call (lt_torrent_file E (handle value))) (\<lambda>info.
          if info = None then fail LTKIT_ERROR_METADATA_UNAVAILABLE metadata_unavailable else ?body i))) w = (Ret LTKIT_OK, w')"
    by (auto simp: ltkit_session_select_files_def prog_defs code_defs split: if_splits)
  then obtain v where v: "session_job w i = Some v" "\<not> stopped v" "\<not> completion_checkpoint v" "\<not> completion_waiting v"
    and rest: "bind (engine_call (lt_torrent_file E (handle v))) (\<lambda>info.
          if info = None then fail LTKIT_ERROR_METADATA_UNAVAILABLE metadata_unavailable else ?body i) w = (Ret LTKIT_OK, w')"
    by (elim active_job_OK) (auto simp: fail_def set_error_def prog_defs code_defs split: if_splits)
  obtain info :: "torrent_info option" and e where "(if info = None
      then fail LTKIT_ERROR_METADATA_UNAVAILABLE metadata_unavailable else ?body i) (w\<lparr>engine := e\<rparr>) = (Ret LTKIT_OK, w')"
    using engine_then_Ret [OF rest] by blast
  then have body: "?body i (w\<lparr>engine := e\<rparr>) = (Ret LTKIT_OK, w')"
    by (cases info) (simp_all add: fail_run code_defs)
  have "session_inv W (w\<lparr>engine := e\<rparr>)" "session_job (w\<lparr>engine := e\<rparr>) i = Some v" using assms(2) v by simp_all
  from job_triple_run [OF jt_select_body [OF assms(1), where v = v and ks = "c_items indexes" and primary = primary
      and b = "primary \<ge> 0 \<and> primary \<notin> set (c_items indexes)" and ?c1.0 = LTKIT_ERROR_INVALID_FILE_INDEX
      and ?c2.0 = LTKIT_ERROR_INVALID_FILE_INDEX and ?msg1.0 = "''The primary file must be selected.''"
      and ?msg2.0 = "''A requested file index is invalid.''"] this refl, unfolded body prod.case outcome.case]
  have "focus i (w\<lparr>engine := e\<rparr>) (\<lambda>j m. \<not> (primary \<ge> 0 \<and> primary \<notin> set (c_items indexes)) \<and> desired_files j = c_items indexes
      \<and> selection_applied E (v\<lparr>desired_files := c_items indexes, file_priorities := [], piece_priorities := [],
           primary_file := primary\<rparr>) True j) w'"
    by (rule focus_mono) (simp add: code_defs)
  then obtain v' where v': "session_job w' i = Some v'" "\<not> (primary \<ge> 0 \<and> primary \<notin> set (c_items indexes))"
    "desired_files v' = c_items indexes" "selection_applied E (v\<lparr>desired_files := c_items indexes, file_priorities := [],
      piece_priorities := [], primary_file := primary\<rparr>) True v'"
    unfolding focus_def by blast
  moreover from v'(2) primary have "primary = -1 \<or> primary \<in> set (c_items indexes)" by linarith
  ultimately show ?thesis using v by blast
qed

text \<open>An engine that knows the torrent and whose calls succeed, whatever they do to its state.\<close>

definition accepting :: "('h, 'e) env \<Rightarrow> 'h \<Rightarrow> torrent_info \<Rightarrow> bool" where
  "accepting E h info \<longleftrightarrow> (\<forall>e. (\<exists>e'. lt_torrent_file E h e = (Inr (Some info), e')) \<and> (\<exists>e'. lt_clear_piece_deadlines E h e = (Inr (), e'))
     \<and> (\<forall>ps. (\<exists>e'. lt_prioritize_files E h ps e = (Inr (), e')) \<and> (\<exists>e'. lt_prioritize_pieces E h ps e = (Inr (), e'))))"

lemma acceptingE:
  assumes "accepting E h info"
  obtains T C F P where "\<And>e. lt_torrent_file E h e = (Inr (Some info), T e)" "\<And>e. lt_clear_piece_deadlines E h e = (Inr (), C e)"
    "\<And>ps e. lt_prioritize_files E h ps e = (Inr (), F ps e)" "\<And>ps e. lt_prioritize_pieces E h ps e = (Inr (), P ps e)"
  by (rule that [of "\<lambda>e. snd (lt_torrent_file E h e)" "\<lambda>e. snd (lt_clear_piece_deadlines E h e)"
      "\<lambda>ps e. snd (lt_prioritize_files E h ps e)" "\<lambda>ps e. snd (lt_prioritize_pieces E h ps e)"])
    (use assms in \<open>metis accepting_def snd_conv\<close>)+

text \<open>
  C38: A refused selection is kept and can come into force in part. When some index of a selection is not a file of the
  torrent, the call returns \<open>LTKIT_ERROR_INVALID_FILE_INDEX\<close>, but the torrent's desired files are already the
  refused ones, and exactly the files before the first invalid index are marked in a priority vector that looks
  complete. A later \<open>ltkit_session_clear_streaming_window\<close> then validates nothing, applies the files before the
  invalid index, none when it comes first, and returns \<open>LTKIT_OK\<close>. This is stated of an engine whose calls succeed.
\<close>

theorem rejected_selection_applied:
  fixes E :: "('h, 'e) env"
  assumes "lawful E" and "accepting E (handle v) info"
    and "session_job w i = Some v" and "\<not> stopped v" and "\<not> completion_checkpoint v" and "\<not> completion_waiting v"
    and "\<forall>k\<in>set good. 0 \<le> k \<and> k < ti_num_files info" and "bad < 0 \<or> ti_num_files info \<le> bad"
    and "length (good @ bad # rest) \<le> 100000"
  shows "\<exists>w1 w2 v'. ltkit_session_select_files E True (Some i) (Array (good @ bad # rest)) (-1) w
        = (Ret LTKIT_ERROR_INVALID_FILE_INDEX, w1)
    \<and> ltkit_session_clear_streaming_window E True (Some i) w1 = (Ret LTKIT_OK, w2)
    \<and> session_job w2 i = Some v' \<and> desired_files v' = good @ bad # rest
    \<and> files_selected E info good (file_priorities v')
    \<and> (\<exists>e ps. engine w2 = snd (lt_clear_piece_deadlines E (handle v)
        (snd (lt_prioritize_pieces E (handle v) ps (snd (lt_prioritize_files E (handle v) (file_priorities v') e))))))"
proof -
  let ?ks = "good @ bad # rest" and ?n = "nat (ti_num_files info)"
  let ?fps = "snd (mark_files (default_priority E) (ti_num_files info) good (replicate ?n (dont_download E)))"
  let ?v1 = "v\<lparr>desired_files := ?ks, file_priorities := ?fps, piece_priorities := [], primary_file := -1\<rparr>"
  have info: "wf_info info" using lawfulD [OF assms(1)] assms(2) unfolding accepting_def by blast
  obtain T C F P where engine: "\<And>e. lt_torrent_file E (handle v) e = (Inr (Some info), T e)"
    "\<And>e. lt_clear_piece_deadlines E (handle v) e = (Inr (), C e)" "\<And>ps e. lt_prioritize_files E (handle v) ps e = (Inr (), F ps e)"
    "\<And>ps e. lt_prioritize_pieces E (handle v) ps e = (Inr (), P ps e)"
    using assms(2) by (rule acceptingE) blast
  note run = engine guarded_def with_active_job_def find_job_def gets_def bind_def andthen_def engine_call_def set_job_def
    the_job_def fail_run apply_selection_def select_file_priorities_def return_def Let_def
  have len: "length ?fps = ?n" by (simp add: mark_files_length)
  have positive: "0 < ?n" using info by (simp add: wf_info_def)
  have first: "\<exists>w1. ltkit_session_select_files E True (Some i) (Array ?ks) (-1) w = (Ret LTKIT_ERROR_INVALID_FILE_INDEX, w1)
      \<and> session_job w1 i = Some ?v1"
    using assms(3-6,9) positive by (simp add: ltkit_session_select_files_def run mark_files_rejected [OF assms(7,8)])
  then obtain w1 where w1: "ltkit_session_select_files E True (Some i) (Array ?ks) (-1) w = (Ret LTKIT_ERROR_INVALID_FILE_INDEX, w1)"
    "session_job w1 i = Some ?v1" by blast
  obtain ps where ps: "select_piece_priorities E info (?v1\<lparr>deadline_pieces := {}\<rparr>) = Some ps"
    using select_piece_priorities_some [OF info] by blast
  have "\<exists>w2 v'. ltkit_session_clear_streaming_window E True (Some i) w1 = (Ret LTKIT_OK, w2) \<and> session_job w2 i = Some v'
      \<and> desired_files v' = ?ks \<and> file_priorities v' = ?fps
      \<and> (\<exists>e ps. engine w2 = snd (lt_clear_piece_deadlines E (handle v)
        (snd (lt_prioritize_pieces E (handle v) ps (snd (lt_prioritize_files E (handle v) ?fps e))))))"
    using assms(4) w1(2) len ps by (auto simp: ltkit_session_clear_streaming_window_def run)
  moreover have "files_selected E info good ?fps"
    using mark_files_nth [of "default_priority E" "ti_num_files info" good] mark_files_ok [of "default_priority E" "ti_num_files info" good] assms(7) len
    by (simp add: files_selected_def)
  ultimately show ?thesis using w1(1) by metis
qed

section \<open>Adding torrents\<close>

definition added_job :: "add_request \<Rightarrow> 'h job \<Rightarrow> bool" where
  "added_job rq v \<longleftrightarrow> \<not> stopped v \<and> checkpoint v = new_checkpoint \<and> \<not> completion_checkpoint v \<and> \<not> completion_waiting v
     \<and> primary_file v = rq_primary rq \<and> completion_stops v = (rq_policy rq = 0) \<and> final_status v = None
     \<and> (rq_has_selection rq \<and> c_count (rq_selected rq) > 0 \<longrightarrow> desired_files v = c_items (rq_selected rq))"

text \<open>Programs that keep the jobs however they end, and programs that, when they succeed, have added one.\<close>

definition frames :: "('h, 'e, 'a) session_prog \<Rightarrow> bool" where
  "frames p \<longleftrightarrow> (\<forall>w. jobs (snd (p w)) = jobs w)"

definition registers :: "string \<Rightarrow> add_request \<Rightarrow> ('h, 'e, int) session_prog \<Rightarrow> bool" where
  "registers i rq p \<longleftrightarrow> (\<forall>w w'. p w = (Ret LTKIT_OK, w') \<longrightarrow> (\<exists>v. jobs w' = AList.update i v (jobs w) \<and> added_job rq v))"

lemma framesD: "frames p \<Longrightarrow> p w = (r, w') \<Longrightarrow> jobs w' = jobs w"
  unfolding frames_def by (metis snd_conv)

lemma frames_basic:
  "frames (engine_call c)" "frames (mailbox_call d)" "frames (return x)" "frames notify_all" "frames (crash c')"
  "frames (fail code msg)"
  by (auto simp: frames_def engine_call_def mailbox_call_def notify_all_def fail_def set_error_def prog_defs
      split: prod.splits sum.splits)

lemma frames_bind: "frames p \<Longrightarrow> (\<And>x. frames (f x)) \<Longrightarrow> frames (bind p f)"
  unfolding frames_def bind_def by (auto split: prod.splits outcome.splits) (metis snd_conv)+

lemma frames_andthen: "frames p \<Longrightarrow> frames q \<Longrightarrow> frames (andthen p q)"
  unfolding andthen_def by (rule frames_bind)

lemma frames_if: "frames p \<Longrightarrow> frames q \<Longrightarrow> frames (if b then p else q)"
  by simp

lemma frames_enqueue: "frames (enqueue E i kind json)"
  unfolding enqueue_def by (intro frames_andthen frames_basic)

lemmas frames_intros = frames_basic frames_bind frames_andthen frames_if frames_enqueue

lemma registers_bind: "frames p \<Longrightarrow> (\<And>x. registers i rq (f x)) \<Longrightarrow> registers i rq (bind p f)"
  unfolding registers_def by (auto simp: bind_def split: prod.splits outcome.splits ) (metis framesD)

lemma registers_andthen: "frames p \<Longrightarrow> registers i rq q \<Longrightarrow> registers i rq (andthen p q)"
  unfolding andthen_def by (rule registers_bind)

lemma registers_fail: "code \<noteq> LTKIT_OK \<Longrightarrow> registers i rq (fail code msg)"
  by (simp add: registers_def fail_run)

lemma registers_if: "(b \<Longrightarrow> registers i rq p) \<Longrightarrow> (\<not> b \<Longrightarrow> registers i rq q) \<Longrightarrow> registers i rq (if b then p else q)"
  by simp

lemma registers_option:
  "registers i rq p \<Longrightarrow> (\<And>x. registers i rq (f x)) \<Longrightarrow> registers i rq (case v of None \<Rightarrow> p | Some x \<Rightarrow> f x)"
  by (cases v) auto

lemma registers_job:
  assumes "added_job rq v" and "frames q"
  shows "registers i rq (andthen (modify (\<lambda>w. w\<lparr>jobs := AList.update i v (jobs w)\<rparr>)) q)"
  unfolding registers_def
proof (intro allI impI)
  fix w w' assume "andthen (modify (\<lambda>w. w\<lparr>jobs := AList.update i v (jobs w)\<rparr>)) q w = (Ret LTKIT_OK, w')"
  then have "q (w\<lparr>jobs := AList.update i v (jobs w)\<rparr>) = (Ret LTKIT_OK, w')" by (simp add: prog_defs)
  with assms have "jobs w' = AList.update i v (jobs w)" by (auto dest: framesD)
  with assms(1) show "\<exists>v. jobs w' = AList.update i v (jobs w) \<and> added_job rq v" by blast
qed

lemma registers_register:
  assumes "rq_has_selection rq \<and> c_count (rq_selected rq) > 0 \<longrightarrow> desired = c_items (rq_selected rq)"
  shows "registers i rq (register_torrent E i rq desired params)"
proof -
  have fresh: "added_job rq ((new_job h)\<lparr>desired_files := desired, file_priorities := f, piece_priorities := p,
      primary_file := rq_primary rq, metadata_ready := b, completion_stops := (rq_policy rq = 0)\<rparr>)" for h :: 'h and f p b
    using assms by (auto simp: added_job_def new_job_def)
  show ?thesis
    unfolding register_torrent_def
    by (intro registers_bind registers_option registers_fail registers_andthen registers_job fresh frames_intros)
      (simp_all add: code_defs)
qed

lemma registers_admitted: "registers i rq (add_admitted E i rq)"
proof -
  have parsed: "registers i rq (add_parsed E i rq params)" for params
    unfolding add_parsed_def Let_def
    by (intro registers_option registers_fail registers_register) (simp_all add: code_defs desired_of_def)
  show ?thesis
    unfolding add_admitted_def parse_source_def read_resume_def
    by (intro registers_if registers_fail registers_bind registers_option frames_intros parsed) (simp_all add: code_defs)
qed

lemma add_accepted:
  assumes "ltkit_session_add E True rq w = (Ret LTKIT_OK, w')" and "rq_identifier rq = Some i"
  shows "session_job w i = None" "\<exists>v. jobs w' = AList.update i v (jobs w) \<and> added_job rq v"
proof -
  from assms(1) have "\<not> add_request_invalid True rq"
    by (auto simp: ltkit_session_add_def fail_run code_defs split: if_splits)
  with assms show "session_job w i = None" "\<exists>v. jobs w' = AList.update i v (jobs w) \<and> added_job rq v"
    using registers_admitted [of i rq E] unfolding registers_def
    by (auto simp: ltkit_session_add_def fail_run bind_gets code_defs dest!: guarded_OK [simplified code_defs] split: if_splits)
qed

text \<open>
  C27: A torrent the session accepts is registered exactly once: the identifier was free, the job that
  now stands under it is active, has the requested primary file and completion policy and, when files were
  selected, exactly these as its desired files; no other torrent changes.
\<close>

theorem add_registers:
  assumes "ltkit_session_add E True rq w = (Ret LTKIT_OK, w')" and "rq_identifier rq = Some i"
  shows "session_job w i = None \<and> (\<exists>v. session_job w' i = Some v \<and> added_job rq v)
    \<and> (\<forall>k. k \<noteq> i \<longrightarrow> session_job w' k = session_job w k)"
  using add_accepted [OF assms] by auto

section \<open>Removing torrents\<close>

lemma retire_queue: "queue_of k (retire i m) = queue_of k m"
  by (simp add: retire_def queue_of_def Let_def split: option.splits)

lemma retire_gone:
  assumes "mailbox_inv m" and "job_at m i = Some j" and "\<not> Job_retired j"
  shows "job_at (retire i m) i = None \<longleftrightarrow> entries_of i (critical_list m) = []"
  using mailbox_invD(5) [OF assms(1,2)] assms(2) mailbox_invD(1) [OF assms(1)]
  by (auto simp: retire_def Let_def Job_ok_def erase_Job_def)

text \<open>
  C29: Removing a torrent forgets its job and touches no other torrent. Events it has already queued stay
  readable, in order; the identifier is free for a new torrent at once when none were queued, and otherwise
  only when they have been read.
\<close>

theorem remove_forgets:
  assumes "session_inv W w" and "session_job w i = Some v"
    and run: "ltkit_session_remove E True (Some i) delete_files w = (Ret LTKIT_OK, w')"
  shows "session_job w' i = None \<and> (\<forall>k. k \<noteq> i \<longrightarrow> session_job w' k = session_job w k)
    \<and> (\<forall>k. queue_of k (events w') = queue_of k (events w))
    \<and> (job_at (events w') i = None \<longleftrightarrow> entries_of i (critical_list (events w)) = [])"
proof -
  from assms(1,2) obtain j where "mailbox_inv (events w)" "job_at (events w) i = Some j" "\<not> Job_retired j"
    unfolding session_inv_def admitted_def by blast
  note gone = retire_gone [OF this]
  have "events w' = retire i (events w)" "jobs w' = AList.delete i (jobs w)"
    using guarded_OK [of _ w w'] run assms(2)
    by (auto simp: ltkit_session_remove_def guarded_def find_job_def bind_gets fail_run code_defs prog_defs engine_call_def
        notify_all_def fail_def set_error_def split: if_splits prod.splits sum.splits exn.splits outcome.splits)
  with gone show ?thesis by (simp add: retire_queue delete_conv')
qed

section \<open>Reading events\<close>

text \<open>
  An event leaves the mailbox exactly when it is handed out. When the call returns \<open>LTKIT_OK\<close> the buffer
  holds the event at the front and this event is popped; with any other code (no event in time, shutdown,
  no memory for the copy) the mailbox is as it was. The torrents are not touched.
\<close>

theorem next_event_exactly_once:
  assumes "session_inv W w"
    and "ltkit_session_next_event E (\<lambda>_. ks) id True timeout_ms True w = (Ret (code, out), w')" and "0 \<le> timeout_ms"
  shows "jobs w' = jobs w \<and> (if code = LTKIT_OK
     then mailbox_front ks (events w) = Some (taken_data out) \<and> events w' = snd (mailbox_pop ks (events w))
     else events w' = events w)"
proof (cases "shutting_down w \<or> mailbox_front ks (events w) = None")
  case True
  with assms(2,3) show ?thesis
    by (auto simp: ltkit_session_next_event_def guarded_with_def wait_for_def event_woken_def prog_defs code_defs
        split: if_splits option.splits)
next
  case False
  then obtain json where json: "mailbox_front ks (events w) = Some json" by blast
  have pop: "fst (mailbox_pop ks (events w)) = Ret ()"
    using assms(1) by (simp add: session_inv_def pop_outcome)
  obtain copied buffer e where copy: "copy_buffer E json (engine w) = ((copied, buffer), e)" by (metis surj_pair)
  then have data: "copied \<Longrightarrow> taken_data (Some buffer) = json"
    by (auto simp: copy_buffer_def empty_buffer_def taken_data_def Let_def split: if_splits prod.splits)
  from False json copy pop assms(2,3) data show ?thesis
    by (auto simp: ltkit_session_next_event_def guarded_with_def system_call_def mailbox_call_def fail_def set_error_def
        prog_defs code_defs case_prod_beta split: if_splits)
qed

section \<open>The streaming plan of the wrapper\<close>

text \<open>The codes that reject a request for its arguments or its offset.\<close>

definition argument_code :: "int \<Rightarrow> bool" where
  "argument_code code \<longleftrightarrow> code = LTKIT_ERROR_INVALID_ARGUMENT \<or> code = LTKIT_ERROR_INVALID_OFFSET"

text \<open>What \<open>update_window\<close> does after its checks.\<close>

definition window_opened ::
  "('h, 'e) env \<Rightarrow> (rat \<Rightarrow> rat) \<Rightarrow> string \<Rightarrow> 'h \<Rightarrow> torrent_info \<Rightarrow> int \<Rightarrow> int \<Rightarrow> int \<Rightarrow> int \<Rightarrow> int \<Rightarrow> bool
     \<Rightarrow> ('h, 'e, int \<times> ltkit_buffer option) session_prog" where
  "window_opened E rnd i h info k byte_offset critical_bytes warm_bytes rate edges =
     andthen (engine_call (lt_clear_piece_deadlines E h)) (bind (apply_selection E i) (\<lambda>applied.
       if \<not> applied then fail_with LTKIT_ERROR_INVALID_FILE_INDEX ''A requested file index is invalid.''
       else case streaming_window info k byte_offset critical_bytes warm_bytes of
         None \<Rightarrow> crash Undefined_behaviour
       | Some win \<Rightarrow> apply_window E rnd i h info k byte_offset rate edges win))"

lemma jt_window_opened:
  assumes "rounding rnd" and "0 < rate" and "lawful E" and "streaming_window info k byte_offset critical_bytes warm_bytes = Some win"
  shows "job_triple i (\<lambda>j m. True) (window_opened E rnd i h info k byte_offset critical_bytes warm_bytes rate edges)
    (\<lambda>r j m. fst r = LTKIT_OK \<longrightarrow> window_applied k byte_offset win r j) (\<lambda>j m. True)"
  unfolding window_opened_def assms(4) option.case
  by (rule jt_pre, (rule jt_bind jt_if jt_andthen jt_engine jt_fail_with jt_apply_selection assms(3) jt_apply_window [OF assms(1,2)])+)
    (auto simp: code_defs)

lemma ends_window_opened:
  "ends (\<lambda>r. \<not> argument_code (fst r)) (window_opened E rnd i h info k byte_offset critical_bytes warm_bytes rate edges)"
  unfolding window_opened_def apply_window_def by (intro ends_intros ends_calls) (auto simp: argument_code_def code_defs)

lemma guarded_out_result:
  assumes "guarded_out p w = (Ret (code, out), w')"
  obtains "p w = (Ret (code, out), w')" | "\<not> argument_code code" "code \<noteq> LTKIT_OK"
  using assms by (auto simp: guarded_with_def guarded_def fail_def set_error_def prog_defs code_defs argument_code_def
      split: prod.splits outcome.splits exn.splits)

lemma ends_update_call:
  "ends (\<lambda>_. True) (ltkit_session_update_streaming_window E rnd session i k byte_offset critical_bytes warm_bytes rate edges output)"
proof -
  have "ends (\<lambda>r. declared (fst r)) (ltkit_session_update_streaming_window E rnd session i k byte_offset critical_bytes warm_bytes rate edges output)"
    unfolding ltkit_session_update_streaming_window_def
    by (intro ends_intros ends_guarded_out ends_active_out ends_update_window) auto
  then show ?thesis by (auto simp: ends_def split: outcome.splits)
qed

lemma update_call_returns:
  assumes "sound_engine E rnd" and "session_inv W w"
  shows "\<exists>code out w'. ltkit_session_update_streaming_window E rnd True (Some i) k byte_offset critical_bytes warm_bytes rate edges True w
    = (Ret (code, out), w')"
proof -
  let ?call = "ltkit_session_update_streaming_window E rnd True (Some i) k byte_offset critical_bytes warm_bytes rate edges True"
  have ok: "hoare (session_inv W) ?call (\<lambda>_. session_inv W) (\<lambda>_. False)"
    using assms(1) by (auto simp: sound_engine_def intro: update_window_ok)
  obtain r w' where run: "?call w = (r, w')" by fastforce
  with hoare_ThrowD [OF ok assms(2)] hoare_CrashD [OF ok assms(2)] endsD(2) [OF ends_update_call]
  show ?thesis by (cases r) (auto, blast)
qed

lemma window_opened_run:
  assumes "sound_engine E rnd" and "session_inv W w" and "session_job w i = Some v" and "0 < rate"
    and "streaming_window info k byte_offset critical_bytes warm_bytes = Some win"
    and "guarded_out (window_opened E rnd i (handle v) info k byte_offset critical_bytes warm_bytes rate edges) w = (Ret (code, out), w')"
  shows "\<not> argument_code code \<and> (code = LTKIT_OK \<longrightarrow> (\<exists>v'. session_job w' i = Some v' \<and> window_applied k byte_offset win (code, out) v'))"
  using assms(6)
proof (cases rule: guarded_out_result)
  case 1
  from assms(1) have "rounding rnd" "lawful E" by (simp_all add: sound_engine_def)
  from job_triple_run [OF jt_window_opened [OF this(1) assms(4) this(2) assms(5)] assms(2,3), of "handle v" edges] 1
    endsD(1) [OF ends_window_opened 1]
  show ?thesis by (auto simp: focus_def)
qed simp

text \<open>
  C18: The native call agrees with the plan the Swift wrapper makes from the same layout, for a selected file of an
  active torrent whose metadata is known. The call returns, and it rejects the request for its arguments or its
  offset exactly when \<open>PieceWindowPlan.make\<close> throws. When the wrapper makes a plan and the call succeeds, the window
  applied is the planned one. The wrapper stops the process only for a file that ends at byte \<open>2 ^ 63\<close> exactly.
  The native call alone also rejects inactive torrents and files that are not selected, and reports failures of the engine.
\<close>

theorem streaming_plan_equivalent:
  assumes "sound_engine E rnd" and "session_reachable E rnd W w" and "session_job w i = Some v" and "\<not> stopped v"
    and "lt_torrent_file E (handle v) (engine w) = (Inr (Some info), e)"
    and "0 \<le> k" and "k < ti_num_files info" and "k \<in> set (desired_files v)" and "warm_bytes < 2 ^ 63"
  shows "\<exists>code out w'. ltkit_session_update_streaming_window E rnd True (Some i) k byte_offset critical_bytes warm_bytes rate edges True w
      = (Ret (code, out), w')
    \<and> (case PieceWindowPlan_make (ti_file_offset info k) (ti_file_size info k) (ti_piece_length info)
          byte_offset critical_bytes warm_bytes rate of
        Plan_throws \<Rightarrow> argument_code code
      | Plan_traps \<Rightarrow> \<not> argument_code code \<and> ti_file_offset info k + ti_file_size info k = 2 ^ 63
      | Plan plan \<Rightarrow> \<not> argument_code code
          \<and> (code = LTKIT_OK \<longrightarrow> (\<exists>win v'. session_job w' i = Some v' \<and> window_applied k byte_offset win (code, out) v' \<and> plan = plan_of win)))"
proof -
  have inv: "session_inv W w" by (rule reachable_inv [OF assms(2,1)])
  obtain code out w' where run: "ltkit_session_update_streaming_window E rnd True (Some i) k byte_offset critical_bytes warm_bytes rate
      edges True w = (Ret (code, out), w')" using update_call_returns [OF assms(1) inv] by blast
  note call = ltkit_session_update_streaming_window_def guarded_with_def with_active_out_def find_job_def bind_gets update_window_def
  show ?thesis
  proof (cases "byte_offset < 0 \<or> critical_bytes \<le> 0 \<or> warm_bytes < critical_bytes \<or> rate \<le> 0
      \<or> ti_file_size info k \<le> 0 \<or> byte_offset \<ge> ti_file_size info k")
    case True
    then have "PieceWindowPlan_make (ti_file_offset info k) (ti_file_size info k) (ti_piece_length info)
          byte_offset critical_bytes warm_bytes rate = Plan_throws"
      by (auto simp: PieceWindowPlan_make_def)
    moreover have "argument_code code"
      using True run assms(3-8)
      by (auto simp: call engine_call_def fail_with_def fail_def set_error_def prog_defs argument_code_def split: if_splits)
    ultimately show ?thesis using run by auto
  next
    case False
    moreover have "wf_layout info" using assms(1,5) by (auto simp: sound_engine_def dest: laid_outD)
    ultimately have request: "window_request info k byte_offset critical_bytes warm_bytes" and rate: "0 < rate"
      using assms(6,7) by (auto simp: window_request_def)
    obtain win where win: "streaming_window info k byte_offset critical_bytes warm_bytes = Some win"
      using streaming_window_eq [OF request] by blast
    have "guarded_out (window_opened E rnd i (handle v) info k byte_offset critical_bytes warm_bytes rate edges) (w\<lparr>engine := e\<rparr>)
        = (Ret (code, out), w')"
      using run False assms(3-8) by (simp add: call window_opened_def bind_def [of "engine_call (lt_torrent_file E (handle v))"]
          engine_call_def [of "lt_torrent_file E (handle v)"])
    from window_opened_run [OF assms(1) _ _ rate win this, of W] inv assms(3) run plan_window [OF request rate assms(9) win]
    show ?thesis by (intro exI [of _ code] exI [of _ out] exI [of _ w']) auto
  qed
qed

section \<open>Witnesses\<close>

lemma sample_session_job: "session_job sample_session ''t'' = Some sample_job"
  by (simp add: sample_session_def)

lemma sample_job_active:
  "\<not> stopped sample_job" "\<not> completion_checkpoint sample_job" "\<not> completion_waiting sample_job"
  by (simp_all add: sample_job_def new_job_def)

theorem inactive_torrent_refused_witness:
  "run_call sample_env (\<lambda>x. x) (Start (Some ''u'')) sample_session
     = (Ret LTKIT_ERROR_INVALID_IDENTIFIER, sample_session\<lparr>last_error := not_active\<rparr>)"
  by (rule inactive_torrent_refused [where i = "''u''"]) (simp_all add: sample_session_def)

theorem select_files_exact_witness:
  "\<exists>w' v'. ltkit_session_select_files sample_env True (Some ''t'') (Array [0]) 0 sample_session = (Ret LTKIT_OK, w')
     \<and> session_job w' ''t'' = Some v' \<and> desired_files v' = [0]"
proof -
  have "fst (ltkit_session_select_files sample_env True (Some ''t'') (Array [0]) 0 sample_session) = Ret LTKIT_OK"
    unfolding ltkit_session_select_files_def by (subst if_not_P, simp, code_simp)
  then obtain w' where run: "ltkit_session_select_files sample_env True (Some ''t'') (Array [0]) 0 sample_session = (Ret LTKIT_OK, w')"
    by (metis prod.collapse)
  from select_files_exact [OF sample_lawful sample_session_inv run] run show ?thesis by auto
qed

theorem rejected_selection_applied_witness:
  "\<exists>w1 w2. ltkit_session_select_files sample_env True (Some ''t'') (Array [0, 7]) (-1) sample_session
        = (Ret LTKIT_ERROR_INVALID_FILE_INDEX, w1)
    \<and> ltkit_session_clear_streaming_window sample_env True (Some ''t'') w1 = (Ret LTKIT_OK, w2)"
proof -
  have "accepting sample_env (handle sample_job) sample_info" by (simp add: accepting_def)
  from rejected_selection_applied [OF sample_lawful this sample_session_job sample_job_active, of "[0]" 7 "[]"]
  show ?thesis by auto
qed

lemma sample_add_valid: "\<not> add_request_invalid True sample_add"
  by (simp add: add_request_invalid_def sample_add_def kMaxSourceBytes_def kMaxResumeBytes_def)



theorem add_registers_witness:
  "\<exists>v. session_job sample_added ''t'' = Some v \<and> added_job sample_add v"
proof -
  have "ltkit_session_add sample_env True sample_add (new_session sample_disk) = (Ret LTKIT_OK, sample_added)"
    using sample_add_runs by (simp add: sample_added_def prod_eq_iff)
  from add_registers [OF this] show ?thesis by (simp add: sample_add_def)
qed

theorem remove_forgets_witness:
  "\<exists>w'. ltkit_session_remove sample_env True (Some ''t'') False sample_session = (Ret LTKIT_OK, w') \<and> session_job w' ''t'' = None"
proof -
  have "fst (ltkit_session_remove sample_env True (Some ''t'') False sample_session) = Ret LTKIT_OK" by code_simp
  then obtain w' where run: "ltkit_session_remove sample_env True (Some ''t'') False sample_session = (Ret LTKIT_OK, w')"
    by (metis prod.collapse)
  from remove_forgets [OF sample_session_inv sample_session_job run] run show ?thesis by blast
qed

lemma sample_next_event:
  "\<exists>out w'. ltkit_session_next_event sample_env (\<lambda>_. [''t'']) id True 0 True sample_added = (Ret (LTKIT_OK, out), w')"
  by (simp add: sample_added_def sample_add_eval ltkit_session_next_event_def guarded_with_def mailbox_front_def
      system_call_def copy_buffer_def metadata_event_def mailbox_pop_def)

theorem next_event_exactly_once_witness:
  "\<exists>out w'. ltkit_session_next_event sample_env (\<lambda>_. [''t'']) id True 0 True sample_added = (Ret (LTKIT_OK, out), w')
     \<and> mailbox_front [''t''] (events sample_added) = Some (taken_data out)"
proof -
  obtain out w' where run: "ltkit_session_next_event sample_env (\<lambda>_. [''t'']) id True 0 True sample_added
      = (Ret (LTKIT_OK, out), w')" using sample_next_event by blast
  from next_event_exactly_once [OF reachable_inv [OF sample_reachable sample_sound] run] run show ?thesis by auto
qed

definition sample_configuration :: configuration where
  "sample_configuration = \<lparr>user_agent = Some ''a'', ca_bundle_path = Some ''/c'', listen_port_start = 6881, listen_port_end = 6891,
     enable_dht = True, enable_lsd = True, enable_upnp = True, enable_natpmp = True\<rparr>"

theorem session_create_outcome_witness:
  "\<exists>w. ltkit_session_create (\<lambda>p e. (Inr (p = ''/c''), e)) (\<lambda>n v e. e) (\<lambda>s e. (Inr (), e)) (\<lambda>e. (Inr (), e))
       (Some sample_configuration) True sample_disk = ((LTKIT_OK, Some w), sample_disk)
    \<and> session_reachable sample_env (\<lambda>x. x) {} w"
proof -
  have run: "ltkit_session_create (\<lambda>p e. (Inr (p = ''/c''), e)) (\<lambda>n v e. e) (\<lambda>s e. (Inr (), e)) (\<lambda>e. (Inr (), e))
      (Some sample_configuration) True sample_disk = ((LTKIT_OK, Some (new_session sample_disk)), sample_disk)"
    by (simp add: ltkit_session_create_def sample_configuration_def)
  from session_create_outcome [OF this, of sample_env "\<lambda>x. x"] run show ?thesis by auto
qed

theorem streaming_plan_equivalent_witness:
  "\<exists>code out w'. ltkit_session_update_streaming_window sample_env (\<lambda>x. x) True (Some ''t'') 0 1 2 3 10 True True sample_added
      = (Ret (code, out), w') \<and> \<not> argument_code code
    \<and> PieceWindowPlan_make 0 5 2 1 2 3 10 = Plan \<lparr>firstPiece = 0, criticalLastPiece = 1, warmLastPiece = 1, playbackPiece = 0\<rparr>"
proof -
  have plan: "PieceWindowPlan_make 0 5 2 1 2 3 10 = Plan \<lparr>firstPiece = 0, criticalLastPiece = 1, warmLastPiece = 1, playbackPiece = 0\<rparr>"
    by code_simp
  obtain v where "session_job sample_added ''t'' = Some v" "\<not> stopped v" "desired_files v = [0]"
    by (simp add: sample_added_def sample_add_eval new_job_def)
  from streaming_plan_equivalent [OF sample_sound sample_reachable this(1,2), of sample_info "engine sample_added" 0 3 1 2 10 True] this plan
  show ?thesis by auto
qed

end
