(* ===== verification/Exported_Interface.thy ===== *)
theory Exported_Interface
  imports Checkpoint_Correct Session_Calls
begin

text \<open>
  The exported functions with the arguments a C caller can pass (\<open>src/Native/include/LibtorrentNative.h\<close>):
  null session, identifier and output pointers included, and with the waits of the blocking calls.
\<close>

section \<open>Calls\<close>

text \<open>
  Every exported function that takes a session and returns a code. A \<open>bool\<close> in the place of an output
  pointer says whether it is non-null.
\<close>

datatype exported =
    X_add add_request
  | X_metadata "string option" int bool
  | X_select_files "string option" "int c_array" int
  | X_set_file_priority "string option" int nat
  | X_set_piece_priority "string option" int nat
  | X_start "string option"
  | X_pause "string option"
  | X_status "string option" bool
  | X_pieces "string option" bool
  | X_piece_completion "string option" bool bool
  | X_update_streaming_window "string option" int int int int int bool bool
  | X_clear_streaming_window "string option"
  | X_checkpoint "string option" bool int bool
  | X_remove "string option" bool
  | X_next_event int bool
  | X_take_last_error bool

text \<open>
  \<open>session\<close> says whether the session pointer is non-null; \<open>between\<close> is what other threads do while the call
  waits, and \<open>order\<close> the iteration order of the mailbox.
\<close>

fun exported_call ::
  "('h, 'e) env \<Rightarrow> (rat \<Rightarrow> rat) \<Rightarrow> (('h, 'e) ltkit_session \<Rightarrow> string list)
     \<Rightarrow> (('h, 'e) ltkit_session \<Rightarrow> ('h, 'e) ltkit_session) \<Rightarrow> bool \<Rightarrow> exported \<Rightarrow> ('h, 'e, int) session_prog" where
  "exported_call E rnd order between session (X_add rq) = ltkit_session_add E session rq"
| "exported_call E rnd order between session (X_metadata i timeout_ms out) =
     code_of (ltkit_session_metadata E between session i timeout_ms out)"
| "exported_call E rnd order between session (X_select_files i indexes primary) =
     ltkit_session_select_files E session i indexes primary"
| "exported_call E rnd order between session (X_set_file_priority i k p) = ltkit_session_set_file_priority E session i k p"
| "exported_call E rnd order between session (X_set_piece_priority i k p) = ltkit_session_set_piece_priority E session i k p"
| "exported_call E rnd order between session (X_start i) = ltkit_session_start E session i"
| "exported_call E rnd order between session (X_pause i) = ltkit_session_pause E session i"
| "exported_call E rnd order between session (X_status i out) = code_of (ltkit_session_status E session i out)"
| "exported_call E rnd order between session (X_pieces i out) = code_of (ltkit_session_pieces E session i out)"
| "exported_call E rnd order between session (X_piece_completion i count out) =
     code_of (ltkit_session_piece_completion E session i count out)"
| "exported_call E rnd order between session (X_update_streaming_window i k off critical_bytes warm_bytes rate edges out) =
     code_of (ltkit_session_update_streaming_window E rnd session i k off critical_bytes warm_bytes rate edges out)"
| "exported_call E rnd order between session (X_clear_streaming_window i) = ltkit_session_clear_streaming_window E session i"
| "exported_call E rnd order between session (X_checkpoint i flush timeout_ms out) =
     code_of (ltkit_session_checkpoint E between session i flush timeout_ms out)"
| "exported_call E rnd order between session (X_remove i delete_files) = ltkit_session_remove E session i delete_files"
| "exported_call E rnd order between session (X_next_event timeout_ms out) =
     code_of (ltkit_session_next_event E order between session timeout_ms out)"
| "exported_call E rnd order between session (X_take_last_error out) = code_of (ltkit_session_take_last_error E session out)"

text \<open>The functions that lock the session without looking at the pointer.\<close>

fun locks_unchecked :: "exported \<Rightarrow> bool" where
  "locks_unchecked (X_start i) = True"
| "locks_unchecked (X_pause i) = True"
| "locks_unchecked (X_clear_streaming_window i) = True"
| "locks_unchecked _ = False"

text \<open>Resume data is not null with a positive size.\<close>

fun arguments_readable :: "exported \<Rightarrow> bool" where
  "arguments_readable (X_add rq) = resume_readable rq"
| "arguments_readable _ = True"

text \<open>
  What other threads do while a call waits: critical sections of the session, from which the caller of a
  checkpoint keeps its own claim.
\<close>

fun interleaves ::
  "('h, 'e) env \<Rightarrow> (rat \<Rightarrow> rat) \<Rightarrow> (('h, 'e) ltkit_session \<Rightarrow> ('h, 'e) ltkit_session) \<Rightarrow> exported \<Rightarrow> bool" where
  "interleaves E rnd between (X_checkpoint (Some i) flush timeout_ms out) = awaits E rnd i between"
| "interleaves E rnd between c \<longleftrightarrow> (\<forall>W w. session_reachable E rnd W w \<longrightarrow>
     (\<exists>W'. (session_step E rnd)\<^sup>*\<^sup>* (W, w) (W', between w)))"

section \<open>Every call is a step of the session\<close>

definition returns_in :: "('h, 'e) env \<Rightarrow> (rat \<Rightarrow> rat) \<Rightarrow> int outcome \<times> ('h, 'e) ltkit_session \<Rightarrow> bool" where
  "returns_in E rnd r \<longleftrightarrow> (\<exists>code w' W'. r = (Ret code, w') \<and> declared code \<and> session_reachable E rnd W' w')"

lemma returns_rejected:
  "session_reachable E rnd W w \<Longrightarrow> returns_in E rnd (Ret LTKIT_ERROR_INVALID_ARGUMENT, w)"
  unfolding returns_in_def using declared_codes(3) by blast

lemma run_call_returns:
  assumes "sound_engine E rnd" and "\<not> asserts E" and "session_reachable E rnd W w" and "call_ok c"
  shows "returns_in E rnd (run_call E rnd c w)"
proof -
  obtain code w' where "run_call E rnd c w = (Ret code, w')" "declared code"
    using run_call_declared [OF assms(1,3,4,2)] by blast
  with step_reachable [OF assms(3) step_call [OF assms(4)]] show ?thesis unfolding returns_in_def by blast
qed

text \<open>A call that does not wait, or a waiting call after its wait, is one critical section or rejects its arguments.\<close>

lemma exported_cases:
  assumes "arguments_readable c" and "\<And>i t out. c \<noteq> X_metadata i t out" and "\<And>i flush t out. c \<noteq> X_checkpoint i flush t out"
    and "\<And>t out. c \<noteq> X_next_event t out"
  shows "(\<exists>c'. call_ok c' \<and> exported_call E rnd order between True c w = run_call E rnd c' w)
    \<or> exported_call E rnd order between True c w = (Ret LTKIT_ERROR_INVALID_ARGUMENT, w)"
proof (cases c)
  case (X_add rq)
  with assms(1) show ?thesis by (intro disjI1 exI [of _ "Add rq"]) simp
next
  case (X_select_files i ks p)
  then show ?thesis by (intro disjI1 exI [of _ "Select_files i ks p"]) simp
next
  case (X_set_file_priority i k p)
  then show ?thesis by (intro disjI1 exI [of _ "Set_file_priority i k p"]) simp
next
  case (X_set_piece_priority i k p)
  then show ?thesis by (intro disjI1 exI [of _ "Set_piece_priority i k p"]) simp
next
  case (X_start i)
  then show ?thesis by (intro disjI1 exI [of _ "Start i"]) simp
next
  case (X_pause i)
  then show ?thesis by (intro disjI1 exI [of _ "Pause i"]) simp
next
  case (X_status i out)
  then show ?thesis
    by (cases out) (auto intro: exI [of _ "Status i"] simp: ltkit_session_status_def code_of_def prog_defs)
next
  case (X_pieces i out)
  then show ?thesis
    by (cases out) (auto intro: exI [of _ "Pieces i"] simp: ltkit_session_pieces_def code_of_def prog_defs)
next
  case (X_piece_completion i count out)
  then show ?thesis
    by (cases "count \<and> out") (auto intro: exI [of _ "Piece_completion i"] simp: ltkit_session_piece_completion_def code_of_def prog_defs)
next
  case (X_update_streaming_window i k off critical_bytes warm_bytes rate edges out)
  then show ?thesis
    by (cases out) (auto intro: exI [of _ "Update_window i k off critical_bytes warm_bytes rate edges"]
      simp: ltkit_session_update_streaming_window_def code_of_def prog_defs)
next
  case (X_clear_streaming_window i)
  then show ?thesis by (intro disjI1 exI [of _ "Clear_window i"]) simp
next
  case (X_remove i d)
  then show ?thesis by (intro disjI1 exI [of _ "Remove i d"]) simp
next
  case (X_take_last_error out)
  then show ?thesis
    by (cases out) (auto intro: exI [of _ Take_last_error] simp: ltkit_session_take_last_error_def code_of_def prog_defs)
qed (use assms in auto)

lemma null_session_rejected:
  assumes "\<not> locks_unchecked c"
  shows "exported_call E rnd order between False c w = (Ret LTKIT_ERROR_INVALID_ARGUMENT, w)"
  using assms
  by (cases c) (auto simp: ltkit_session_add_def add_request_invalid_def ltkit_session_metadata_def ltkit_session_select_files_def
      ltkit_session_set_file_priority_def ltkit_session_set_piece_priority_def ltkit_session_status_def ltkit_session_pieces_def
      ltkit_session_piece_completion_def ltkit_session_update_streaming_window_def ltkit_session_checkpoint_def
      ltkit_session_remove_def ltkit_session_next_event_def ltkit_session_take_last_error_def code_of_def prog_defs
      split: option.splits)

lemma null_session_undefined:
  assumes "locks_unchecked c"
  shows "exported_call E rnd order between False c w = (Crash Undefined_behaviour, w)"
  using assms
  by (cases c) (auto simp: ltkit_session_start_def ltkit_session_pause_def ltkit_session_clear_streaming_window_def crash_def)

lemma next_event_order:
  "ltkit_session_next_event E order id True 0 True w = ltkit_session_next_event E (\<lambda>_. order w) id True 0 True w"
  by (simp add: ltkit_session_next_event_def guarded_with_def bind_gets wait_for_def event_woken_def andthen_def bind_def
      return_def gets_def)

lemma metadata_returns:
  assumes "sound_engine E rnd" and "\<not> asserts E" and reach: "session_reachable E rnd W w"
    and "interleaves E rnd between (X_metadata i timeout_ms out)"
  shows "returns_in E rnd (exported_call E rnd order between True (X_metadata i timeout_ms out) w)"
proof (cases "out \<and> 0 \<le> timeout_ms \<and> i \<noteq> None")
  case False
  then have "exported_call E rnd order between True (X_metadata i timeout_ms out) w = (Ret LTKIT_ERROR_INVALID_ARGUMENT, w)"
    by (auto simp: ltkit_session_metadata_def code_of_def prog_defs split: option.splits)
  with returns_rejected [OF reach] show ?thesis by simp
next
  case True
  then obtain k where k: "i = Some k" "out" "0 \<le> timeout_ms" by blast
  note returns = run_call_returns [OF assms(1,2)]
  show ?thesis
  proof (cases "\<exists>v. session_job w k = Some v \<and> \<not> stopped v \<and> \<not> metadata_ready v")
    case True
    then obtain v where "session_job w k = Some v" "\<not> stopped v" "\<not> metadata_ready v" by blast
    note cut = metadata_cut [OF k(3) this, of E between]
    let ?w = "if shutting_down w then w else between w" and ?g = "wake_generation w"
    have "\<exists>W'. session_reachable E rnd W' ?w" using assms(4) reach steps_reachable by fastforce
    then obtain W' where "session_reachable E rnd W' ?w" by blast
    from returns [OF this, of "Metadata_woken k ?g (metadata_woken k ?g ?w)"] cut k show ?thesis
      by (simp add: code_of_def bind_def Let_def)
  next
    case False
    then have "ltkit_session_metadata E between True (Some k) timeout_ms True w = ltkit_session_metadata E id True (Some k) 0 True w"
      by (intro metadata_uncut k(3)) blast
    with returns [OF reach, of "Metadata k"] k show ?thesis by (simp add: code_of_def bind_def)
  qed
qed

lemma next_event_returns:
  assumes "sound_engine E rnd" and "\<not> asserts E" and reach: "session_reachable E rnd W w"
    and "interleaves E rnd between (X_next_event timeout_ms out)"
  shows "returns_in E rnd (exported_call E rnd order between True (X_next_event timeout_ms out) w)"
proof (cases "out \<and> 0 \<le> timeout_ms")
  case False
  then have "exported_call E rnd order between True (X_next_event timeout_ms out) w = (Ret LTKIT_ERROR_INVALID_ARGUMENT, w)"
    by (auto simp: ltkit_session_next_event_def code_of_def prog_defs)
  with returns_rejected [OF reach] show ?thesis by simp
next
  case True
  let ?w = "if mailbox_front (order w) (events w) = None \<and> \<not> shutting_down w then between w else w"
  have "\<exists>W'. session_reachable E rnd W' ?w" using assms(4) reach steps_reachable by fastforce
  then obtain W' where "session_reachable E rnd W' ?w" by blast
  from run_call_returns [OF assms(1,2) this, of "Next_event (order ?w)"] True
    next_event_cut [of timeout_ms E order between w] next_event_order [of E order ?w]
  show ?thesis by (simp add: code_of_def bind_def)
qed

lemma checkpoint_returns:
  assumes "sound_engine E rnd" and reach: "session_reachable E rnd W w"
    and "interleaves E rnd between (X_checkpoint i flush timeout_ms out)"
  shows "returns_in E rnd (exported_call E rnd order between True (X_checkpoint i flush timeout_ms out) w)"
proof (cases "out \<and> 0 < timeout_ms \<and> i \<noteq> None")
  case False
  then have "exported_call E rnd order between True (X_checkpoint i flush timeout_ms out) w = (Ret LTKIT_ERROR_INVALID_ARGUMENT, w)"
    by (auto simp: ltkit_session_checkpoint_def code_of_def prog_defs split: option.splits)
  with returns_rejected [OF reach] show ?thesis by simp
next
  case True
  then obtain k where k: "i = Some k" "out" "0 < timeout_ms" by blast
  with assms(3) have "awaits E rnd k between" by simp
  from checkpoint_run [OF assms(1) reach this k(3), of flush] k show ?thesis
    by (auto simp: returns_in_def code_of_def bind_def return_def declared_def)
qed

section \<open>Properties\<close>

text \<open>
  C2: Every exported function that takes a session and returns a code, called in a reachable session with any
  of its pointers null and any of its numbers out of range, in a build without assertions. It returns: no exception leaves it,
  no undefined behaviour is reached, the code is one of the declared ones, and the session it leaves is
  reachable again. That includes the calls that wait while other threads run any number of critical sections.
  A null session is rejected and changes nothing, but \<open>ltkit_session_start\<close>, \<open>ltkit_session_pause\<close> and
  \<open>ltkit_session_clear_streaming_window\<close> lock it without a check, which is undefined. The one argument
  outside the statement is resume data that is null with a positive size, which the code reads.
\<close>

theorem exported_calls_return:
  assumes "sound_engine E rnd" and "\<not> asserts E" and "session_reachable E rnd W w" and "arguments_readable c"
    and "interleaves E rnd between c"
  shows "if \<not> session \<and> locks_unchecked c
    then exported_call E rnd order between session c w = (Crash Undefined_behaviour, w)
    else \<exists>code w' W'. exported_call E rnd order between session c w = (Ret code, w') \<and> 0 \<le> code \<and> code \<le> 16
      \<and> session_reachable E rnd W' w' \<and> (\<not> session \<longrightarrow> code = LTKIT_ERROR_INVALID_ARGUMENT \<and> w' = w)"
proof (cases session)
  case False
  with assms(3) null_session_rejected [of c E rnd order between w] null_session_undefined [of c E rnd order between w]
  show ?thesis by (auto simp: code_defs)
next
  case True
  have "returns_in E rnd (exported_call E rnd order between True c w)"
  proof (cases c)
    case (X_metadata i t out)
    with metadata_returns [OF assms(1-3)] assms(5) show ?thesis by blast
  next
    case (X_checkpoint i flush t out)
    with checkpoint_returns [OF assms(1,3)] assms(5) show ?thesis by blast
  next
    case (X_next_event t out)
    with next_event_returns [OF assms(1-3)] assms(5) show ?thesis by blast
  qed (use exported_cases [OF assms(4), of E rnd order between w] run_call_returns [OF assms(1-3)]
      returns_rejected [OF assms(3)] in \<open>metis exported.distinct\<close>)+
  with True show ?thesis by (auto simp: returns_in_def declared_def)
qed

section \<open>Witness\<close>

lemma sample_interleaves: "interleaves sample_env (\<lambda>x. x) (\<lambda>w. w\<lparr>engine := sample_disk\<rparr>) (X_metadata i t out)"
  by (auto intro: step_engine)

theorem exported_calls_return_witness:
  "(\<exists>code w'. exported_call sample_env (\<lambda>x. x) (\<lambda>_. []) (\<lambda>w. w\<lparr>engine := sample_disk\<rparr>) True (X_metadata (Some ''t'') 10 True) sample_added
     = (Ret code, w') \<and> code \<le> 16)
   \<and> exported_call sample_env (\<lambda>x. x) (\<lambda>_. []) (\<lambda>w. w\<lparr>engine := sample_disk\<rparr>) False (X_metadata (Some ''t'') 10 True) sample_added
     = (Ret LTKIT_ERROR_INVALID_ARGUMENT, sample_added)"
  using exported_calls_return [OF sample_sound _ sample_reachable _ sample_interleaves [of "Some ''t''" 10 True],
      where session = True and order = "\<lambda>_. []"]
    exported_calls_return [OF sample_sound _ sample_reachable _ sample_interleaves [of "Some ''t''" 10 True],
      where session = False and order = "\<lambda>_. []"]
  by (auto simp del: exported_call.simps)

end
