(* ===== verification/Piece_Completion.thy ===== *)
theory Piece_Completion
  imports Session_Machine
begin

text \<open>
  The completion bitset: what \<open>ltkit_session_piece_completion\<close> packs
  (\<open>src/Native/src/LibtorrentNative.cpp\<close>) is what \<open>TorrentPieceCompletion.isComplete\<close> of the Swift
  wrapper reads back (\<open>src/Sources/LibtorrentKit/TorrentStatus.swift\<close>).
\<close>

unbundle bit_operations_syntax

section \<open>The reader\<close>

definition byte_of :: "char \<Rightarrow> 8 word" where
  "byte_of c = of_nat (of_char c)"

definition isComplete :: "int \<Rightarrow> string \<Rightarrow> int \<Rightarrow> bool" where
  "isComplete pieceCount completionBitset index =
     (if index < 0 \<or> index \<ge> pieceCount then False
      else byte_of (completionBitset ! nat (index div 8)) AND push_bit (nat (index mod 8)) 1 \<noteq> 0)"

text \<open>A \<open>ClosedRange\<close> from \<open>lower\<close> to \<open>upper\<close>.\<close>

definition areComplete :: "int \<Rightarrow> string \<Rightarrow> int \<Rightarrow> int \<Rightarrow> bool" where
  "areComplete pieceCount completionBitset lower upper =
     (if lower < 0 \<or> upper \<ge> pieceCount then False
      else list_all (isComplete pieceCount completionBitset) [lower..upper])"

section \<open>Packing\<close>

lemma byte_of_char: "byte_of (char_of (unat (b :: 8 word))) = b"
proof -
  have "unat b < 256" using unsigned_less [of b] by simp
  then show ?thesis by (simp add: byte_of_def of_char_of)
qed

lemma and_exp_bit: "(b :: 8 word) AND 2 ^ n \<noteq> 0 \<longleftrightarrow> n < 8 \<and> bit b n"
  by (auto simp: bit_eq_iff [where 'a = "8 word"] bit_and_iff bit_exp_iff possible_bit_def dest: bit_imp_le_length)

lemma set_piece_bit_length [simp]: "length (set_piece_bit i bs) = length bs"
  by (simp add: set_piece_bit_def)

lemma set_piece_bit_bit:
  assumes "i div 8 < length bs" and "b < length bs" and "n < 8"
  shows "bit (set_piece_bit i bs ! b) n \<longleftrightarrow> bit (bs ! b) n \<or> (b = i div 8 \<and> n = i mod 8)"
  using assms by (auto simp: set_piece_bit_def nth_list_update bit_or_iff bit_exp_iff possible_bit_def)

lemma collect_bits_run:
  assumes pure: "\<And>k e. lt_have_piece E h k e = (Inr (have_it k), e)"
    and "\<forall>k\<in>set ks. nat k div 8 < length bits"
  shows "\<exists>bits'. collect_bits E h ks bits w = (Ret bits', w) \<and> length bits' = length bits
    \<and> (\<forall>b<length bits. \<forall>n<8. bit (bits' ! b) n \<longleftrightarrow>
         bit (bits ! b) n \<or> (\<exists>k\<in>set ks. have_it k \<and> nat k div 8 = b \<and> nat k mod 8 = n))"
  using assms(2)
proof (induction ks arbitrary: bits)
  case Nil
  show ?case by (simp add: prog_defs)
next
  case (Cons k ks)
  have engine: "engine_call (lt_have_piece E h k) w = (Ret (have_it k), w)"
    by (simp add: engine_call_def pure)
  show ?case
  proof (cases "have_it k")
    case False
    with Cons.IH [of bits] Cons.prems engine show ?thesis by (simp add: bind_def)
  next
    case True
    with Cons.IH [of "set_piece_bit (nat k) bits"] Cons.prems engine show ?thesis
      by (auto simp: bind_def set_piece_bit_bit)
  qed
qed

lemma packed_bits:
  assumes "length bits' = nat (n + 7) div 8" and "0 \<le> n"
    and "\<forall>b<nat (n + 7) div 8. \<forall>m<8. bit (bits' ! b) m \<longleftrightarrow> (\<exists>k\<in>{0..n - 1}. have_it k \<and> nat k div 8 = b \<and> nat k mod 8 = m)"
  shows "isComplete n (bytes_of bits') k \<longleftrightarrow> 0 \<le> k \<and> k < n \<and> have_it k"
proof (cases "0 \<le> k \<and> k < n")
  case True
  then have idx: "nat (k div 8) = nat k div 8" "nat (k mod 8) = nat k mod 8"
    by (simp_all add: nat_div_distrib nat_mod_distrib)
  have range: "nat k div 8 < nat (n + 7) div 8" using True by auto
  have eq: "nat j div 8 = nat k div 8 \<Longrightarrow> nat j mod 8 = nat k mod 8 \<Longrightarrow> 0 \<le> j \<Longrightarrow> j = k" for j
    using True by (metis div_mult_mod_eq nat_eq_iff2 nat_0_le)
  have "bit (bits' ! (nat k div 8)) (nat k mod 8) \<longleftrightarrow> have_it k"
    using assms(3) range True eq by fastforce
  with True idx range assms(1) show ?thesis
    by (simp add: isComplete_def bytes_of_def byte_of_char and_exp_bit)
qed (auto simp: isComplete_def)

section \<open>Property\<close>

text \<open>
  C20: A successful query of a torrent's piece completion returns the torrent's piece count and a bitset from
  which the wrapper reads back exactly the pieces libtorrent has: the reader says a piece is complete if and
  only if its index is in range and libtorrent has it, and a range of pieces if and only if all of them are. The
  bitset has the length the wrapper requires.
\<close>

theorem piece_completion_roundtrip:
  assumes pure: "\<And>k e. lt_have_piece E (handle v) k e = (Inr (have_it k), e)"
    and v: "session_job w i = Some v" and info: "lt_torrent_file E (handle v) (engine w) = (Inr (Some info), e')"
    and n: "0 \<le> ti_num_pieces info"
    and run: "ltkit_session_piece_completion E True (Some i) True True w = (Ret (LTKIT_OK, count, out), w')"
  shows "count = Some (ti_num_pieces info) \<and> length (taken_data out) = nat (ti_num_pieces info + 7) div 8
    \<and> (\<forall>k. isComplete (ti_num_pieces info) (taken_data out) k \<longleftrightarrow> 0 \<le> k \<and> k < ti_num_pieces info \<and> have_it k)
    \<and> (\<forall>lower upper. areComplete (ti_num_pieces info) (taken_data out) lower upper \<longleftrightarrow>
         0 \<le> lower \<and> upper < ti_num_pieces info \<and> (\<forall>k\<in>{lower..upper}. have_it k))"
proof -
  let ?n = "ti_num_pieces info" and ?w = "w\<lparr>engine := e'\<rparr>"
  have query: "piece_completion_query E (Some i) w = (Ret (LTKIT_OK, count, out), w')"
    by (rule guarded_with_OK) (use run in \<open>auto simp: ltkit_session_piece_completion_def\<close>)
  then have "\<not> stopped v"
    using v by (auto simp: piece_completion_query_def find_job_def bind_gets fail_def set_error_def prog_defs code_defs)
  from collect_bits_run [OF pure bitset_covers [of ?n], of ?w] obtain bits where
    bits: "collect_bits E (handle v) [0..?n - 1] (replicate (nat (?n + 7) div 8) 0) ?w = (Ret bits, ?w)"
      "length bits = nat (?n + 7) div 8"
      "\<forall>b<nat (?n + 7) div 8. \<forall>m<8. bit (bits ! b) m \<longleftrightarrow> (\<exists>k\<in>{0..?n - 1}. have_it k \<and> nat k div 8 = b \<and> nat k mod 8 = m)"
    by auto
  have "bind (respond E (bytes_of bits) ''The piece completion response could not be allocated.'')
      (\<lambda>(code, buffer). return (code, Some ?n, buffer)) ?w = (Ret (LTKIT_OK, count, out), w')"
    using query v \<open>\<not> stopped v\<close> info bits(1)
    by (simp add: piece_completion_query_def find_job_def bind_def gets_def engine_call_def crash_def split: if_splits)
  then obtain w1 where "respond E (bytes_of bits) ''The piece completion response could not be allocated.'' ?w
      = (Ret (LTKIT_OK, out), w1)" and count: "count = Some ?n"
    by (auto simp: bind_def return_def split: prod.splits outcome.splits)
  then have "taken_data out = bytes_of bits" by (intro respond_OK)
  with count packed_bits [OF bits(2) n bits(3)] bits(2) show ?thesis
    by (auto simp: bytes_of_def areComplete_def list_all_iff)
qed

section \<open>Witness\<close>

theorem piece_completion_roundtrip_witness:
  "\<exists>out w'. ltkit_session_piece_completion sample_env True (Some ''t'') True True sample_session = (Ret (LTKIT_OK, Some 5, out), w')
     \<and> isComplete 5 (taken_data out) 2 \<and> \<not> isComplete 5 (taken_data out) 3"
proof -
  have "case fst (ltkit_session_piece_completion sample_env True (Some ''t'') True True sample_session) of
      Ret (code, rest) \<Rightarrow> code = LTKIT_OK | _ \<Rightarrow> False" by code_simp
  then obtain count out w' where
    run: "ltkit_session_piece_completion sample_env True (Some ''t'') True True sample_session = (Ret (LTKIT_OK, count, out), w')"
    by (cases "ltkit_session_piece_completion sample_env True (Some ''t'') True True sample_session")
      (auto split: outcome.splits)
  have "session_job sample_session ''t'' = Some sample_job" by (simp add: sample_session_def)
  from piece_completion_roundtrip [where have_it = "\<lambda>k. k < 3", OF _ this _ _ run] run show ?thesis by auto
qed

end
