(* ===== verification/Job_Lifecycle.thy ===== *)
theory Job_Lifecycle
  imports Session_Machine
begin

text \<open>
  The life of a torrent as an abstract machine of six stages, the stage a job of the session is in, and how the
  alert thread may change a job: along the arrows of the machine, with everything else that must stay.
\<close>

section \<open>The abstract machine\<close>

datatype stage = Downloading | Awaiting | First_fence | Second_fence | Halted | Published

inductive advances :: "stage \<Rightarrow> stage \<Rightarrow> bool" where
  rejected: "advances Downloading Halted"
| finished: "advances Downloading Awaiting"
| started: "advances Awaiting First_fence"
| rechecks: "advances First_fence Second_fence"
| publishes: "s \<in> {First_fence, Second_fence} \<Longrightarrow> advances s Published"
| gives_up: "s \<in> {First_fence, Second_fence} \<Longrightarrow> advances s Halted"

inductive_simps advances_simps: "advances s t"
inductive_cases advances_finalE: "advances Halted t" "advances Published t"

fun stage_rank :: "stage \<Rightarrow> nat" where
  "stage_rank Downloading = 0"
| "stage_rank Awaiting = 1"
| "stage_rank First_fence = 2"
| "stage_rank Second_fence = 3"
| "stage_rank Halted = 4"
| "stage_rank Published = 4"

text \<open>The stage a job is in.\<close>

definition stage_of :: "'h job \<Rightarrow> stage" where
  "stage_of j =
     (if final_status j \<noteq> None then Published
      else if completion_checkpoint j then (if completion_rechecked j then Second_fence else First_fence)
      else if completion_waiting j then Awaiting
      else if stopped j then Halted
      else Downloading)"

lemma advances_rank: "advances s t \<Longrightarrow> stage_rank s < stage_rank t"
  by (induction rule: advances.induct) auto

lemma advances_final [simp]: "\<not> advances Halted t" "\<not> advances Published t"
  by (auto elim: advances_finalE)

lemma advances_star_final:
  "advances\<^sup>*\<^sup>* s t \<Longrightarrow> s \<in> {Halted, Published} \<Longrightarrow> t = s"
  by (induction rule: converse_rtranclp_induct) auto

lemma advances_star_rank: "advances\<^sup>*\<^sup>* s t \<Longrightarrow> stage_rank s \<le> stage_rank t"
  by (induction rule: rtranclp_induct) (auto dest: advances_rank)

lemma advances_star_less:
  assumes "advances\<^sup>*\<^sup>* s t" and "s \<noteq> t"
  shows "stage_rank s < stage_rank t"
proof -
  from assms obtain u where "advances s u" "advances\<^sup>*\<^sup>* u t" by (auto elim: converse_rtranclpE)
  with advances_rank advances_star_rank show ?thesis by (blast intro: less_le_trans)
qed

lemma advances_fence: "advances\<^sup>*\<^sup>* Downloading First_fence" "advances\<^sup>*\<^sup>* First_fence Published"
    "advances\<^sup>*\<^sup>* First_fence Halted" "advances\<^sup>*\<^sup>* Second_fence Published" "advances\<^sup>*\<^sup>* Second_fence Halted"
    "advances\<^sup>*\<^sup>* First_fence Second_fence"
  by (rule rtranclp_trans [of _ _ Awaiting]; simp add: r_into_rtranclp advances.intros)
     (simp_all add: r_into_rtranclp advances.intros)

section \<open>How a job may change\<close>

text \<open>
  What holds between two states of a torrent's job. The files are frozen from the moment the torrent
  finishes or stops, and what was published is final.
\<close>

definition evolves :: "('h, 'e) env \<Rightarrow> 'h job \<Rightarrow> 'h job \<Rightarrow> bool" where
  "evolves E v j \<longleftrightarrow>
     handle j = handle v \<and> completion_stops j = completion_stops v
     \<and> (metadata_ready v \<longrightarrow> metadata_ready j) \<and> (stopped v \<longrightarrow> stopped j)
     \<and> advances\<^sup>*\<^sup>* (stage_of v) (stage_of j)
     \<and> (\<not> completion_stops v \<and> stage_of v \<in> {Downloading, Halted} \<longrightarrow> stage_of j \<in> {Downloading, Halted})
     \<and> (stage_of v \<noteq> Downloading \<longrightarrow> desired_files j = desired_files v)
     \<and> (final_status v \<noteq> None \<longrightarrow> final_status j = final_status v \<and> final_metadata j = final_metadata v
          \<and> final_resume_data j = final_resume_data v \<and> final_payloads j = final_payloads v)
     \<and> (final_status j \<noteq> None \<longrightarrow> final_status v \<noteq> None \<or> verified E j (final_payloads j))"

lemma evolves_refl [simp]: "evolves E v v"
  by (auto simp: evolves_def)

lemma stage_final: "stage_of j = Published \<longleftrightarrow> final_status j \<noteq> None"
  by (simp add: stage_of_def)

lemma advances_star_Downloading: "advances\<^sup>*\<^sup>* s Downloading \<Longrightarrow> s = Downloading"
  using advances_star_rank [of s Downloading] by (cases s) auto

lemma evolvesD:
  assumes "evolves E v j"
  shows "handle j = handle v" "completion_stops j = completion_stops v" "metadata_ready v \<Longrightarrow> metadata_ready j"
    "stopped v \<Longrightarrow> stopped j" "advances\<^sup>*\<^sup>* (stage_of v) (stage_of j)"
    "\<not> completion_stops v \<Longrightarrow> stage_of v \<in> {Downloading, Halted} \<Longrightarrow> stage_of j \<in> {Downloading, Halted}"
    "stage_of v \<noteq> Downloading \<Longrightarrow> desired_files j = desired_files v"
    "final_status v \<noteq> None \<Longrightarrow> final_status j = final_status v \<and> final_metadata j = final_metadata v
       \<and> final_resume_data j = final_resume_data v \<and> final_payloads j = final_payloads v"
    "final_status j \<noteq> None \<Longrightarrow> final_status v \<noteq> None \<or> verified E j (final_payloads j)"
  using assms unfolding evolves_def by blast+

lemma verified_cong:
  "handle j = handle v \<Longrightarrow> desired_files j = desired_files v \<Longrightarrow> verified E j = verified E v"
  by (simp add: verified_def fun_eq_iff)

lemma evolves_trans:
  assumes "evolves E u v" and "evolves E v j"
  shows "evolves E u j"
proof -
  note D = evolvesD [OF assms(1)] and D' = evolvesD [OF assms(2)]
  show ?thesis unfolding evolves_def
  proof (intro conjI impI; (elim conjE)?)
    show "advances\<^sup>*\<^sup>* (stage_of u) (stage_of j)" by (rule rtranclp_trans [OF D(5) D'(5)])
  next
    assume "\<not> completion_stops u" "stage_of u \<in> {Downloading, Halted}"
    with D(2,6) D'(6) show "stage_of j \<in> {Downloading, Halted}" by simp
  next
    assume "stage_of u \<noteq> Downloading"
    then show "desired_files j = desired_files u" using D(5,7) D'(7) advances_star_Downloading by metis
  next
    assume "final_status j \<noteq> None"
    then consider "final_status v \<noteq> None" | "verified E j (final_payloads j)" using D'(9) by blast
    then show "final_status u \<noteq> None \<or> verified E j (final_payloads j)"
    proof cases
      case 1
      then have "verified E j (final_payloads j) = verified E v (final_payloads v)"
        using verified_cong [OF D'(1,7)] D'(8) stage_final by (metis stage.distinct(9))
      with 1 D(9) show ?thesis by blast
    qed blast
  qed (use D D' in \<open>simp_all only: D(1,2) D'(1,2) simp_thms\<close>)
qed

lemma verified_update [simp]:
  "verified E (j\<lparr>file_priorities := fps\<rparr>) = verified E j" "verified E (j\<lparr>piece_priorities := pps\<rparr>) = verified E j"
  "verified E (j\<lparr>deadline_pieces := ds\<rparr>) = verified E j" "verified E (j\<lparr>primary_file := k\<rparr>) = verified E j"
  "verified E (j\<lparr>checkpoint := c\<rparr>) = verified E j" "verified E (j\<lparr>metadata_ready := b\<rparr>) = verified E j"
  "verified E (j\<lparr>stopped := b\<rparr>) = verified E j" "verified E (j\<lparr>completion_checkpoint := b\<rparr>) = verified E j"
  "verified E (j\<lparr>final_payloads := ps\<rparr>) = verified E j" "verified E (j\<lparr>final_metadata := md\<rparr>) = verified E j"
  "verified E (j\<lparr>final_status := st\<rparr>) = verified E j" "verified E (j\<lparr>final_resume_data := bytes\<rparr>) = verified E j"
  by (rule verified_cong; simp)+

lemma stage_of_update [simp]:
  "stage_of (j\<lparr>file_priorities := fps\<rparr>) = stage_of j"
  "stage_of (j\<lparr>piece_priorities := pps\<rparr>) = stage_of j"
  "stage_of (j\<lparr>deadline_pieces := ds\<rparr>) = stage_of j"
  "stage_of (j\<lparr>primary_file := k\<rparr>) = stage_of j"
  "stage_of (j\<lparr>desired_files := ks\<rparr>) = stage_of j"
  "stage_of (j\<lparr>checkpoint := c\<rparr>) = stage_of j"
  "stage_of (j\<lparr>metadata_ready := b\<rparr>) = stage_of j"
  by (simp_all add: stage_of_def)

lemma evolves_update [simp]:
  "evolves E v (j\<lparr>file_priorities := fps\<rparr>) = evolves E v j"
  "evolves E v (j\<lparr>piece_priorities := pps\<rparr>) = evolves E v j"
  "evolves E v (j\<lparr>deadline_pieces := ds\<rparr>) = evolves E v j"
  "evolves E v (j\<lparr>primary_file := k\<rparr>) = evolves E v j"
  "evolves E v (j\<lparr>checkpoint := c\<rparr>) = evolves E v j"
  by (simp_all add: evolves_def)

lemma evolves_metadata [simp]: "evolves E v j \<Longrightarrow> evolves E v (j\<lparr>metadata_ready := True\<rparr>)"
  by (simp add: evolves_def)

lemma evolves_begun [simp]: "evolves E v (begun flush j) = evolves E v j"
  by (simp add: begun_def)

lemma evolves_desired:
  "stage_of v = Downloading \<Longrightarrow> final_status j = final_status v \<Longrightarrow> evolves E v j \<Longrightarrow> evolves E v (j\<lparr>desired_files := ks\<rparr>)"
  by (simp add: evolves_def)

lemma evolves_from [simp]: "evolves E (v\<lparr>checkpoint := c\<rparr>) j = evolves E v j"
  by (simp add: evolves_def)

lemma evolves_stopped: "evolves E v (v\<lparr>stopped := True\<rparr>)"
  by (auto simp: evolves_def stage_of_def intro: advances.intros)

text \<open>A waiting completion has not been rechecked, so it enters the first fence.\<close>

lemma evolves_begin_waiting:
  assumes "completion_waiting v \<Longrightarrow> final_status v = None \<and> \<not> completion_checkpoint v \<and> \<not> completion_rechecked v"
  shows "evolves E v (begin_waiting (v\<lparr>checkpoint := c\<rparr>))"
  using assms by (auto simp: begin_waiting_def may_start_def begun_def evolves_def stage_of_def intro: advances.intros)

lemma evolves_finished:
  assumes "job_ok a i v m" and "completion_stops v" "final_status v = None" "\<not> completion_checkpoint v" "\<not> completion_waiting v"
    "\<not> stopped v"
  shows "evolves E v (begin_waiting (v\<lparr>completion_waiting := True\<rparr>))"
proof -
  have "\<not> completion_rechecked v" using assms by (auto simp: job_ok_def job_inv_def)
  with assms(2-) show ?thesis
    by (auto simp: begin_waiting_def may_start_def begun_def evolves_def stage_of_def advances_fence intro: advances.intros)
qed

lemma evolves_completion:
  assumes "final_status v = None" "\<not> completion_waiting v" and "completion_checkpoint v"
    and "completion_outcome E i success v m j m'"
  shows "evolves E v j"
proof -
  from assms(4) consider "restarted v m j m'" | "published E i v m j m'"
    | reasons where "failed E i reasons v m j m'"
    by (auto simp: completion_outcome_def split: if_splits)
  then show ?thesis
  proof cases
    case 1
    then obtain ps where "j = begun True (v\<lparr>final_payloads := ps, completion_rechecked := True, checkpoint := new_checkpoint\<rparr>)"
      "\<not> completion_rechecked v"
      unfolding restarted_def by blast
    with assms(1-3) show ?thesis by (simp add: begun_def evolves_def stage_of_def advances_fence)
  next
    case 2
    then obtain ps md status where "j = v\<lparr>final_payloads := ps, final_metadata := md, final_status := Some status,
        final_resume_data := cp_data (checkpoint v), completion_checkpoint := False, stopped := True,
        checkpoint := new_checkpoint\<rparr>" "verified E v ps"
      unfolding published_def by blast
    with assms(1-3) show ?thesis by (simp add: evolves_def stage_of_def advances_fence)
  next
    case 3
    then obtain ps md where "j = v\<lparr>final_payloads := ps, final_metadata := md, completion_checkpoint := False,
        stopped := True, checkpoint := new_checkpoint\<rparr>"
      unfolding failed_def by blast
    with assms(1-3) show ?thesis by (simp add: evolves_def stage_of_def advances_fence)
  qed
qed

section \<open>The alert thread\<close>

lemma settling_waiting:
  "settling a i v m \<Longrightarrow> completion_waiting v \<Longrightarrow>
   final_status v = None \<and> \<not> completion_checkpoint v \<and> \<not> completion_rechecked v"
  by (auto simp: settling_def)

lemma settling_outcome:
  "settling a i v m \<Longrightarrow> completion_checkpoint v \<Longrightarrow> completion_outcome E i success v m j m' \<Longrightarrow> evolves E v j"
  by (rule evolves_completion) (simp_all add: settling_def)

lemma settling_evolves:
  "settling a i v m \<Longrightarrow> evolves E v (begin_waiting (v\<lparr>checkpoint := c\<rparr>))"
  by (rule evolves_begin_waiting) (rule settling_waiting)

lemma jt_finish_checkpoint_evolves:
  "job_triple i (\<lambda>v m. settling a i v m \<and> (\<forall>j m. evolves E v j \<longrightarrow> R () j m)) (finish_checkpoint E i success) R (\<lambda>_ _. True)"
  unfolding finish_checkpoint_def
  by (rule jt_pre, (rule job_wp)+) (auto intro: settling_evolves settling_outcome)

definition evolving :: "('h, 'e) env \<Rightarrow> string \<Rightarrow> ('h, 'e, 'a) session_prog \<Rightarrow> bool" where
  "evolving E i p \<longleftrightarrow> (\<forall>a v. job_triple i (\<lambda>j m. j = v \<and> job_ok a i j m) p (\<lambda>_ j m. evolves E v j) (\<lambda>_ _. True))"

lemma evolvingI:
  "(\<And>a v. job_triple i (\<lambda>j m. j = v \<and> job_ok a i j m) p (\<lambda>_ j m. evolves E v j) (\<lambda>_ _. True)) \<Longrightarrow> evolving E i p"
  by (simp add: evolving_def)

lemma evolvingD: "evolving E i p \<Longrightarrow> job_triple i (\<lambda>j m. j = v \<and> job_ok a i j m) p (\<lambda>_ j m. evolves E v j) (\<lambda>_ _. True)"
  by (simp add: evolving_def)

lemma evolving_return: "evolving E i (return x)"
  by (rule evolvingI, rule jt_pre, rule jt_return) simp

lemma reselected_evolves: "reselected v j \<Longrightarrow> evolves E u j = evolves E u v"
proof -
  have "evolves E u (unprioritised k) = evolves E u k" for k by (simp add: unprioritised_def)
  then show "reselected v j \<Longrightarrow> evolves E u j = evolves E u v" unfolding reselected_def by metis
qed

lemma evolves_stop: "evolves E v j \<Longrightarrow> evolves E v (j\<lparr>stopped := True\<rparr>)"
  by (rule evolves_trans [OF _ evolves_stopped])

lemma evolving_metadata_received: "lawful E \<Longrightarrow> evolving E i (on_metadata_received E i)"
  unfolding on_metadata_received_def
  by (rule evolvingI, rule jt_pre, (rule job_wp | assumption)+) (auto simp: reselected_evolves intro: evolves_stop)

lemma evolving_torrent_finished: "evolving E i (on_torrent_finished E i)"
  unfolding on_torrent_finished_def
  by (rule evolvingI, rule jt_pre, (rule job_wp)+) (auto intro: evolves_finished)

lemma evolving_cache_flushed: "evolving E i (on_cache_flushed E i)"
  unfolding on_cache_flushed_def
  by (rule evolvingI, rule jt_pre, (rule job_wp)+) auto

lemma evolving_resume_saved: "evolving E i (on_resume_saved E i params)"
  unfolding on_resume_saved_def
  by (rule evolvingI, rule jt_pre, (rule job_wp jt_finish_checkpoint_evolves)+) (auto intro: job_ok_saved)

lemma evolving_resume_failed: "evolving E i (on_resume_failed E i)"
  unfolding on_resume_failed_def
  by (rule evolvingI, rule jt_pre, (rule job_wp jt_finish_checkpoint_evolves)+) (auto intro: job_ok_save_failed)

lemma evolving_engine_error: "evolving E i (on_engine_error E i)"
  unfolding on_engine_error_def by (rule evolvingI, rule jt_pre, (rule job_wp)+) auto

lemma evolving_state_changed: "evolving E i (on_state_changed E i)"
  unfolding on_state_changed_def by (rule evolvingI, rule jt_pre, (rule job_wp)+) auto

lemma evolving_alert:
  assumes "lawful E"
  shows "evolving E i (dispatch_alert E i alert)"
  by (cases alert) (simp_all add: dispatch_alert_def evolving_return evolving_metadata_received [OF assms] evolving_torrent_finished
      evolving_cache_flushed evolving_resume_saved evolving_resume_failed evolving_engine_error evolving_state_changed)

end
