(* ===== verification/Session_Lifecycle.thy ===== *)
theory Session_Lifecycle
  imports Job_Lifecycle Session_Calls
begin

text \<open>
  The session refines the life cycle of \<open>Job_Lifecycle\<close>: every critical section of every thread takes each torrent
  along its arrows, so a torrent completes at most once, never comes back from a stop, and what was published
  about it stays what it was. Whatever a reachable session lists as completed was verified on disk.
\<close>

section \<open>From one job to the session\<close>

text \<open>No torrent appears or disappears, and every job has changed as it may.\<close>

definition tracks :: "('h, 'e) env \<Rightarrow> ('h, 'e) ltkit_session \<Rightarrow> ('h, 'e) ltkit_session \<Rightarrow> bool" where
  "tracks E w w' \<longleftrightarrow> (\<forall>k. rel_option (evolves E) (session_job w k) (session_job w' k))"

lemma tracks_refl: "jobs w' = jobs w \<Longrightarrow> tracks E w w'"
  by (simp add: tracks_def option.rel_refl)

lemma tracks_trans:
  assumes "tracks E u v" and "tracks E v w"
  shows "tracks E u w"
  unfolding tracks_def
proof
  fix k
  have "rel_option (evolves E) (session_job u k) (session_job v k)" "rel_option (evolves E) (session_job v k) (session_job w k)"
    using assms by (simp_all add: tracks_def)
  then show "rel_option (evolves E) (session_job u k) (session_job w k)"
    by (cases "session_job u k"; cases "session_job v k"; cases "session_job w k") (auto intro: evolves_trans)
qed

lemma tracks_jobs [simp]:
  "tracks E w (w'\<lparr>engine := e\<rparr>) = tracks E w w'" "tracks E w (w'\<lparr>last_error := msg\<rparr>) = tracks E w w'"
  "tracks E (w\<lparr>engine := e\<rparr>) w' = tracks E w w'"
  by (simp_all add: tracks_def)

lemma tracks_focus:
  assumes "session_job w i = Some v" and "focus i w (\<lambda>j m. evolves E v j) w'"
  shows "tracks E w w'"
  unfolding tracks_def
proof
  fix k show "rel_option (evolves E) (session_job w k) (session_job w' k)"
    using assms by (cases "k = i") (auto simp: focus_def others_def option.rel_refl)
qed

text \<open>Programs that take every job along its course from any state that satisfies the invariant.\<close>

definition tracking :: "('h, 'e) env \<Rightarrow> string set \<Rightarrow> ('h, 'e, 'a) session_prog \<Rightarrow> bool" where
  "tracking E W p \<longleftrightarrow> (\<forall>w r w'. session_inv W w \<longrightarrow> p w = (r, w') \<longrightarrow> (\<forall>c. r \<noteq> Crash c) \<longrightarrow> tracks E w w')"

lemma trackingI:
  "(\<And>w r w'. session_inv W w \<Longrightarrow> p w = (r, w') \<Longrightarrow> (\<And>c. r \<noteq> Crash c) \<Longrightarrow> tracks E w w') \<Longrightarrow> tracking E W p"
  unfolding tracking_def by blast

lemma trackingD: "tracking E W p \<Longrightarrow> session_inv W w \<Longrightarrow> p w = (r, w') \<Longrightarrow> (\<And>c. r \<noteq> Crash c) \<Longrightarrow> tracks E w w'"
  unfolding tracking_def by blast

lemma tracking_jobs: "(\<And>w. jobs (snd (p w)) = jobs w) \<Longrightarrow> tracking E W p"
  by (rule trackingI, rule tracks_refl) (metis snd_conv)

lemma tracking_bind:
  assumes "keeps W p" and "tracking E W p" and "\<And>x. tracking E W (f x)"
  shows "tracking E W (bind p f)"
proof (rule trackingI)
  fix w r w' assume w: "session_inv W w" and run: "bind p f w = (r, w')" and r: "\<And>c. r \<noteq> Crash c"
  obtain y w1 where y: "p w = (y, w1)" by fastforce
  show "tracks E w w'"
  proof (cases y)
    case (Ret x)
    with y hoare_RetD [OF keepsD [OF assms(1)] w] have "session_inv W w1" by blast
    with Ret y run r trackingD [OF assms(2) w y] trackingD [OF assms(3), of w1 x r w'] show ?thesis
      by (auto simp: bind_def intro: tracks_trans)
  next
    case (Throw e)
    with y run trackingD [OF assms(2) w y] show ?thesis by (simp add: bind_def)
  qed (use y run r in \<open>auto simp: bind_def\<close>)
qed

lemma tracking_if: "(b \<Longrightarrow> tracking E W p) \<Longrightarrow> (\<not> b \<Longrightarrow> tracking E W q) \<Longrightarrow> tracking E W (if b then p else q)"
  by simp

lemma tracking_return: "tracking E W (return x)"
  by (rule tracking_jobs) (simp add: return_def)

lemma tracking_fail: "tracking E W (fail code msg)" "tracking E W (fail_with code msg)"
  by (rule tracking_jobs, simp add: fail_with_def fail_def set_error_def prog_defs)+

lemma tracking_guarded_with:
  assumes "tracking E W p"
  shows "tracking E W (guarded_with written p)"
proof (rule trackingI)
  fix w r w' assume w: "session_inv W w" and run: "guarded_with written p w = (r, w')" "\<And>c. r \<noteq> Crash c"
  obtain y w1 where y: "p w = (y, w1)" by fastforce
  with run have "\<And>c. y \<noteq> Crash c" and "jobs w' = jobs w1"
    by (auto simp: guarded_with_def guarded_def fail_def set_error_def prog_defs split: outcome.splits exn.splits)
  with trackingD [OF assms w y] show "tracks E w w'" by (blast intro: tracks_trans tracks_refl)
qed

lemma tracking_guarded: "tracking E W p \<Longrightarrow> tracking E W (guarded p)"
proof -
  have "guarded p = guarded_with (\<lambda>c. c) p"
    by (rule ext) (auto simp: guarded_with_def guarded_def fail_def set_error_def prog_defs split: prod.splits outcome.splits exn.splits)
  then show "tracking E W p \<Longrightarrow> tracking E W (guarded p)" by (simp add: tracking_guarded_with)
qed

lemma tracking_code_of: "tracking E W p \<Longrightarrow> tracking E W (code_of p)"
  by (rule trackingI) (auto simp: code_of_def prog_defs split: prod.splits outcome.splits dest: trackingD)

text \<open>A call that looks up its torrent and then works on it.\<close>

definition pursues :: "('h, 'e) env \<Rightarrow> string \<Rightarrow> 'h job \<Rightarrow> ('h, 'e, 'a) session_prog \<Rightarrow> bool" where
  "pursues E i v p \<longleftrightarrow> (\<forall>a. job_triple i (\<lambda>j m. j = v \<and> job_ok a i j m) p (\<lambda>_ j m. evolves E v j) (\<lambda>j m. evolves E v j))"

lemma pursues_run:
  assumes "pursues E i v p" and "session_inv W w" and "session_job w i = Some v" and "p w = (r, w')" and "\<And>c. r \<noteq> Crash c"
  shows "tracks E w w'"
  using job_triple_run [OF assms(1) [unfolded pursues_def, THEN spec, of "i \<in> W"] assms(2,3)] tracks_focus [OF assms(3)] assms(4,5)
  by (auto split: outcome.splits)

lemma tracking_find:
  assumes "tracking E W (f None)" and "\<And>i v. identifier = Some i \<Longrightarrow> pursues E i v (f (Some v))"
  shows "tracking E W (bind (find_job identifier) f)"
proof (rule trackingI)
  fix w r w' assume w: "session_inv W w" and run: "bind (find_job identifier) f w = (r, w')" "\<And>c. r \<noteq> Crash c"
  show "tracks E w w'"
  proof (cases "case identifier of None \<Rightarrow> None | Some i \<Rightarrow> session_job w i")
    case None
    with run trackingD [OF assms(1) w] show ?thesis by (simp add: find_job_def bind_gets)
  next
    case (Some v)
    then obtain i where i: "identifier = Some i" "session_job w i = Some v" by (auto split: option.splits)
    with run pursues_run [OF assms(2) [OF i(1)] w i(2)] show ?thesis by (simp add: find_job_def bind_gets)
  qed
qed

lemma tracking_lookup:
  assumes "tracking E W (f None)" and "\<And>v. pursues E i v (f (Some v))"
  shows "tracking E W (bind (find_job (Some i)) f)"
proof (rule tracking_find)
  fix i' v assume "Some i = Some i'"
  with assms(2) [of v] show "pursues E i' v (f (Some v))" by simp
qed (rule assms(1))

lemma pursuesI:
  "(\<And>a. job_triple i (\<lambda>j m. j = v \<and> job_ok a i j m) p (\<lambda>_ j m. evolves E v j) (\<lambda>j m. evolves E v j)) \<Longrightarrow> pursues E i v p"
  by (simp add: pursues_def)

lemma pursues_fail: "pursues E i v (fail code msg)" "pursues E i v (fail_with code msg)"
  by (rule pursuesI, rule jt_pre, rule job_wp, simp)+

lemma tracking_active:
  assumes "\<And>i v. \<not> stopped v \<Longrightarrow> pursues E i v (body i v)"
  shows "tracking E W (guarded (with_active_job identifier body))"
  unfolding with_active_job_def
  by (intro tracking_guarded tracking_find) (auto simp: tracking_fail pursues_fail intro: assms)

lemma tracking_active_out:
  assumes "\<And>i v. \<not> stopped v \<Longrightarrow> pursues E i v (body i v)"
  shows "tracking E W (guarded_with written (with_active_out identifier body))"
  unfolding with_active_out_def
  by (intro tracking_guarded_with tracking_find) (auto simp: tracking_fail pursues_fail intro: assms)

section \<open>The calls\<close>

lemma active_stage:
  "\<not> stopped v \<Longrightarrow> \<not> completion_checkpoint v \<Longrightarrow> \<not> completion_waiting v \<Longrightarrow> job_ok a i v m \<Longrightarrow> stage_of v = Downloading"
  by (auto simp: stage_of_def job_ok_def job_inv_def)

lemma tracking_select_files:
  "lawful E \<Longrightarrow> tracking E W (ltkit_session_select_files E session identifier indexes primary)"
  unfolding ltkit_session_select_files_def
  by (intro tracking_if tracking_return tracking_active, rule pursuesI, rule jt_pre, (rule job_wp | assumption)+)
    (auto simp: reselected_evolves intro: evolves_desired active_stage)

lemma tracking_set_file_priority:
  "lawful E \<Longrightarrow> tracking E W (ltkit_session_set_file_priority E session identifier k priority)"
  unfolding ltkit_session_set_file_priority_def
  by (intro tracking_if tracking_return tracking_active, rule pursuesI, rule jt_pre, (rule job_wp | assumption)+)
    (auto simp: reselected_evolves intro: evolves_desired active_stage)

lemma tracking_set_piece_priority: "tracking E W (ltkit_session_set_piece_priority E session identifier k priority)"
  unfolding ltkit_session_set_piece_priority_def
  by (intro tracking_if tracking_return tracking_active, rule pursuesI, rule jt_pre, (rule job_wp)+) auto

lemma tracking_start: "tracking E W (ltkit_session_start E True identifier)"
  unfolding ltkit_session_start_def if_False not_True_eq_False
  by (rule tracking_active, rule pursuesI, rule jt_pre, (rule job_wp)+) auto

lemma tracking_pause: "tracking E W (ltkit_session_pause E True identifier)"
  unfolding ltkit_session_pause_def if_False not_True_eq_False
  by (rule tracking_active, rule pursuesI, rule jt_pre, (rule job_wp)+) auto

lemma tracking_clear_window: "lawful E \<Longrightarrow> tracking E W (ltkit_session_clear_streaming_window E True identifier)"
  unfolding ltkit_session_clear_streaming_window_def if_False not_True_eq_False
  by (rule tracking_active, rule pursuesI, rule jt_pre, (rule job_wp | assumption)+) (auto simp: reselected_evolves)

lemma tracking_pieces: "tracking E W (ltkit_session_pieces E session identifier output)"
  unfolding ltkit_session_pieces_def
  by (intro tracking_if tracking_return tracking_active_out, rule pursuesI, rule jt_pre, (rule job_wp)+) auto

lemma tracking_status: "tracking E W (ltkit_session_status E session identifier output)"
  unfolding ltkit_session_status_def
  by (intro tracking_if tracking_return tracking_guarded_with tracking_find, unfold option.case, rule tracking_fail,
      rule pursuesI, rule jt_pre, (rule job_wp)+) auto

lemma tracking_piece_completion:
  assumes "lawful E"
  shows "tracking E W (ltkit_session_piece_completion E session identifier count output)"
  unfolding ltkit_session_piece_completion_def piece_completion_query_def
  by (intro tracking_if tracking_return tracking_guarded_with tracking_find, unfold option.case, rule tracking_jobs,
        simp add: fail_def set_error_def prog_defs, rule pursuesI, rule jt_pre, (rule job_wp bitset_covers)+) (auto dest: lawful_count [OF assms])

lemma tracking_update_window:
  assumes E: "lawful E" "laid_out E" and rnd: "rounding rnd"
  shows "tracking E W (ltkit_session_update_streaming_window E rnd session identifier k byte_offset critical_bytes warm_bytes
    rate edges output)"
proof (cases "0 \<le> k \<and> 0 \<le> byte_offset \<and> 0 < critical_bytes \<and> critical_bytes \<le> warm_bytes \<and> 0 < rate")
  case True
  have win: "streaming_window info k byte_offset critical_bytes warm_bytes \<noteq> None"
    if "lt_torrent_file E h e = (Inr (Some info), e')" "k < ti_num_files info" "byte_offset < ti_file_size info k" for h e e' info
    using streaming_window_eq [of info k byte_offset critical_bytes warm_bytes] laid_outD [OF E(2) that(1)]
      that True by (simp add: window_request_def)
  show ?thesis
    unfolding ltkit_session_update_streaming_window_def update_window_def [abs_def] apply_window_def
    by (intro tracking_if tracking_return tracking_active_out, rule pursuesI, rule jt_pre,
        (rule job_wp E jt_place_deadlines rnd True [THEN conjunct2, THEN conjunct2, THEN conjunct2, THEN conjunct2])+)
      (auto simp: reselected_evolves dest: win)
next
  case False
  then show ?thesis by (auto simp: ltkit_session_update_streaming_window_def intro: tracking_return)
qed

lemma tracking_metadata_answer: "tracking E W (metadata_answer E i)"
  unfolding metadata_answer_def
  by (rule tracking_lookup, unfold option.case, rule tracking_fail, rule pursuesI, rule jt_pre, (rule job_wp)+)
    (auto intro: evolves_stop)

lemma keeps_jobs_bind: "tracking E W (bind (gets f) g)" if "\<And>x. tracking E W (g x)"
  by (rule tracking_bind [OF keeps_gets]) (auto intro: that tracking_jobs simp: gets_def)

lemma tracking_metadata_resume: "tracking E W (metadata_resume E i g ready)"
  unfolding metadata_resume_def
  by (intro tracking_if tracking_fail keeps_jobs_bind tracking_metadata_answer)

lemma tracking_metadata: "tracking E W (ltkit_session_metadata E id session identifier timeout_ms output)"
proof -
  have request: "tracking E W (metadata_request E i)" for i
    unfolding metadata_request_def
    by (rule tracking_lookup, unfold option.case, rule tracking_jobs, simp add: fail_with_def fail_def set_error_def prog_defs,
        rule pursuesI, rule jt_pre, (rule job_wp)+) auto
  have wait: "tracking E W (bind (wait_for id ready) f)" if "\<And>x. tracking E W (f x)" for ready f
    by (rule tracking_bind [OF keeps_wait]) (auto intro: that tracking_jobs simp: wait_for_def)
  have rest: "tracking E W (case r of None \<Rightarrow> metadata_answer E i | Some r \<Rightarrow> (case r of Answer a \<Rightarrow> return a
      | Wait g \<Rightarrow> bind (wait_for id (metadata_woken i g)) (metadata_resume E i g)))" for r i
    by (cases r) (auto split: request.splits intro!: tracking_metadata_answer tracking_return wait tracking_metadata_resume)
  show ?thesis
    unfolding ltkit_session_metadata_def
    by (cases "identifier") (auto intro!: tracking_return tracking_guarded_with tracking_bind
        metadata_request_ok [folded keeps_def] request rest)
qed

lemma tracking_next_event: "tracking E W (ltkit_session_next_event E order id session timeout_ms output)"
  by (rule tracking_jobs) (auto simp: ltkit_session_next_event_def guarded_with_def guarded_def wait_for_def fail_def set_error_def
      fail_with_def mailbox_call_def system_call_def prog_defs split: prod.splits outcome.splits option.splits exn.splits)

lemma tracking_take_last_error: "tracking E W (ltkit_session_take_last_error E session output)"
  by (rule tracking_jobs) (auto simp: ltkit_session_take_last_error_def prog_defs system_call_def split: prod.splits)

lemma tracking_checkpoint_request: "tracking E W (checkpoint_request E i flush)"
  unfolding checkpoint_request_def checkpoint_open_def
  by (rule tracking_lookup, unfold option.case, rule tracking_jobs, simp add: fail_with_def fail_def set_error_def prog_defs,
      rule pursuesI, rule jt_pre, (rule job_wp)+) auto

lemma job_ok_waits:
  "job_ok a i v m \<Longrightarrow> completion_waiting v \<Longrightarrow> final_status v = None \<and> \<not> completion_checkpoint v \<and> \<not> completion_rechecked v"
  by (auto simp: job_ok_def job_inv_def)

lemma job_ok_begin: "job_ok a i v m \<Longrightarrow> evolves E v (begin_waiting (v\<lparr>checkpoint := c\<rparr>))"
  by (rule evolves_begin_waiting) (rule job_ok_waits)

lemma tracking_checkpoint_finish: "tracking E W (checkpoint_finish E i g completed)"
  unfolding checkpoint_finish_def checkpoint_close_def
  by (intro keeps_jobs_bind tracking_lookup, unfold option.case, rule tracking_fail, rule pursuesI, rule jt_pre, (rule job_wp)+)
    (auto intro: job_ok_begin)

section \<open>Admission and removal\<close>

text \<open>Programs that, however they end, have left the jobs alone or added a fresh one.\<close>

definition admits :: "string \<Rightarrow> ('h, 'e, 'a) session_prog \<Rightarrow> bool" where
  "admits i p \<longleftrightarrow> (\<forall>w. jobs (snd (p w)) = jobs w
     \<or> (\<exists>v. jobs (snd (p w)) = AList.update i v (jobs w) \<and> stage_of v = Downloading))"

lemma admits_frames: "frames p \<Longrightarrow> admits i p"
  by (simp add: frames_def admits_def)

lemma admits_bind:
  assumes "frames p" and "\<And>x. admits i (f x)"
  shows "admits i (bind p f)"
  unfolding admits_def
proof
  fix w
  obtain r w1 where p: "p w = (r, w1)" by fastforce
  with assms(1) have "jobs w1 = jobs w" by (metis snd_conv frames_def)
  with p show "jobs (snd (bind p f w)) = jobs w
     \<or> (\<exists>v. jobs (snd (bind p f w)) = AList.update i v (jobs w) \<and> stage_of v = Downloading)"
    using assms(2) [unfolded admits_def, THEN spec, of _ w1] by (cases r) (auto simp: bind_def)
qed

lemma admits_andthen: "frames p \<Longrightarrow> admits i q \<Longrightarrow> admits i (andthen p q)"
  unfolding andthen_def by (rule admits_bind)

lemma admits_if: "(b \<Longrightarrow> admits i p) \<Longrightarrow> (\<not> b \<Longrightarrow> admits i q) \<Longrightarrow> admits i (if b then p else q)"
  by simp

lemma admits_option: "admits i p \<Longrightarrow> (\<And>x. admits i (f x)) \<Longrightarrow> admits i (case v of None \<Rightarrow> p | Some x \<Rightarrow> f x)"
  by (cases v) auto

lemma admits_job:
  "stage_of v = Downloading \<Longrightarrow> frames q \<Longrightarrow>
   admits i (andthen (modify (\<lambda>w. w\<lparr>jobs := AList.update i v (jobs w)\<rparr>)) q)"
  by (auto simp: admits_def frames_def prog_defs)

lemma admits_add_admitted: "admits i (add_admitted E i rq)"
proof -
  have fresh: "stage_of ((new_job h)\<lparr>desired_files := d, file_priorities := f, piece_priorities := p, primary_file := k,
      metadata_ready := b, completion_stops := s\<rparr>) = Downloading" for h d f p k b s
    by (simp add: stage_of_def new_job_def)
  have register: "admits i (register_torrent E i rq desired params)" for desired params
    unfolding register_torrent_def
    by (intro admits_bind admits_option admits_andthen admits_job fresh frames_intros) (intro admits_frames frames_intros)
  have parsed: "admits i (add_parsed E i rq params)" for params
    unfolding add_parsed_def Let_def by (intro admits_option register) (intro admits_frames frames_intros)
  show ?thesis
    unfolding add_admitted_def parse_source_def read_resume_def
    by (intro admits_if admits_bind admits_option frames_intros parsed) (auto intro!: admits_frames frames_intros)
qed

lemma add_jobs_at:
  assumes "ltkit_session_add E True rq w = (r, w')"
  shows "jobs w' = jobs w \<or> (\<exists>v. session_job w (the (rq_identifier rq)) = None
    \<and> jobs w' = AList.update (the (rq_identifier rq)) v (jobs w) \<and> stage_of v = Downloading)"
proof (cases "add_request_invalid True rq \<or> shutting_down w \<or> session_job w (the (rq_identifier rq)) \<noteq> None
    \<or> \<not> can_add (the (rq_identifier rq)) (events w) \<or> \<not> path_rooted (the (rq_directory rq))")
  case True
  with assms have "jobs w' = jobs w"
    by (auto simp: ltkit_session_add_def guarded_def fail_run bind_gets Let_def split: if_splits)
  then show ?thesis ..
next
  case False
  let ?i = "the (rq_identifier rq)"
  from False have run: "ltkit_session_add E True rq w = guarded (add_admitted E ?i rq) w"
    by (simp add: ltkit_session_add_def guarded_def bind_gets Let_def)
  have "jobs (snd (guarded p w)) = jobs (snd (p w))" for p
    by (auto simp: guarded_def fail_run split: prod.splits outcome.splits exn.splits)
  with run assms have "jobs w' = jobs (snd (add_admitted E ?i rq w))" by (metis snd_conv)
  with False admits_add_admitted [of ?i E rq] show ?thesis unfolding admits_def by metis
qed

lemma add_jobs:
  assumes "ltkit_session_add E True rq w = (r, w')"
  shows "jobs w' = jobs w \<or> (\<exists>i v. session_job w i = None \<and> jobs w' = AList.update i v (jobs w) \<and> stage_of v = Downloading)"
  using add_jobs_at [OF assms] by blast

section \<open>Steps of the session\<close>

text \<open>The states of one torrent before and after a step; \<open>None\<close> before admission and after removal.\<close>

fun succession :: "('h, 'e) env \<Rightarrow> 'h job option \<Rightarrow> 'h job option \<Rightarrow> bool" where
  "succession E None None \<longleftrightarrow> True"
| "succession E None (Some j) \<longleftrightarrow> stage_of j = Downloading"
| "succession E (Some v) None \<longleftrightarrow> \<not> cp_active (checkpoint v)"
| "succession E (Some v) (Some j) \<longleftrightarrow> evolves E v j"

lemma tracks_succession: "tracks E w w' \<Longrightarrow> succession E (session_job w k) (session_job w' k)"
  unfolding tracks_def by (drule spec [of _ k]) (cases "session_job w k"; cases "session_job w' k"; simp)

lemma succession_same:
  fixes E :: "('h, 'e) env" and w w' :: "('h, 'e) ltkit_session"
  shows "jobs w' = jobs w \<Longrightarrow> succession E (session_job w k) (session_job w' k)"
  by (rule tracks_succession [OF tracks_refl])

lemma run_call_tracks:
  assumes "sound_engine E rnd" and "\<And>rq. c \<noteq> Add rq" and "\<And>i b. c \<noteq> Remove i b"
  shows "tracking E W (run_call E rnd c)"
proof (cases c)
  case (Metadata_woken i g ready)
  then show ?thesis by (simp add: tracking_code_of tracking_guarded_with tracking_metadata_resume)
qed (use assms in \<open>auto simp: sound_engine_def intro!: tracking_code_of intro: tracking_metadata tracking_select_files
    tracking_set_file_priority tracking_set_piece_priority tracking_start tracking_pause tracking_status tracking_pieces
    tracking_piece_completion tracking_update_window tracking_clear_window tracking_next_event tracking_take_last_error\<close>)

lemma handle_alert_tracks:
  assumes "lawful E" and "session_inv W w" and "handle_alert E ks alert w = (Ret (), w')"
  shows "tracks E w w'"
proof (cases "\<exists>h i. alert_handle alert = Some h \<and> id_for ks h w = Some i")
  case False
  with assms(3) have "w' = w" by (auto simp: handle_alert_def prog_defs split: option.splits)
  then show ?thesis by (simp add: tracks_refl)
next
  case True
  then obtain h i where h: "alert_handle alert = Some h" "id_for ks h w = Some i" by blast
  from id_for_Some [OF h(2)] obtain v where v: "session_job w i = Some v" by blast
  have "evolving E i (bind (the_job i) (\<lambda>value. bind (engine_call (lt_is_valid E (handle value))) (\<lambda>valid.
       if \<not> valid then return () else dispatch_alert E i alert)))"
  proof (rule evolvingI)
    fix a and v :: "'a job"
    note dispatch = evolvingD [OF evolving_alert [OF assms(1)]]
    show "job_triple i (\<lambda>j m. j = v \<and> job_ok a i j m) (bind (the_job i) (\<lambda>value. bind (engine_call (lt_is_valid E (handle value)))
        (\<lambda>valid. if \<not> valid then return () else dispatch_alert E i alert))) (\<lambda>_ j m. evolves E v j) (\<lambda>_ _. True)"
      by (rule jt_pre, (rule job_wp dispatch)+) auto
  qed
  from job_triple_run [OF evolvingD [OF this, of v "i \<in> W"] assms(2) v] assms(3) h
  show ?thesis by (intro tracks_focus [OF v]) (simp add: handle_alert_def bind_gets)
qed

lemma alerts_track:
  assumes "lawful E"
  shows "session_inv W w \<Longrightarrow> for_each batch (handle_alert E ks) w = (Ret (), w') \<Longrightarrow> tracks E w w'"
proof (induction batch arbitrary: w)
  case Nil
  then show ?case by (simp add: return_def tracks_refl)
next
  case (Cons alert batch)
  then obtain w1 where first: "handle_alert E ks alert w = (Ret (), w1)" "for_each batch (handle_alert E ks) w1 = (Ret (), w')"
    by (auto simp: prog_defs split: prod.splits outcome.splits)
  with hoare_RetD [OF hoare_handle_alert [OF assms] Cons.prems(1)] have "session_inv W w1" by blast
  with first Cons.IH handle_alert_tracks [OF assms Cons.prems(1)] show ?case by (blast intro: tracks_trans)
qed

lemma add_succession:
  assumes "ltkit_session_add E True rq w = (Ret code, w')"
  shows "succession E (session_job w k) (session_job w' k)"
proof -
  from add_jobs [OF assms] consider "jobs w' = jobs w"
    | i v where "session_job w i = None" "jobs w' = AList.update i v (jobs w)" "stage_of v = Downloading"
    by blast
  then show ?thesis
  proof cases
    case 1
    then show ?thesis by (rule succession_same)
  next
    case (2 i v)
    then show ?thesis by (cases "k = i"; cases "session_job w k") simp_all
  qed
qed

lemma remove_jobs:
  assumes "session_job w i = Some v" and "\<not> cp_active (checkpoint v)"
    and "ltkit_session_remove E True (Some i) delete_files w = (Ret code, w')"
  shows "jobs w' = jobs w \<or> jobs w' = AList.delete i (jobs w)"
  using assms
  by (auto simp: ltkit_session_remove_def guarded_def find_job_def bind_gets fail_def set_error_def prog_defs engine_call_def
      notify_all_def split: if_splits prod.splits sum.splits exn.splits outcome.splits)

lemma remove_succession:
  assumes "ltkit_session_remove E True identifier delete_files w = (Ret code, w')"
  shows "succession E (session_job w k) (session_job w' k)"
proof (cases "\<exists>i v. identifier = Some i \<and> session_job w i = Some v \<and> \<not> cp_active (checkpoint v)")
  case True
  then obtain i v where i: "identifier = Some i" "session_job w i = Some v" "\<not> cp_active (checkpoint v)" by blast
  with assms have "ltkit_session_remove E True (Some i) delete_files w = (Ret code, w')" by simp
  from remove_jobs [OF i(2,3) this] show ?thesis
  proof
    assume "jobs w' = AList.delete i (jobs w)"
    with i show ?thesis by (cases "k = i"; cases "session_job w k") (simp_all add: delete_conv')
  qed (rule succession_same)
next
  case False
  with assms have "jobs w' = jobs w"
    by (auto simp: ltkit_session_remove_def guarded_def find_job_def bind_gets fail_run return_def split: option.splits)
  then show ?thesis by (rule succession_same)
qed

text \<open>The calls that register or forget a torrent; every other step only moves the torrents on.\<close>

fun changes_list :: "api_call \<Rightarrow> bool" where
  "changes_list (Add rq) \<longleftrightarrow> True"
| "changes_list (Remove i delete_files) \<longleftrightarrow> True"
| "changes_list _ \<longleftrightarrow> False"

lemma session_step_tracks:
  assumes "sound_engine E rnd" and "session_inv W w" and "session_step E rnd (W, w) (W', w')"
  shows "tracks E w w' \<or> (\<exists>c code. changes_list c \<and> run_call E rnd c w = (Ret code, w'))"
  using assms(3)
proof cases
  case (step_call c code)
  show ?thesis
  proof (cases "changes_list c")
    case False
    then have "tracking E W (run_call E rnd c)" by (intro run_call_tracks assms(1)) auto
    with step_call assms(2) show ?thesis by (blast dest: trackingD)
  qed (use step_call in blast)
next
  case (step_alerts ks batch again)
  with alerts_track [OF _ assms(2)] assms(1) show ?thesis
    by (auto simp: alert_batch_def sound_engine_def intro: tracks_refl split: if_splits prod.splits outcome.splits)
next
  case (step_answered i flush a)
  with trackingD [OF tracking_checkpoint_request assms(2)] show ?thesis by blast
next
  case (step_waits i flush g)
  with trackingD [OF tracking_checkpoint_request assms(2)] show ?thesis by blast
next
  case (step_throws i flush x w1 r)
  then have "tracks E w w1" "jobs w' = jobs w1"
    using trackingD [OF tracking_checkpoint_request assms(2)]
    by (blast, auto simp: guarded_def fail_def set_error_def prog_defs split: exn.splits)
  then show ?thesis by (blast intro: tracks_trans tracks_refl)
next
  case (step_returns i g completed a)
  with trackingD [OF tracking_guarded_with [OF tracking_checkpoint_finish] assms(2)] show ?thesis by blast
next
  case (step_wake u)
  then have "jobs w' = jobs w" by (auto simp: ltkit_session_wake_def notify_all_def prog_defs)
  then show ?thesis by (blast intro: tracks_refl)
qed (simp_all add: tracks_refl)

lemma session_step_succession:
  assumes "sound_engine E rnd" and "session_inv W w" and "session_step E rnd (W, w) (W', w')"
  shows "succession E (session_job w k) (session_job w' k)"
  using session_step_tracks [OF assms]
proof (elim disjE exE conjE)
  fix c code assume "changes_list c" "run_call E rnd c w = (Ret code, w')"
  then show ?thesis by (cases c) (auto intro: add_succession remove_succession)
qed (rule tracks_succession)

section \<open>Runs\<close>

text \<open>Steps of the session after which torrent \<open>k\<close> is listed, so that it was not removed in between.\<close>

definition listed_step ::
  "('h, 'e) env \<Rightarrow> (rat \<Rightarrow> rat) \<Rightarrow> string \<Rightarrow> string set \<times> ('h, 'e) ltkit_session \<Rightarrow> string set \<times> ('h, 'e) ltkit_session \<Rightarrow> bool" where
  "listed_step E rnd k s t \<longleftrightarrow> session_step E rnd s t \<and> session_job (snd t) k \<noteq> None"

lemma listed_step_evolves:
  assumes "sound_engine E rnd" and "session_inv W w" and "session_job w k = Some v" and "listed_step E rnd k (W, w) (W', w')"
  shows "\<exists>j. session_job w' k = Some j \<and> evolves E v j" and "session_inv W' w'"
  using session_step_succession [OF assms(1,2), of W' w' k] session_step_inv [OF assms(1,2)] assms(3,4)
  by (auto simp: listed_step_def)

lemma listed_run_evolves:
  assumes "sound_engine E rnd" and "session_inv W w" and "session_job w k = Some v"
    and "(listed_step E rnd k)\<^sup>*\<^sup>* (W, w) (W', w')"
  shows "(\<exists>j. session_job w' k = Some j \<and> evolves E v j) \<and> session_inv W' w'"
  using assms(4)
proof (induction rule: rtranclp_induct2)
  case refl
  then show ?case using assms(2,3) by simp
next
  case (step W1 w1 W2 w2)
  then obtain u where u: "session_job w1 k = Some u" "evolves E v u" "session_inv W1 w1" by blast
  with listed_step_evolves [OF assms(1) u(3,1) step(2)] show ?case by (blast intro: evolves_trans)
qed

text \<open>Every published torrent was verified.\<close>

definition all_verified :: "('h, 'e) env \<Rightarrow> ('h, 'e) ltkit_session \<Rightarrow> bool" where
  "all_verified E w \<longleftrightarrow>
     (\<forall>k j. session_job w k = Some j \<longrightarrow> final_status j \<noteq> None \<longrightarrow> verified E j (final_payloads j))"

lemma evolves_verified:
  assumes "evolves E v j" and "final_status v \<noteq> None \<Longrightarrow> verified E v (final_payloads v)" and "final_status j \<noteq> None"
  shows "verified E j (final_payloads j)"
proof (cases "final_status v = None")
  case True
  then show ?thesis using evolvesD(9) [OF assms(1)] assms(3) by blast
next
  case False
  then have "stage_of v \<noteq> Downloading" using stage_final [of v] by auto
  with False evolvesD(1,7,8) [OF assms(1)] verified_cong [of j v E] assms(2) show ?thesis by metis
qed

lemma step_verified:
  assumes "sound_engine E rnd" and "session_inv W w" and "all_verified E w" and "session_step E rnd (W, w) (W', w')"
  shows "all_verified E w'"
  unfolding all_verified_def
proof (intro allI impI)
  fix k j assume j: "session_job w' k = Some j" "final_status j \<noteq> None"
  note next_job = session_step_succession [OF assms(1,2,4), of k]
  show "verified E j (final_payloads j)"
  proof (cases "session_job w k")
    case None
    with next_job j show ?thesis by (simp add: stage_of_def split: if_splits)
  next
    case (Some v)
    with next_job j(1) have "evolves E v j" by simp
    then show ?thesis
      by (rule evolves_verified) (use Some j(2) assms(3) in \<open>auto simp: all_verified_def\<close>)
  qed
qed

lemma all_verified_new: "all_verified E (new_session e)"
  by (simp add: all_verified_def new_session_def)

interpretation published: inductive_invariant "\<lambda>s. \<exists>e. s = ({}, new_session e)" "session_step E rnd"
  "\<lambda>(W, w). sound_engine E rnd \<longrightarrow> session_inv W w \<and> all_verified E w" for E :: "('h, 'e) env" and rnd
proof unfold_locales
  fix s :: "string set \<times> ('h, 'e) ltkit_session"
  show "\<exists>e. s = ({}, new_session e) \<Longrightarrow> case s of (W, w) \<Rightarrow> sound_engine E rnd \<longrightarrow> session_inv W w \<and> all_verified E w"
    by (auto simp: session_inv_new all_verified_new)
qed (auto intro: session_step_inv step_verified)

lemma reachable_verified:
  "session_reachable E rnd W w \<Longrightarrow> sound_engine E rnd \<Longrightarrow> session_job w k = Some j \<Longrightarrow> final_status j \<noteq> None
     \<Longrightarrow> verified E j (final_payloads j)"
  using published.reachable_good [of _ E rnd "(W, w)"] unfolding session_reachable_def all_verified_def by blast

section \<open>Properties\<close>

text \<open>
  C3: The session refines the life cycle of a torrent. In every reachable state, every critical section of every
  thread takes each torrent only along the arrows of the abstract machine: it is admitted in \<open>Downloading\<close>, passes
  through \<open>Awaiting\<close> and at most two disk fences to \<open>Published\<close> or \<open>Halted\<close>, which it leaves only by removal, and
  it is removed only while nobody has claimed its checkpoint. A torrent that is to go on seeding never enters
  completion; its files are frozen once it has finished; what was published is final and was verified.
\<close>

theorem torrent_follows_lifecycle:
  assumes "sound_engine E rnd" and "session_reachable E rnd W w" and "session_step E rnd (W, w) (W', w')"
  shows "succession E (session_job w k) (session_job w' k)"
  by (rule session_step_succession [OF assms(1) reachable_inv [OF assms(2,1)] assms(3)])

text \<open>
  C7: Publication is final. From the moment a torrent has a final status, through any further run of calls and
  alerts in which it is not removed, it stays stopped and its status, metadata document, resume data, verified
  payloads and selected files stay exactly what they were.
\<close>

theorem publication_final:
  assumes "sound_engine E rnd" and "session_reachable E rnd W w" and "session_job w k = Some v" and "final_status v \<noteq> None"
    and "(listed_step E rnd k)\<^sup>*\<^sup>* (W, w) (W', w')"
  shows "\<exists>j. session_job w' k = Some j \<and> stopped j \<and> final_status j = final_status v \<and> final_metadata j = final_metadata v
    \<and> final_resume_data j = final_resume_data v \<and> final_payloads j = final_payloads v \<and> desired_files j = desired_files v"
proof -
  have inv: "session_inv W w" by (rule reachable_inv [OF assms(2,1)])
  from inv assms(3,4) have "stopped v" by (auto simp: session_inv_def job_ok_def job_inv_def)
  moreover have "stage_of v \<noteq> Downloading" using assms(4) stage_final [of v] by auto
  moreover obtain j where "session_job w' k = Some j" "evolves E v j"
    using listed_run_evolves [OF assms(1) inv assms(3,5)] by blast
  ultimately show ?thesis using evolvesD(4,7,8) [of E v j] assms(4) by blast
qed

text \<open>
  C4: No torrent is ever announced as completed without its files. On a system that obeys POSIX, whenever any
  reachable session lists a torrent with a final status, every desired file existed in the layout libtorrent
  reported, was complete according to the engine and, unless it is padding, was found on disk under the save path: a
  regular file of at least its recorded size. At least one file was found.
\<close>

theorem published_files_on_disk:
  assumes "posix_laws (env_posix E) fdtab attrs opened" and "sound_engine E rnd" and "session_reachable E rnd W w"
    and "session_job w k = Some j" and "final_status j \<noteq> None"
  shows "\<exists>info status progress s. final_payloads j \<noteq> []
    \<and> (\<exists>e e'. lt_torrent_file E (handle j) e = (Inr (Some info), e'))
    \<and> (\<exists>e e'. lt_status E (handle j) e = (Inr status, e')) \<and> (\<exists>e e'. lt_file_progress E (handle j) e = (Inr progress, e'))
    \<and> (\<forall>n\<in>set (desired_files j). 0 \<le> n \<and> n < ti_num_files info \<and> (ti_pad_file info n \<or>
       (\<exists>path. safe_relative_path (ti_file_absolute info n) (ti_file_path info n) = Some path
          \<and> ti_file_size info n \<le> progress ! nat n
          \<and> payload_present (attrs s)
              \<lparr>payload_path = path_append (save_path status) path, payload_size = ti_file_size info n\<rparr>)))"
  by (rule verifiedD [OF reachable_verified [OF assms(3,2,4,5)] assms(1)])

lemma stage_changes:
  assumes "\<And>m. m < n \<Longrightarrow> evolves E (j m) (j (Suc m))"
  shows "card {m. m < n \<and> stage_of (j m) \<noteq> stage_of (j (Suc m))} + stage_rank (stage_of (j 0)) \<le> stage_rank (stage_of (j n))"
  using assms
proof (induction n)
  case (Suc n)
  let ?C = "\<lambda>n. {m. m < n \<and> stage_of (j m) \<noteq> stage_of (j (Suc m))}"
  have star: "advances\<^sup>*\<^sup>* (stage_of (j n)) (stage_of (j (Suc n)))" using Suc.prems [of n] evolvesD(5) by blast
  have "stage_rank (stage_of (j n)) < stage_rank (stage_of (j (Suc n)))" if "stage_of (j n) \<noteq> stage_of (j (Suc n))"
    by (rule advances_star_less [OF star that])
  moreover have "?C (Suc n) = (if stage_of (j n) \<noteq> stage_of (j (Suc n)) then insert n (?C n) else ?C n)"
    by (auto simp: less_Suc_eq)
  moreover have "finite (?C n)" "n \<notin> ?C n" by auto
  ultimately show ?case using Suc advances_star_rank [OF star] by auto
qed simp

text \<open>
  The life of a torrent is bounded. Along any run from a reachable state in which the torrent is not removed,
  its stage changes at most four times, however long the run and whatever the engine answers: completion cannot be
  entered again or go in circles.
\<close>

theorem lifecycle_bounded:
  assumes "sound_engine E rnd" and "session_reachable E rnd (fst (run 0)) (snd (run 0))"
    and "\<And>m. m < n \<Longrightarrow> listed_step E rnd k (run m) (run (Suc m))" and "\<And>m. session_job (snd (run m)) k = Some (j m)"
  shows "card {m. m < n \<and> stage_of (j m) \<noteq> stage_of (j (Suc m))} \<le> 4"
proof -
  have inv: "m \<le> n \<Longrightarrow> session_inv (fst (run m)) (snd (run m))" for m
  proof (induction m)
    case 0
    show ?case by (rule reachable_inv [OF assms(2,1)])
  next
    case (Suc m)
    then show ?case using listed_step_evolves(2) [OF assms(1) _ assms(4)] assms(3) [of m] by simp
  qed
  have "evolves E (j m) (j (Suc m))" if "m < n" for m
    using listed_step_evolves(1) [OF assms(1) inv [of m] assms(4), of "fst (run (Suc m))" "snd (run (Suc m))"] assms(3) [OF that]
      assms(4) [of "Suc m"] that by simp
  from stage_changes [of n E j, OF this] have "card {m. m < n \<and> stage_of (j m) \<noteq> stage_of (j (Suc m))} \<le> stage_rank (stage_of (j n))"
    by simp
  also have "\<dots> \<le> 4" by (cases "stage_of (j n)") auto
  finally show ?thesis .
qed

section \<open>Witnesses\<close>

text \<open>One batch of alerts takes the torrent of \<open>sample_added\<close> through its completion.\<close>

definition sample_published :: "(nat, sample_os) ltkit_session" where
  "sample_published = snd (alert_batch sample_env [''t'']
     [Torrent_finished 1, Cache_flushed_alert 1, Save_resume_data 1 ''r''] sample_added)"

lemma sample_publishes:
  "alert_batch sample_env [''t''] [Torrent_finished 1, Cache_flushed_alert 1, Save_resume_data 1 ''r''] sample_added
     = (Ret True, sample_published)
   \<and> (\<exists>v. session_job sample_published ''t'' = Some v \<and> final_status v = Some sample_status \<and> final_resume_data v = ''r''
        \<and> desired_files v = [0])"
proof -
  obtain md where md: "metadata_document sample_env sample_info [4, 0] [5, 0] = Some md" "md \<noteq> []"
    using sample_metadata by blast
  show ?thesis
    unfolding sample_published_def
    by (simp add: alert_batch_def handle_alert_def dispatch_alert_def on_torrent_finished_def start_waiting_completion_def
        start_checkpoint_def on_cache_flushed_def barrier_defs on_resume_saved_def finish_checkpoint_def finish_completion_def
        refresh_selected_payloads_def cache_final_metadata_def metadata_json_def conclude_completion_def new_checkpoint_def
        set_job_def the_job_def system_call_def md sample_added_def sample_add_eval new_job_def
        sample_disk_def sample_posix_def sync_selected_payloads_def sync_one_def max_critical_entries_def code_defs)
qed

lemma sample_publishing_step: "session_step sample_env (\<lambda>x. x) ({}, sample_added) ({}, sample_published)"
  by (rule step_alerts [OF conjunct1 [OF sample_publishes]])

lemma sample_published_reachable: "session_reachable sample_env (\<lambda>x. x) {} sample_published"
  using sample_reachable sample_publishing_step unfolding session_reachable_def by (blast intro: rtranclp.rtrancl_into_rtrancl)

theorem torrent_follows_lifecycle_witness:
  "succession sample_env (session_job sample_added ''t'') (session_job sample_published ''t'')"
  by (rule torrent_follows_lifecycle [OF sample_sound sample_reachable sample_publishing_step])

theorem publication_final_witness:
  "\<exists>j. session_job (sample_published\<lparr>engine := sample_disk\<rparr>) ''t'' = Some j \<and> stopped j \<and> final_status j = Some sample_status
     \<and> final_resume_data j = ''r''"
proof -
  obtain v where v: "session_job sample_published ''t'' = Some v" "final_status v = Some sample_status" "final_resume_data v = ''r''"
    using sample_publishes by blast
  have "listed_step sample_env (\<lambda>x. x) ''t'' ({}, sample_published) ({}, sample_published\<lparr>engine := sample_disk\<rparr>)"
    unfolding listed_step_def by (rule conjI, rule step_engine) (simp add: v(1))
  from publication_final [OF sample_sound sample_published_reachable v(1) _ r_into_rtranclp [of "listed_step sample_env (\<lambda>x. x) ''t''", OF this]] v(2,3)
  show ?thesis by auto
qed

theorem published_files_on_disk_witness:
  "\<exists>j (s :: sample_os). session_job sample_published ''t'' = Some j \<and> final_payloads j \<noteq> []
     \<and> payload_present (map_of (os_files s)) \<lparr>payload_path = ''/d/a'', payload_size = 5\<rparr>"
proof -
  obtain v where v: "session_job sample_published ''t'' = Some v" "final_status v = Some sample_status" "desired_files v = [0]"
    using sample_publishes by blast
  have laws: "posix_laws (env_posix sample_env) os_fds (\<lambda>s. map_of (os_files s)) os_opened"
    using sample_posix_laws by simp
  show ?thesis
    using published_files_on_disk [OF laws sample_sound sample_published_reachable v(1)] v by auto
qed

theorem lifecycle_bounded_witness:
  "\<exists>j :: nat \<Rightarrow> nat job. stage_of (j 0) = Downloading \<and> stage_of (j 1) = Published
     \<and> card {m. m < 1 \<and> stage_of (j m) \<noteq> stage_of (j (Suc m))} \<le> 4"
proof -
  obtain v where v: "session_job sample_published ''t'' = Some v" "final_status v = Some sample_status"
    using sample_publishes by blast
  obtain u where u: "session_job sample_added ''t'' = Some u" "stage_of u = Downloading"
    by (simp add: sample_added_def sample_add_eval new_job_def stage_of_def)
  let ?run = "\<lambda>m. ({} :: string set, if m = 0 then sample_added else sample_published)"
    and ?j = "\<lambda>m. if m = (0 :: nat) then u else v"
  have "listed_step sample_env (\<lambda>x. x) ''t'' (?run m) (?run (Suc m))" if "m < 1" for m
    using that v(1) sample_publishing_step by (simp add: listed_step_def)
  moreover have "session_job (snd (?run m)) ''t'' = Some (?j m)" for m using u(1) v(1) by simp
  ultimately have "card {m. m < 1 \<and> stage_of (?j m) \<noteq> stage_of (?j (Suc m))} \<le> 4"
    using lifecycle_bounded [OF sample_sound, of ?run 1 "''t''" ?j] sample_reachable by simp
  with u(2) v(2) show ?thesis by (intro exI [of _ ?j]) (simp add: stage_of_def)
qed

end
