(* ===== verification/Alert_Thread.thy ===== *)
theory Alert_Thread
  imports Session_Machine
begin

text \<open>
  The alert thread as a loop (\<open>ltkit_session::alerts\<close> in \<open>src/Native/src/LibtorrentNative.cpp\<close>), and the proof
  that it ends once the session shuts down, so that the \<open>join()\<close> of \<open>ltkit_session_destroy\<close> returns.
\<close>

section \<open>The loop\<close>

text \<open>
  One turn: what the other threads and the engine do while the thread waits for alerts without the lock, the
  alerts it then pops, and the iteration order of the jobs.
\<close>

record ('h, 'e) turn =
  turn_between :: "('h, 'e) ltkit_session \<Rightarrow> ('h, 'e) ltkit_session"
  turn_alerts :: "'h alert list"
  turn_order :: "string list"

text \<open>\<open>while (true)\<close>: the loop has no bound of its own, so not ending is the value \<open>None\<close>.\<close>

partial_function (option) alerts ::
  "('h, 'e) env \<Rightarrow> (nat \<Rightarrow> ('h, 'e) turn) \<Rightarrow> nat \<Rightarrow> ('h, 'e) ltkit_session \<Rightarrow> (unit outcome \<times> ('h, 'e) ltkit_session) option" where
  [code]: "alerts E turns n w =
     (case alert_batch E (turn_order (turns n)) (turn_alerts (turns n)) (turn_between (turns n) w) of
        (Ret again, w') \<Rightarrow> if again then alerts E turns (Suc n) w' else Some (Ret (), w')
      | (Throw x, w') \<Rightarrow> Some (Throw x, w')
      | (Crash c, w') \<Rightarrow> Some (Crash c, w'))"

section \<open>The shutdown flag\<close>

text \<open>Programs that leave the flag alone however they end.\<close>

definition steady :: "('h, 'e, 'a) session_prog \<Rightarrow> bool" where
  "steady p \<longleftrightarrow> (\<forall>w. shutting_down (snd (p w)) = shutting_down w)"

lemma steadyD: "steady p \<Longrightarrow> p w = (r, w') \<Longrightarrow> shutting_down w' = shutting_down w"
  unfolding steady_def by (metis snd_conv)

lemma steady_basic:
  "steady (engine_call c)" "steady (mailbox_call d)" "steady (system_call s)" "steady (return x)" "steady (throw e)"
  "steady (crash c')" "steady notify_all" "steady (fail code msg)" "steady (fail_with code msg)" "steady (gets f)"
  "steady (the_job i)" "steady (set_job i g)" "steady (find_job identifier)"
  by (auto simp: steady_def engine_call_def mailbox_call_def system_call_def notify_all_def fail_def fail_with_def set_error_def
      the_job_def set_job_def find_job_def prog_defs split: prod.splits sum.splits option.splits)

lemma steady_bind: "steady p \<Longrightarrow> (\<And>x. steady (f x)) \<Longrightarrow> steady (bind p f)"
  unfolding steady_def bind_def by (auto split: prod.splits outcome.splits) (metis snd_conv)+

lemma steady_andthen: "steady p \<Longrightarrow> steady q \<Longrightarrow> steady (andthen p q)"
  unfolding andthen_def by (rule steady_bind)

lemma steady_if: "steady p \<Longrightarrow> steady q \<Longrightarrow> steady (if b then p else q)"
  by simp

lemma steady_option: "steady p \<Longrightarrow> (\<And>x. steady (f x)) \<Longrightarrow> steady (case v of None \<Rightarrow> p | Some x \<Rightarrow> f x)"
  by (cases v) auto

lemma steady_prod: "(\<And>x y. steady (f x y)) \<Longrightarrow> steady (case v of (x, y) \<Rightarrow> f x y)"
  by (cases v) auto

lemma steady_let: "steady (f v) \<Longrightarrow> steady (let x = v in f x)"
  by simp

lemma steady_request: "(\<And>a. steady (f a)) \<Longrightarrow> (\<And>g. steady (h g)) \<Longrightarrow> steady (case r of Answer a \<Rightarrow> f a | Wait g \<Rightarrow> h g)"
  by (cases r) auto

lemma steady_map_each: "(\<And>x. steady (f x)) \<Longrightarrow> steady (map_each xs f)"
  by (induction xs) (auto intro!: steady_basic steady_bind)

lemma steady_for_each: "(\<And>x. steady (f x)) \<Longrightarrow> steady (for_each xs f)"
  by (induction xs) (auto intro!: steady_basic steady_andthen)

lemma steady_wait: "steady (wait_for id ready)"
  by (simp add: steady_def wait_for_def)

lemma guarded_flag:
  "shutting_down (snd (guarded_with written p w)) = shutting_down (snd (p w))"
  "shutting_down (snd (guarded q w)) = shutting_down (snd (q w))"
  by (auto simp: guarded_with_def guarded_def fail_def set_error_def prog_defs split: prod.splits outcome.splits exn.splits)

lemma steady_guarded: "steady p \<Longrightarrow> steady (guarded_with written p)" "steady q \<Longrightarrow> steady (guarded q)"
  by (simp_all add: steady_def guarded_flag)

lemma steady_code_of: "steady p \<Longrightarrow> steady (code_of p)"
  unfolding code_of_def by (intro steady_bind steady_basic)

lemmas steady_intros = steady_basic steady_bind steady_andthen steady_if steady_option steady_prod steady_let steady_request
  steady_map_each steady_for_each steady_wait steady_guarded steady_code_of

lemma steady_collect_bits: "steady (collect_bits E h ks bits)"
  by (induction ks arbitrary: bits) (auto intro!: steady_intros)

lemma steady_jobs: "steady (modify (\<lambda>w. w\<lparr>jobs := f w\<rparr>))" "steady (modify (\<lambda>w. w\<lparr>events := g w, jobs := f w\<rparr>))"
    "steady (modify (\<lambda>w. w\<lparr>last_error := m w\<rparr>))"
  by (simp_all add: steady_def prog_defs)

lemma steady_parts:
  "steady (start_checkpoint E i flush)" "steady (enqueue E i kind json)" "steady (apply_selection E i)"
  "steady (metadata_json E i)" "steady (respond E source msg)" "steady (refresh_selected_payloads E i)"
  "steady (conclude_completion E i success description)"
  unfolding start_checkpoint_def enqueue_def apply_selection_def metadata_json_def respond_def refresh_selected_payloads_def
    conclude_completion_def
  by (intro steady_intros)+

lemma steady_completion: "steady (start_waiting_completion E i)" "steady (cache_final_metadata E i)"
  unfolding start_waiting_completion_def cache_final_metadata_def by (intro steady_intros steady_parts)+

lemma steady_finish: "steady (finish_checkpoint E i success)"
  unfolding finish_checkpoint_def finish_completion_def by (intro steady_intros steady_parts steady_completion)

lemma steady_handle_alert: "steady (handle_alert E ks alert)"
proof -
  have "steady (dispatch_alert E i alert)" for i
    unfolding dispatch_alert_def on_metadata_received_def on_torrent_finished_def on_cache_flushed_def on_resume_saved_def
      on_resume_failed_def on_engine_error_def on_state_changed_def
    by (cases alert) (auto intro!: steady_intros steady_parts steady_completion steady_finish)
  then show ?thesis unfolding handle_alert_def by (intro steady_intros)
qed

lemma steady_metadata: "steady (metadata_answer E i)" "steady (metadata_resume E i g ready)" "steady (metadata_request E i)"
  unfolding metadata_resume_def metadata_answer_def metadata_request_def by (intro steady_intros steady_parts)+

lemma steady_checkpoint: "steady (checkpoint_request E i flush)" "steady (checkpoint_finish E i g completed)"
  unfolding checkpoint_request_def checkpoint_open_def checkpoint_finish_def checkpoint_close_def
  by (intro steady_intros steady_parts steady_completion)+

lemma steady_active:
  "(\<And>i v. steady (body i v)) \<Longrightarrow> steady (with_active_job identifier body)"
  "(\<And>i v. steady (out i v)) \<Longrightarrow> steady (with_active_out identifier out)"
  unfolding with_active_job_def with_active_out_def by (intro steady_intros; assumption)+

lemma steady_add: "steady (ltkit_session_add E session rq)"
  unfolding ltkit_session_add_def add_admitted_def add_parsed_def register_torrent_def parse_source_def read_resume_def
  by (intro steady_intros steady_jobs steady_parts)

lemma steady_window: "steady (update_window E rnd k byte_offset critical_bytes warm_bytes rate edges i v)"
  unfolding update_window_def apply_window_def place_deadline_def by (intro steady_intros steady_parts)

lemma steady_next_event: "steady (ltkit_session_next_event E order id session timeout_ms output)"
  unfolding ltkit_session_next_event_def by (intro steady_intros)

lemma steady_call: "steady (run_call E rnd c)"
proof (cases c)
  case (Remove i delete_files)
  then show ?thesis
    by (cases i) (auto simp: ltkit_session_remove_def intro!: steady_intros steady_jobs)
next
  case (Metadata i)
  then show ?thesis
    by (auto simp: ltkit_session_metadata_def intro!: steady_intros steady_metadata)
qed (auto simp: ltkit_session_select_files_def ltkit_session_set_file_priority_def ltkit_session_set_piece_priority_def
    ltkit_session_start_def ltkit_session_pause_def ltkit_session_status_def ltkit_session_pieces_def
    ltkit_session_piece_completion_def piece_completion_query_def
    ltkit_session_update_streaming_window_def ltkit_session_clear_streaming_window_def ltkit_session_take_last_error_def Let_def
    intro!: steady_intros steady_active steady_parts steady_add steady_window steady_next_event steady_metadata
    steady_collect_bits steady_jobs)

lemma step_shutting_down:
  assumes "session_step E rnd (W, w) (W', w')" and "shutting_down w"
  shows "shutting_down w'"
  using assms(1)
proof cases
  case (step_call c code)
  with steadyD [OF steady_call] assms(2) show ?thesis by blast
next
  case (step_alerts ks batch again)
  with assms(2) show ?thesis by (simp add: alert_batch_def)
next
  case (step_wake u)
  with assms(2) show ?thesis by (auto simp: ltkit_session_wake_def notify_all_def prog_defs)
next
  case (step_answered i flush a)
  with steadyD [OF steady_checkpoint(1)] assms(2) show ?thesis by blast
next
  case (step_waits i flush g)
  with steadyD [OF steady_checkpoint(1)] assms(2) show ?thesis by blast
next
  case (step_throws i flush x w1 r)
  with steadyD [OF steady_checkpoint(1)] steadyD [OF steady_guarded(2) [OF steady_basic(5)]] assms(2) show ?thesis by blast
next
  case (step_returns i g completed a)
  with steadyD [OF steady_guarded(1) [OF steady_checkpoint(2)]] assms(2) show ?thesis by blast
qed (use assms(2) in simp_all)

section \<open>The end of the thread\<close>

text \<open>What happens while the thread waits are critical sections of the session.\<close>

definition interleaved :: "('h, 'e) env \<Rightarrow> (rat \<Rightarrow> rat) \<Rightarrow> (nat \<Rightarrow> ('h, 'e) turn) \<Rightarrow> bool" where
  "interleaved E rnd turns \<longleftrightarrow>
     (\<forall>n W w. session_reachable E rnd W w \<longrightarrow> (\<exists>W'. (session_step E rnd)\<^sup>*\<^sup>* (W, w) (W', turn_between (turns n) w)))"

lemma batch_cases:
  assumes "sound_engine E rnd" and "session_reachable E rnd W w"
  obtains w' where "alert_batch E ks batch w = (Ret (\<not> shutting_down w), w')" "session_reachable E rnd W w'"
      "shutting_down w' = shutting_down w"
  | c w' where "alert_batch E ks batch w = (Crash c, w')" "c \<noteq> Undefined_behaviour"
proof -
  obtain r w' where run: "alert_batch E ks batch w = (r, w')" by fastforce
  have step: "session_reachable E rnd W w'" if "r = Ret again" for again
    using steps_reachable [OF assms(2) r_into_rtranclp [of "session_step E rnd", OF step_alerts]] run that by blast
  have flag: "shutting_down w' = shutting_down w" if "r = Ret again" for again
  proof -
    have "steady (for_each batch (handle_alert E ks))" by (intro steady_for_each steady_handle_alert)
    with run that show ?thesis
      by (auto simp: alert_batch_def split: if_splits prod.splits outcome.splits dest: steadyD)
  qed
  note ok = hoare_alerts [of E W batch ks] reachable_inv [OF assms(2,1)]
  show ?thesis
  proof (cases r)
    case (Ret again)
    with run have "again \<longleftrightarrow> \<not> shutting_down w"
      by (auto simp: alert_batch_def split: if_splits prod.splits outcome.splits)
    with run Ret step flag show ?thesis by (intro that(1) [of w']) auto
  next
    case (Throw x)
    with run show ?thesis by (auto simp: alert_batch_def split: if_splits prod.splits outcome.splits)
  next
    case (Crash c)
    have "c \<noteq> Undefined_behaviour"
      using ok assms(1) run Crash
      by (auto simp: sound_engine_def alert_batch_def hoare_def split: if_splits prod.splits outcome.splits)
    with run Crash show ?thesis by (intro that(2) [of c w']) auto
  qed
qed

text \<open>How the thread can end: because the session shuts down, or with the process.\<close>

fun thread_ended :: "('h, 'e) env \<Rightarrow> (rat \<Rightarrow> rat) \<Rightarrow> unit outcome \<Rightarrow> ('h, 'e) ltkit_session \<Rightarrow> bool" where
  "thread_ended E rnd (Ret u) w \<longleftrightarrow> shutting_down w \<and> (\<exists>W. session_reachable E rnd W w)"
| "thread_ended E rnd (Throw x) w \<longleftrightarrow> False"
| "thread_ended E rnd (Crash c) w \<longleftrightarrow> c \<noteq> Undefined_behaviour"

lemma alerts_end:
  assumes "sound_engine E rnd" and "interleaved E rnd turns"
    and stop: "\<And>W w. session_reachable E rnd W w \<Longrightarrow> shutting_down (turn_between (turns N) w)"
  shows "session_reachable E rnd W w \<Longrightarrow> n \<le> N \<Longrightarrow> \<exists>r w'. alerts E turns n w = Some (r, w') \<and> thread_ended E rnd r w'"
proof (induction "N - n" arbitrary: n W w)
  case 0
  then have n: "n = N" by simp
  obtain W1 where reach: "session_reachable E rnd W1 (turn_between (turns n) w)"
    using assms(2) 0(2) steps_reachable unfolding interleaved_def by blast
  have down: "shutting_down (turn_between (turns n) w)" unfolding n by (rule stop [OF 0(2)])
  show ?case
    by (rule batch_cases [OF assms(1) reach, of "turn_order (turns n)" "turn_alerts (turns n)"])
      (use down in \<open>auto simp: alerts.simps [of E turns n]\<close>)
next
  case (Suc d)
  obtain W1 where reach: "session_reachable E rnd W1 (turn_between (turns n) w)"
    using assms(2) Suc(3) steps_reachable unfolding interleaved_def by blast
  show ?case
  proof (rule batch_cases [OF assms(1) reach, of "turn_order (turns n)" "turn_alerts (turns n)"])
    fix w' assume batch: "alert_batch E (turn_order (turns n)) (turn_alerts (turns n)) (turn_between (turns n) w)
        = (Ret (\<not> shutting_down (turn_between (turns n) w)), w')" and w': "session_reachable E rnd W1 w'"
      "shutting_down w' = shutting_down (turn_between (turns n) w)"
    show ?thesis
    proof (cases "shutting_down w'")
      case True
      with batch w' show ?thesis by (auto simp: alerts.simps [of E turns n])
    next
      case False
      with batch w'(2) have "alerts E turns n w = alerts E turns (Suc n) w'" by (simp add: alerts.simps [of E turns n])
      with Suc.hyps(1) [OF _ w'(1), of "Suc n"] Suc.hyps(2) show ?thesis by auto
    qed
  qed (auto simp: alerts.simps [of E turns n])
qed

text \<open>
  C11: The alert thread ends. If in some turn \<open>N\<close> the shutdown flag is found set, as after the critical section of
  \<open>ltkit_session_destroy\<close>, the loop returns, whatever alerts it pops and whatever other threads do between its
  turns, unless an uncaught exception or a failed assertion ends the process before; it never reaches undefined
  behaviour. It returns only after a shutdown and leaves a consistent session. So \<open>alert_thread.join()\<close> returns.
\<close>

theorem alert_thread_ends:
  assumes "sound_engine E rnd" and "session_reachable E rnd W w" and "interleaved E rnd turns"
    and "\<And>W w. session_reachable E rnd W w \<Longrightarrow> shutting_down (turn_between (turns N) w)"
  shows "\<exists>r w'. alerts E turns 0 w = Some (r, w') \<and> thread_ended E rnd r w'"
  by (rule alerts_end [OF assms(1,3,4,2)]) simp_all

section \<open>Witness\<close>

text \<open>A first turn that handles an alert, then a caller destroys the session.\<close>

definition sample_turns :: "nat \<Rightarrow> (nat, sample_os) turn" where
  "sample_turns n = \<lparr>turn_between = (\<lambda>w. if n = 0 \<or> shutting_down w then w
       else w\<lparr>shutting_down := True, notified := Suc (notified w)\<rparr>),
     turn_alerts = [State_changed 1], turn_order = [''t'']\<rparr>"

lemma sample_interleaved: "interleaved sample_env (\<lambda>x. x) sample_turns"
  unfolding interleaved_def
proof (intro allI impI)
  fix n W and w :: "(nat, sample_os) ltkit_session"
  show "\<exists>W'. (session_step sample_env (\<lambda>x. x))\<^sup>*\<^sup>* (W, w) (W', turn_between (sample_turns n) w)"
    by (cases "n = 0 \<or> shutting_down w") (auto simp: sample_turns_def intro!: exI [of _ W] r_into_rtranclp step_shutdown)
qed

theorem alert_thread_ends_witness:
  "\<exists>r w'. alerts sample_env sample_turns 0 sample_added = Some (r, w') \<and> thread_ended sample_env (\<lambda>x. x) r w'"
  by (rule alert_thread_ends [OF sample_sound sample_reachable sample_interleaved, of 1]) (simp add: sample_turns_def)

end
