(* ===== verification/Native_Executor.thy ===== *)
theory Native_Executor
  imports Prelude
begin

text \<open>
  The threads of the Swift wrapper that call the C interface: \<open>NativeSessionHandle\<close>, \<open>NativeOperationCancellation\<close>
  and \<open>NativeSessionExecutor\<close> (\<open>src/Sources/LibtorrentKit/NativeSessionExecutor.swift\<close>), the lane of
  \<open>NativeEventReader\<close> (\<open>NativeEventReader.swift\<close>) and \<open>TorrentSession.shutdown\<close> (\<open>TorrentSession.swift\<close>).

  Two serial dispatch queues share one native session: \<open>Calls\<close> for the operations of the actor, \<open>Events\<close> for the
  reader. A block of a queue is cut where another thread can observe or change what it works on: at the locks
  of the cancellation, of the handle and of the reader, around the native call, and at the resumption of the
  continuation. \<open>DispatchQueue\<close> runs the blocks of a serial queue one after another in the order of submission.
\<close>

section \<open>Cancellation of one operation\<close>

record cancellation =
  cancelled :: bool
  running :: bool

definition new_cancellation :: cancellation where
  "new_cancellation = \<lparr>cancelled = False, running = False\<rparr>"

definition cancellation_begin :: "cancellation \<Rightarrow> bool \<times> cancellation" where
  "cancellation_begin c = (if cancelled c then (False, c) else (True, c\<lparr>running := True\<rparr>))"

definition cancellation_finish :: "cancellation \<Rightarrow> cancellation" where
  "cancellation_finish c = c\<lparr>running := False\<rparr>"

definition cancellation_cancel :: "cancellation \<Rightarrow> bool \<times> cancellation" where
  "cancellation_cancel c = (running c, c\<lparr>cancelled := True\<rparr>)"

section \<open>Operations and queues\<close>

datatype semantics = Cancellable | Mutation

datatype lane = Calls | Events

datatype 'r reply = Cancellation_error | Shut_down_error | Returned 'r

text \<open>
  How far the block of an operation has come: submitted; past \<open>begin()\<close>; with the pointer in hand; inside the
  native call; after it with its result; the continuation resumed; ended.
\<close>

datatype 'r point = Queued | Begun | Holding | Executing | Executed 'r | Replied "'r reply" | Resumed "'r reply"

text \<open>\<open>op_ran\<close> records whether the native call was entered.\<close>

record 'r operation =
  op_lane :: lane
  op_semantics :: semantics
  op_cancellation :: cancellation
  op_point :: "'r point"
  op_ran :: bool

datatype block = Operation nat | Drain | Destroy

text \<open>How far \<open>TorrentSession.shutdown\<close> has come; \<open>isShutDown\<close> is set from \<open>Closed\<close> on.\<close>

datatype shutdown_phase = Open | Closed | Draining | Drained | Destroying | Destroyed

text \<open>
  \<open>storage\<close> is whether the handle still has its pointer; \<open>destroys\<close> and \<open>wakes\<close> count the calls of
  \<open>ltkit_session_destroy\<close> and \<open>ltkit_session_wake\<close>. \<open>waking\<close> counts the cancellation handlers that are between
  \<open>cancel()\<close> and \<open>wake()\<close>.
\<close>

record 'r wrapper =
  storage :: bool
  destroys :: nat
  wakes :: nat
  waking :: nat
  reader_closed :: bool
  phase :: shutdown_phase
  lane_queue :: "lane \<Rightarrow> block list"
  ops :: "nat \<Rightarrow> 'r operation option"

definition new_wrapper :: "'r wrapper" where
  "new_wrapper = \<lparr>storage = True, destroys = 0, wakes = 0, waking = 0, reader_closed = False, phase = Open,
     lane_queue = (\<lambda>_. []), ops = (\<lambda>_. None)\<rparr>"

definition submit_block :: "lane \<Rightarrow> block \<Rightarrow> 'r wrapper \<Rightarrow> 'r wrapper" where
  "submit_block l b s = s\<lparr>lane_queue := (lane_queue s)(l := lane_queue s l @ [b])\<rparr>"

definition end_block :: "lane \<Rightarrow> 'r wrapper \<Rightarrow> 'r wrapper" where
  "end_block l s = s\<lparr>lane_queue := (lane_queue s)(l := tl (lane_queue s l))\<rparr>"

definition put_op :: "nat \<Rightarrow> 'r operation \<Rightarrow> 'r wrapper \<Rightarrow> 'r wrapper" where
  "put_op n x s = s\<lparr>ops := (ops s)(n \<mapsto> x)\<rparr>"

section \<open>The handle\<close>

definition handle_wake :: "'r wrapper \<Rightarrow> 'r wrapper" where
  "handle_wake s = (if storage s then s\<lparr>wakes := Suc (wakes s)\<rparr> else s)"

definition handle_destroy :: "'r wrapper \<Rightarrow> 'r wrapper" where
  "handle_destroy s = (if storage s then s\<lparr>storage := False, destroys := Suc (destroys s)\<rparr> else s)"

section \<open>The executor\<close>

text \<open>
  \<open>perform\<close> up to the submission of the block. A task that is cancelled already throws before; its identity is \<open>n\<close>.
\<close>

definition perform :: "lane \<Rightarrow> semantics \<Rightarrow> nat \<Rightarrow> bool \<Rightarrow> 'r wrapper \<Rightarrow> 'r wrapper" where
  "perform l sem n task_cancelled s =
     (if task_cancelled then s
      else submit_block l (Operation n) (put_op n \<lparr>op_lane = l, op_semantics = sem, op_cancellation = new_cancellation,
             op_point = Queued, op_ran = False\<rparr> s))"

text \<open>\<open>onCancel\<close>: the call of \<open>cancel()\<close>, and the call of \<open>native.wake()\<close> that may follow it later.\<close>

definition on_cancel :: "nat \<Rightarrow> 'r wrapper \<Rightarrow> 'r wrapper" where
  "on_cancel n s = (case ops s n of
       None \<Rightarrow> s
     | Some x \<Rightarrow>
         (let (was_running, c) = cancellation_cancel (op_cancellation x); s' = put_op n (x\<lparr>op_cancellation := c\<rparr>) s
          in if was_running \<and> op_semantics x = Cancellable then s'\<lparr>waking := Suc (waking s')\<rparr> else s'))"

definition on_cancel_wake :: "'r wrapper \<Rightarrow> 'r wrapper" where
  "on_cancel_wake s = handle_wake (s\<lparr>waking := waking s - 1\<rparr>)"

text \<open>
  The next part of the block of operation \<open>n\<close>; \<open>r\<close> is the result of the native call. The operation of the reader
  looks at \<open>isClosed\<close> first and then returns without a native call.
\<close>

definition run_block :: "lane \<Rightarrow> nat \<Rightarrow> 'r operation \<Rightarrow> 'r \<Rightarrow> 'r wrapper \<Rightarrow> 'r wrapper option" where
  "run_block l n x r s = (case op_point x of
       Queued \<Rightarrow>
         (let (begun, c) = cancellation_begin (op_cancellation x)
          in if begun then Some (put_op n (x\<lparr>op_cancellation := c, op_point := Begun\<rparr>) s)
             else Some (end_block l (put_op n (x\<lparr>op_point := Resumed Cancellation_error\<rparr>) s)))
     | Begun \<Rightarrow>
         Some (put_op n (x\<lparr>op_point := (if storage s then Holding else Replied Shut_down_error)\<rparr>) s)
     | Holding \<Rightarrow>
         Some (put_op n (if l = Events \<and> reader_closed s then x\<lparr>op_point := Executed r\<rparr>
                         else x\<lparr>op_point := Executing, op_ran := True\<rparr>) s)
     | Executing \<Rightarrow> Some (put_op n (x\<lparr>op_point := Executed r\<rparr>) s)
     | Executed r' \<Rightarrow>
         Some (put_op n (x\<lparr>op_point := Replied (if op_semantics x = Cancellable \<and> cancelled (op_cancellation x)
            then Cancellation_error else Returned r')\<rparr>) s)
     | Replied a \<Rightarrow>
         Some (end_block l (put_op n (x\<lparr>op_cancellation := cancellation_finish (op_cancellation x), op_point := Resumed a\<rparr>) s))
     | Resumed a \<Rightarrow> None)"

text \<open>One part of the block at the head of a queue. Resuming the continuation of a drain or of the destruction moves
  the shutdown on.\<close>

definition work :: "lane \<Rightarrow> 'r \<Rightarrow> 'r wrapper \<Rightarrow> 'r wrapper option" where
  "work l r s = (case lane_queue s l of
       [] \<Rightarrow> None
     | Operation n # _ \<Rightarrow> (case ops s n of None \<Rightarrow> None | Some x \<Rightarrow> run_block l n x r s)
     | Drain # _ \<Rightarrow> Some (end_block l (s\<lparr>phase := Drained\<rparr>))
     | Destroy # _ \<Rightarrow> Some (end_block l ((handle_destroy s)\<lparr>phase := Destroyed\<rparr>)))"

section \<open>The reader and the shutdown\<close>

definition reader_close :: "'r wrapper \<Rightarrow> 'r wrapper" where
  "reader_close s = handle_wake (s\<lparr>reader_closed := True\<rparr>)"

text \<open>
  \<open>shutdown\<close> between its suspension points: \<open>eventReader.shutdown()\<close> closes the reader and submits a drain to its
  lane; when this was resumed, \<open>nativeExecutor.shutdown()\<close> wakes the session and submits the destruction.
\<close>

definition shutdown :: "'r wrapper \<Rightarrow> 'r wrapper option" where
  "shutdown s = (case phase s of
       Open \<Rightarrow> Some ((reader_close s)\<lparr>phase := Closed\<rparr>)
     | Closed \<Rightarrow> Some ((submit_block Events Drain s)\<lparr>phase := Draining\<rparr>)
     | Drained \<Rightarrow> Some ((submit_block Calls Destroy (handle_wake s))\<lparr>phase := Destroying\<rparr>)
     | _ \<Rightarrow> None)"

section \<open>Interleavings\<close>

inductive wrapper_step :: "'r wrapper \<Rightarrow> 'r wrapper \<Rightarrow> bool" where
  step_perform: "ops s n = None \<Longrightarrow> wrapper_step s (perform l sem n task_cancelled s)"
| step_cancel: "wrapper_step s (on_cancel n s)"
| step_cancel_wake: "0 < waking s \<Longrightarrow> wrapper_step s (on_cancel_wake s)"
| step_work: "work l r s = Some s' \<Longrightarrow> wrapper_step s s'"
| step_close: "wrapper_step s (reader_close s)"
| step_down: "shutdown s = Some s' \<Longrightarrow> wrapper_step s s'"

inductive_cases wrapper_stepE: "wrapper_step s t"

definition wrapper_reachable :: "'r wrapper \<Rightarrow> bool" where
  "wrapper_reachable s \<longleftrightarrow> wrapper_step\<^sup>*\<^sup>* new_wrapper s"

section \<open>The invariant\<close>

text \<open>A block that has begun and not ended.\<close>

fun active :: "'r point \<Rightarrow> bool" where
  "active Queued \<longleftrightarrow> False"
| "active (Resumed a) \<longleftrightarrow> False"
| "active _ \<longleftrightarrow> True"

text \<open>What a reply says about an operation.\<close>

fun reply_ok :: "'r operation \<Rightarrow> 'r reply \<Rightarrow> bool" where
  "reply_ok x Cancellation_error \<longleftrightarrow> cancelled (op_cancellation x) \<and> (op_semantics x = Mutation \<longrightarrow> \<not> op_ran x)"
| "reply_ok x Shut_down_error \<longleftrightarrow> \<not> op_ran x"
| "reply_ok x (Returned r) \<longleftrightarrow> True"

fun point_ok :: "'r operation \<Rightarrow> 'r point \<Rightarrow> bool" where
  "point_ok x Executing \<longleftrightarrow> op_ran x"
| "point_ok x (Executed r) \<longleftrightarrow> True"
| "point_ok x (Replied a) \<longleftrightarrow> reply_ok x a"
| "point_ok x (Resumed a) \<longleftrightarrow> reply_ok x a"
| "point_ok x _ \<longleftrightarrow> \<not> op_ran x"

definition op_inv :: "'r operation \<Rightarrow> bool" where
  "op_inv x \<longleftrightarrow> (running (op_cancellation x) \<longleftrightarrow> active (op_point x)) \<and> point_ok x (op_point x)"

text \<open>
  Only the block at the head of a queue can have begun. The two special blocks are where the shutdown waits for
  them. No native call is under way on a lane that the shutdown has passed.
\<close>

definition queued_op :: "'r wrapper \<Rightarrow> lane \<Rightarrow> nat \<Rightarrow> bool" where
  "queued_op s l n \<longleftrightarrow> (\<exists>x. ops s n = Some x \<and> op_lane x = l \<and> (\<forall>a. op_point x \<noteq> Resumed a))"

definition wrapper_inv :: "'r wrapper \<Rightarrow> bool" where
  "wrapper_inv s \<longleftrightarrow>
     (\<forall>n x. ops s n = Some x \<longrightarrow> op_inv x \<and> (active (op_point x) \<longrightarrow> (\<exists>bs. lane_queue s (op_lane x) = Operation n # bs)))
   \<and> (\<forall>l n. Operation n \<in> set (lane_queue s l) \<longleftrightarrow> queued_op s l n)
   \<and> (\<forall>l. distinct (lane_queue s l))
   \<and> (\<forall>l. Drain \<in> set (lane_queue s l) \<longleftrightarrow> phase s = Draining \<and> l = Events)
   \<and> (\<forall>l. Destroy \<in> set (lane_queue s l) \<longleftrightarrow> phase s = Destroying \<and> l = Calls)
   \<and> (phase s \<noteq> Open \<longrightarrow> reader_closed s)
   \<and> (storage s \<longleftrightarrow> phase s \<noteq> Destroyed) \<and> destroys s = (if storage s then 0 else 1)
   \<and> (\<forall>n x. ops s n = Some x \<longrightarrow> op_lane x = Events \<longrightarrow> phase s \<in> {Drained, Destroying, Destroyed} \<longrightarrow> op_point x \<noteq> Executing)
   \<and> (\<forall>n x. ops s n = Some x \<longrightarrow> op_lane x = Calls \<longrightarrow> \<not> storage s \<longrightarrow> op_point x \<notin> {Holding, Executing})"

lemma wrapper_invD:
  assumes "wrapper_inv s"
  shows "ops s n = Some x \<Longrightarrow> op_inv x"
    "ops s n = Some x \<Longrightarrow> active (op_point x) \<Longrightarrow> \<exists>bs. lane_queue s (op_lane x) = Operation n # bs"
    "Operation n \<in> set (lane_queue s l) \<longleftrightarrow> queued_op s l n"
    "distinct (lane_queue s l)"
    "Drain \<in> set (lane_queue s l) \<longleftrightarrow> phase s = Draining \<and> l = Events"
    "Destroy \<in> set (lane_queue s l) \<longleftrightarrow> phase s = Destroying \<and> l = Calls"
    "phase s \<noteq> Open \<Longrightarrow> reader_closed s"
    "storage s \<longleftrightarrow> phase s \<noteq> Destroyed" "destroys s = (if storage s then 0 else 1)"
    "ops s n = Some x \<Longrightarrow> op_lane x = Events \<Longrightarrow> phase s \<in> {Drained, Destroying, Destroyed} \<Longrightarrow> op_point x \<noteq> Executing"
    "ops s n = Some x \<Longrightarrow> op_lane x = Calls \<Longrightarrow> \<not> storage s \<Longrightarrow> op_point x \<notin> {Holding, Executing}"
proof -
  note inv = assms [unfolded wrapper_inv_def]
  show "ops s n = Some x \<Longrightarrow> op_inv x"
    "ops s n = Some x \<Longrightarrow> active (op_point x) \<Longrightarrow> \<exists>bs. lane_queue s (op_lane x) = Operation n # bs"
    using inv [THEN conjunct1] by blast+
qed (use assms [unfolded wrapper_inv_def, THEN conjunct2] in \<open>elim conjE; simp\<close>)+

lemma wrapper_invI:
  assumes "\<And>n x. ops s n = Some x \<Longrightarrow> op_inv x"
    "\<And>n x. ops s n = Some x \<Longrightarrow> active (op_point x) \<Longrightarrow> \<exists>bs. lane_queue s (op_lane x) = Operation n # bs"
    "\<And>l n. Operation n \<in> set (lane_queue s l) \<longleftrightarrow> queued_op s l n"
    "\<And>l. distinct (lane_queue s l)"
    "\<And>l. Drain \<in> set (lane_queue s l) \<longleftrightarrow> phase s = Draining \<and> l = Events"
    "\<And>l. Destroy \<in> set (lane_queue s l) \<longleftrightarrow> phase s = Destroying \<and> l = Calls"
    "phase s \<noteq> Open \<Longrightarrow> reader_closed s"
    "storage s \<longleftrightarrow> phase s \<noteq> Destroyed" "destroys s = (if storage s then 0 else 1)"
    "\<And>n x. ops s n = Some x \<Longrightarrow> op_lane x = Events \<Longrightarrow> phase s \<in> {Drained, Destroying, Destroyed} \<Longrightarrow> op_point x \<noteq> Executing"
    "\<And>n x. ops s n = Some x \<Longrightarrow> op_lane x = Calls \<Longrightarrow> \<not> storage s \<Longrightarrow> op_point x \<notin> {Holding, Executing}"
  shows "wrapper_inv s"
  unfolding wrapper_inv_def by (intro conjI allI impI; (rule assms; assumption)?)

lemma inv_new: "wrapper_inv new_wrapper"
  by (rule wrapper_invI) (simp_all add: new_wrapper_def queued_op_def)

text \<open>Changing one operation where it stands.\<close>

lemma inv_put_op:
  assumes "wrapper_inv s" and "ops s n = Some x" and "op_inv y" and "op_lane y = op_lane x"
    and "active (op_point y) \<Longrightarrow> \<exists>bs. lane_queue s (op_lane x) = Operation n # bs"
    and "(\<exists>a. op_point y = Resumed a) \<longleftrightarrow> (\<exists>a. op_point x = Resumed a)"
    and "op_point y = Executing \<Longrightarrow> op_point x = Executing \<or> storage s \<and> (op_lane x = Events \<longrightarrow> phase s = Open)"
    and "op_point y = Holding \<Longrightarrow> op_point x = Holding \<or> storage s"
  shows "wrapper_inv (put_op n y s)"
proof -
  note D = wrapper_invD [OF assms(1)]
  have queued: "queued_op (put_op n y s) l m \<longleftrightarrow> queued_op s l m" for l m
    using assms(2,4,6) by (cases "m = n") (auto simp: queued_op_def put_op_def)
  have other: "ops (put_op n y s) m = (if m = n then Some y else ops s m)" "lane_queue (put_op n y s) = lane_queue s"
      "phase (put_op n y s) = phase s" "storage (put_op n y s) = storage s" "destroys (put_op n y s) = destroys s"
      "reader_closed (put_op n y s) = reader_closed s" for m
    by (simp_all add: put_op_def)
  show ?thesis
  proof (rule wrapper_invI, unfold other queued)
    fix m z assume z: "(if m = n then Some y else ops s m) = Some z"
    show "op_inv z" using z assms(3) D(1) by (cases "m = n") auto
    show "active (op_point z) \<Longrightarrow> \<exists>bs. lane_queue s (op_lane z) = Operation m # bs"
      using z assms(4,5) D(2) by (cases "m = n") auto
    show "op_lane z = Events \<Longrightarrow> phase s \<in> {Drained, Destroying, Destroyed} \<Longrightarrow> op_point z \<noteq> Executing"
      using z assms(4,7) D(10) [of n x] D(10) [of m z] assms(2) by (cases "m = n") auto
    show "op_lane z = Calls \<Longrightarrow> \<not> storage s \<Longrightarrow> op_point z \<notin> {Holding, Executing}"
      using z assms(4,7,8) D(11) [of n x] D(11) [of m z] assms(2) by (cases "m = n") auto
  qed (rule D; assumption)+
qed

text \<open>Ending the block of an operation.\<close>

lemma inv_end_op:
  assumes "wrapper_inv s" and "ops s n = Some x" and "lane_queue s (op_lane x) = Operation n # bs"
    and "op_inv y" and "op_lane y = op_lane x" and "op_point y = Resumed a"
  shows "wrapper_inv (end_block (op_lane x) (put_op n y s))"
proof -
  note D = wrapper_invD [OF assms(1)]
  let ?t = "end_block (op_lane x) (put_op n y s)"
  have t: "ops ?t m = (if m = n then Some y else ops s m)" "lane_queue ?t l = (if l = op_lane x then bs else lane_queue s l)"
      "phase ?t = phase s" "storage ?t = storage s" "destroys ?t = destroys s" "reader_closed ?t = reader_closed s" for m l
    using assms(3) by (simp_all add: put_op_def end_block_def)
  have gone: "Operation n \<notin> set bs" using D(4) [of "op_lane x"] assms(3) by simp
  have queue: "b \<in> set (lane_queue ?t l) \<longleftrightarrow> b \<in> set (lane_queue s l) \<and> (b \<noteq> Operation n \<or> l \<noteq> op_lane x)" for b l
    using assms(3) gone by (auto simp: t)
  have queued: "queued_op ?t l m \<longleftrightarrow> queued_op s l m \<and> (m \<noteq> n \<or> l \<noteq> op_lane x)" for l m
    using assms(2,5,6) by (auto simp: queued_op_def t)
  show ?thesis
  proof (rule wrapper_invI, unfold queue queued t(1,3-6))
    fix m z assume z: "(if m = n then Some y else ops s m) = Some z"
    show "op_inv z" using z assms(4) D(1) by (cases "m = n") auto
    show "\<exists>bs. lane_queue ?t (op_lane z) = Operation m # bs" if "active (op_point z)"
    proof (cases "m = n")
      case False
      with z that D(2) [of m z] assms(3) show ?thesis by (auto simp: t)
    qed (use z that assms(6) in auto)
    show "op_lane z = Events \<Longrightarrow> phase s \<in> {Drained, Destroying, Destroyed} \<Longrightarrow> op_point z \<noteq> Executing"
      using z assms(6) D(10) [of m z] by (cases "m = n") auto
    show "op_lane z = Calls \<Longrightarrow> \<not> storage s \<Longrightarrow> op_point z \<notin> {Holding, Executing}"
      using z assms(6) D(11) [of m z] by (cases "m = n") auto
  next
    fix l
    show "distinct (lane_queue ?t l)" using D(4) [of l] assms(3) by (auto simp: t)
    show "(Drain \<in> set (lane_queue s l) \<and> (Drain \<noteq> Operation n \<or> l \<noteq> op_lane x)) = (phase s = Draining \<and> l = Events)"
      using D(5) by simp
    show "(Destroy \<in> set (lane_queue s l) \<and> (Destroy \<noteq> Operation n \<or> l \<noteq> op_lane x)) = (phase s = Destroying \<and> l = Calls)"
      using D(6) by simp
    fix m
    show "(Operation m \<in> set (lane_queue s l) \<and> (Operation m \<noteq> Operation n \<or> l \<noteq> op_lane x)) =
        (queued_op s l m \<and> (m \<noteq> n \<or> l \<noteq> op_lane x))" using D(3) by simp
  qed (rule D; assumption)+
qed

lemma inv_irrelevant [simp]: "wrapper_inv (s\<lparr>wakes := k\<rparr>) = wrapper_inv s"
  by (simp add: wrapper_inv_def queued_op_def)

lemma inv_waking [simp]: "wrapper_inv (s\<lparr>waking := k\<rparr>) = wrapper_inv s"
  by (simp add: wrapper_inv_def queued_op_def)

lemma inv_wake [simp]: "wrapper_inv (handle_wake s) = wrapper_inv s"
  by (simp add: handle_wake_def)

lemma inv_close: "wrapper_inv s \<Longrightarrow> wrapper_inv (s\<lparr>reader_closed := True\<rparr>)"
  by (simp add: wrapper_inv_def queued_op_def)

lemma inv_perform:
  assumes inv: "wrapper_inv s" and "ops s n = None"
  shows "wrapper_inv (perform l sem n task_cancelled s)"
proof (cases task_cancelled)
  case False
  note D = wrapper_invD [OF inv]
  let ?x = "\<lparr>op_lane = l, op_semantics = sem, op_cancellation = new_cancellation, op_point = Queued, op_ran = False\<rparr>"
  let ?t = "perform l sem n task_cancelled s"
  have t: "ops ?t m = (if m = n then Some ?x else ops s m)"
      "lane_queue ?t k = (if k = l then lane_queue s k @ [Operation n] else lane_queue s k)"
      "phase ?t = phase s" "storage ?t = storage s" "destroys ?t = destroys s" "reader_closed ?t = reader_closed s" for m k
    using False by (simp_all add: perform_def submit_block_def put_op_def)
  have fresh: "Operation n \<notin> set (lane_queue s k)" for k
    using D(3) [of n k] assms(2) by (simp add: queued_op_def)
  show ?thesis
  proof (rule wrapper_invI, unfold t(1,3-6))
    fix m z assume z: "(if m = n then Some ?x else ops s m) = Some z"
    show "op_inv z" using z D(1) by (cases "m = n") (auto simp: op_inv_def new_cancellation_def)
    show "\<exists>bs. lane_queue ?t (op_lane z) = Operation m # bs" if "active (op_point z)"
      using z that D(2) [of m z] by (cases "m = n") (auto simp: t(2))
    show "op_lane z = Events \<Longrightarrow> phase s \<in> {Drained, Destroying, Destroyed} \<Longrightarrow> op_point z \<noteq> Executing"
      using z D(10) [of m z] by (cases "m = n") auto
    show "op_lane z = Calls \<Longrightarrow> \<not> storage s \<Longrightarrow> op_point z \<notin> {Holding, Executing}"
      using z D(11) [of m z] by (cases "m = n") auto
  next
    fix k
    show "distinct (lane_queue ?t k)" using D(4) [of k] fresh by (auto simp: t(2))
    show "(Drain \<in> set (lane_queue ?t k)) = (phase s = Draining \<and> k = Events)" using D(5) by (simp add: t(2))
    show "(Destroy \<in> set (lane_queue ?t k)) = (phase s = Destroying \<and> k = Calls)" using D(6) by (simp add: t(2))
    fix m
    show "(Operation m \<in> set (lane_queue ?t k)) = queued_op ?t k m"
      using D(3) [of m k] fresh [of k] by (cases "m = n") (auto simp: t(1,2) queued_op_def)
  qed (rule D; assumption)+
qed (use inv in \<open>simp add: perform_def\<close>)

lemma inv_on_cancel:
  assumes inv: "wrapper_inv s"
  shows "wrapper_inv (on_cancel n s)"
proof (cases "ops s n")
  case (Some x)
  let ?y = "x\<lparr>op_cancellation := (op_cancellation x)\<lparr>cancelled := True\<rparr>\<rparr>"
  have "reply_ok ?y a" if "reply_ok x a" for a using that by (cases a) auto
  then have "op_inv ?y" using wrapper_invD(1) [OF inv Some] unfolding op_inv_def by (cases "op_point x") auto
  then have "wrapper_inv (put_op n ?y s)"
    by (rule inv_put_op [OF inv Some]) (use wrapper_invD(2) [OF inv Some] in auto)
  then show ?thesis using Some by (simp add: on_cancel_def cancellation_cancel_def Let_def)
qed (use inv in \<open>simp add: on_cancel_def\<close>)

lemma inv_put_head:
  assumes "wrapper_inv s" and "ops s n = Some x" and "lane_queue s (op_lane x) = Operation n # bs" and "op_inv y"
    and "op_lane y = op_lane x" and "\<forall>a. op_point y \<noteq> Resumed a" and "\<forall>a. op_point x \<noteq> Resumed a"
    and "op_point y = Executing \<longrightarrow> storage s \<and> (op_lane x = Events \<longrightarrow> phase s = Open)" and "op_point y = Holding \<longrightarrow> storage s"
  shows "wrapper_inv (put_op n y s)"
  by (rule inv_put_op [OF assms(1,2,4,5)]) (use assms in auto)

lemma inv_begin_block:
  assumes inv: "wrapper_inv s" and x: "ops s n = Some x" and head: "lane_queue s (op_lane x) = Operation n # bs"
    and Queued: "op_point x = Queued" and run: "run_block (op_lane x) n x r s = Some s'"
  shows "wrapper_inv s'"
proof (cases "cancelled (op_cancellation x)")
  case True
  with Queued run have s': "s' = end_block (op_lane x) (put_op n (x\<lparr>op_point := Resumed Cancellation_error\<rparr>) s)"
    by (simp add: run_block_def cancellation_begin_def)
  show ?thesis
    unfolding s' by (rule inv_end_op [OF inv x head]) (use wrapper_invD(1) [OF inv x] Queued True in \<open>auto simp: op_inv_def\<close>)
next
  case False
  with Queued run have s': "s' = put_op n (x\<lparr>op_cancellation := (op_cancellation x)\<lparr>running := True\<rparr>, op_point := Begun\<rparr>) s"
    by (simp add: run_block_def cancellation_begin_def)
  show ?thesis
    unfolding s' by (rule inv_put_head [OF inv x head]) (use wrapper_invD(1) [OF inv x] Queued in \<open>auto simp: op_inv_def\<close>)
qed

lemma inv_run_block:
  assumes inv: "wrapper_inv s" and x: "ops s n = Some x" and head: "lane_queue s (op_lane x) = Operation n # bs"
    and run: "run_block (op_lane x) n x r s = Some s'"
  shows "wrapper_inv s'"
proof -
  note D = wrapper_invD [OF inv] and put = inv_put_head [OF inv x head]
  have ok: "op_inv x" by (rule D(1) [OF x])
  show ?thesis
  proof (cases "op_point x")
    case Queued
    then show ?thesis by (rule inv_begin_block [OF inv x head _ run])
  next
    case Begun
    with run have s': "s' = put_op n (x\<lparr>op_point := (if storage s then Holding else Replied Shut_down_error)\<rparr>) s"
      by (simp add: run_block_def)
    show ?thesis unfolding s' by (rule put) (use ok Begun in \<open>auto simp: op_inv_def\<close>)
  next
    case Holding
    with run have s': "s' = put_op n (if op_lane x = Events \<and> reader_closed s then x\<lparr>op_point := Executed r\<rparr>
        else x\<lparr>op_point := Executing, op_ran := True\<rparr>) s"
      by (simp add: run_block_def)
    have "op_lane x = Calls \<Longrightarrow> storage s" using D(11) [OF x] Holding by auto
    moreover have "op_lane x = Events \<Longrightarrow> \<not> reader_closed s \<Longrightarrow> phase s = Open" using D(7) by blast
    moreover have "phase s = Open \<Longrightarrow> storage s" using D(8) by simp
    ultimately show ?thesis unfolding s' by (intro put) (use ok Holding in \<open>auto simp: op_inv_def intro: lane.exhaust\<close>)
  next
    case Executing
    with run have s': "s' = put_op n (x\<lparr>op_point := Executed r\<rparr>) s" by (simp add: run_block_def)
    show ?thesis unfolding s' by (rule put) (use ok Executing in \<open>auto simp: op_inv_def\<close>)
  next
    case (Executed r')
    with run have s': "s' = put_op n (x\<lparr>op_point := Replied (if op_semantics x = Cancellable \<and> cancelled (op_cancellation x)
            then Cancellation_error else Returned r')\<rparr>) s" by (simp add: run_block_def)
    show ?thesis unfolding s' by (rule put) (use ok Executed in \<open>auto simp: op_inv_def\<close>)
  next
    case (Replied a)
    with run have s': "s' = end_block (op_lane x) (put_op n (x\<lparr>op_cancellation := cancellation_finish (op_cancellation x),
        op_point := Resumed a\<rparr>) s)" by (simp add: run_block_def)
    have "reply_ok (x\<lparr>op_cancellation := cancellation_finish (op_cancellation x), op_point := Resumed a\<rparr>) a"
      using ok Replied by (cases a) (auto simp: op_inv_def cancellation_finish_def)
    then show ?thesis unfolding s' by (intro inv_end_op [OF inv x head]) (simp_all add: op_inv_def cancellation_finish_def)
  qed (use run in \<open>simp add: run_block_def\<close>)
qed

text \<open>When a special block is at the head, no operation of its lane has begun.\<close>

lemma inv_special:
  assumes inv: "wrapper_inv s" and head: "lane_queue s l = b # bs" and b: "b = Drain \<or> b = Destroy"
    and run: "work l r s = Some s'"
  shows "wrapper_inv s'"
proof -
  note D = wrapper_invD [OF inv]
  have idle: "\<not> active (op_point x)" if "ops s n = Some x" "op_lane x = l" for n x
    using D(2) [OF that(1)] head b that(2) by auto
  have rest: "distinct bs" "b \<notin> set bs" using D(4) [of l] head by auto
  let ?p = "if b = Drain then Drained else Destroyed"
  have s': "s' = end_block l ((if b = Drain then s else handle_destroy s)\<lparr>phase := ?p\<rparr>)"
    using run head b by (auto simp: work_def)
  have place: "phase s = (if b = Drain then Draining else Destroying)" "l = (if b = Drain then Events else Calls)"
    using D(5,6) [of l] head b by auto
  then have "storage s" using D(8) by (auto split: if_splits)
  then have t: "ops s' = ops s" "lane_queue s' k = (if k = l then bs else lane_queue s k)" "phase s' = ?p"
      "storage s' = (b = Drain)" "destroys s' = (if b = Drain then 0 else 1)" "reader_closed s' = reader_closed s" for k
    using head D(9) b by (auto simp: s' end_block_def handle_destroy_def)
  have queue: "c \<in> set (lane_queue s' k) \<longleftrightarrow> c \<in> set (lane_queue s k) \<and> (c \<noteq> b \<or> k \<noteq> l)" for c k
    using head rest by (auto simp: t)
  show ?thesis
  proof (rule wrapper_invI, unfold queue t(1,3-6))
    fix n x assume x: "ops s n = Some x"
    show "op_inv x" by (rule D(1) [OF x])
    show "\<exists>bs. lane_queue s' (op_lane x) = Operation n # bs" if "active (op_point x)"
      using D(2) [OF x that] idle [OF x] that by (auto simp: t)
    show "op_point x \<noteq> Executing" if "op_lane x = Events" "?p \<in> {Drained, Destroying, Destroyed}"
      using idle [OF x] D(10) [OF x] place that(1) b by (cases "op_point x") (auto split: if_splits)
    show "op_point x \<notin> {Holding, Executing}" if "op_lane x = Calls" "\<not> b = Drain"
      using idle [OF x] place that by auto
  next
    fix k
    show "distinct (lane_queue s' k)" using D(4) rest by (auto simp: t)
    show "(Drain \<in> set (lane_queue s k) \<and> (Drain \<noteq> b \<or> k \<noteq> l)) = (?p = Draining \<and> k = Events)"
      using D(5) place b by auto
    show "(Destroy \<in> set (lane_queue s k) \<and> (Destroy \<noteq> b \<or> k \<noteq> l)) = (?p = Destroying \<and> k = Calls)"
      using D(6) place b by auto
    fix n
    show "(Operation n \<in> set (lane_queue s k) \<and> (Operation n \<noteq> b \<or> k \<noteq> l)) = queued_op s' k n"
      using D(3) b by (auto simp: queued_op_def t)
  qed (use D(7) place b in auto)
qed

lemma inv_work:
  assumes "wrapper_inv s" and "work l r s = Some s'"
  shows "wrapper_inv s'"
proof (cases "lane_queue s l")
  case Nil
  with assms(2) show ?thesis by (simp add: work_def)
next
  case (Cons b bs)
  show ?thesis
  proof (cases b)
    case (Operation n)
    with Cons wrapper_invD(3) [OF assms(1), of n l] obtain x where x: "ops s n = Some x" "l = op_lane x"
      by (auto simp: queued_op_def)
    have "lane_queue s (op_lane x) = Operation n # bs" "run_block (op_lane x) n x r s = Some s'"
      using Cons Operation assms(2) x by (simp_all add: work_def)
    then show ?thesis by (rule inv_run_block [OF assms(1) x(1)])
  qed (use inv_special [OF assms(1) Cons] assms(2) in auto)
qed

lemma inv_submit_special:
  assumes inv: "wrapper_inv s" and place: "b = Drain \<and> l = Events \<and> phase s = Closed \<and> p = Draining
     \<or> b = Destroy \<and> l = Calls \<and> phase s = Drained \<and> p = Destroying"
  shows "wrapper_inv ((submit_block l b s)\<lparr>phase := p\<rparr>)" (is "wrapper_inv ?t")
proof -
  note D = wrapper_invD [OF inv]
  have t: "ops ?t = ops s" "phase ?t = p" "storage ?t = storage s" "destroys ?t = destroys s" "reader_closed ?t = reader_closed s"
    by (simp_all add: submit_block_def)
  have fresh: "b \<notin> set (lane_queue s k)" for k using place D(5,6) [of k] by auto
  have queue: "c \<in> set (lane_queue ?t k) \<longleftrightarrow> c \<in> set (lane_queue s k) \<or> c = b \<and> k = l" for c k by (auto simp: submit_block_def)
  show ?thesis
  proof (rule wrapper_invI, unfold queue t)
    fix n x assume x: "ops s n = Some x"
    show "op_inv x" by (rule D(1) [OF x])
    show "\<exists>bs. lane_queue ?t (op_lane x) = Operation n # bs" if "active (op_point x)"
      using D(2) [OF x that] by (auto simp: submit_block_def)
    show "op_lane x = Events \<Longrightarrow> p \<in> {Drained, Destroying, Destroyed} \<Longrightarrow> op_point x \<noteq> Executing"
      using D(10) [OF x] place by auto
    show "op_lane x = Calls \<Longrightarrow> \<not> storage s \<Longrightarrow> op_point x \<notin> {Holding, Executing}" by (rule D(11) [OF x])
  next
    fix k
    show "distinct (lane_queue ?t k)" using D(4) [of k] fresh [of k] by (auto simp: submit_block_def)
    show "(Drain \<in> set (lane_queue s k) \<or> Drain = b \<and> k = l) = (p = Draining \<and> k = Events)" using D(5) [of k] place by auto
    show "(Destroy \<in> set (lane_queue s k) \<or> Destroy = b \<and> k = l) = (p = Destroying \<and> k = Calls)" using D(6) [of k] place by auto
    fix n
    show "(Operation n \<in> set (lane_queue s k) \<or> Operation n = b \<and> k = l) = queued_op ?t k n"
      using D(3) [of n k] place by (auto simp: queued_op_def submit_block_def)
  next
    show "p \<noteq> Open \<Longrightarrow> reader_closed s" using D(7) place by auto
    show "storage s = (p \<noteq> Destroyed)" using D(8) place by auto
  qed (rule D(9))
qed

lemma inv_begin_shutdown: "wrapper_inv s \<Longrightarrow> phase s = Open \<Longrightarrow> reader_closed s \<Longrightarrow> wrapper_inv (s\<lparr>phase := Closed\<rparr>)"
  by (simp add: wrapper_inv_def queued_op_def)

lemma reader_close_simps [simp]: "phase (reader_close s) = phase s" "reader_closed (reader_close s)"
  by (simp_all add: reader_close_def handle_wake_def)

lemma inv_reader_close: "wrapper_inv s \<Longrightarrow> wrapper_inv (reader_close s)"
  by (simp add: reader_close_def inv_close)

lemma inv_shutdown:
  assumes inv: "wrapper_inv s" and run: "shutdown s = Some s'"
  shows "wrapper_inv s'"
proof (cases "phase s")
  case Open
  with run inv show ?thesis by (auto simp: shutdown_def intro!: inv_begin_shutdown inv_reader_close)
next
  case Closed
  with run inv_submit_special [OF inv, of Drain Events Draining] show ?thesis by (auto simp: shutdown_def)
next
  case Drained
  moreover have "phase (handle_wake s) = phase s" by (simp add: handle_wake_def)
  ultimately show ?thesis
    using run inv_submit_special [of "handle_wake s" Destroy Calls Destroying] inv by (auto simp: shutdown_def)
qed (use run in \<open>auto simp: shutdown_def\<close>)

lemma wrapper_step_inv: "wrapper_inv s \<Longrightarrow> wrapper_step s t \<Longrightarrow> wrapper_inv t"
  by (erule wrapper_stepE) (auto simp: on_cancel_wake_def intro: inv_perform inv_on_cancel inv_work inv_reader_close inv_shutdown)

interpretation wrapper: inductive_invariant "\<lambda>s. s = new_wrapper" wrapper_step wrapper_inv
  by unfold_locales (simp_all add: inv_new wrapper_step_inv)

lemma wrapper_reachable_inv: "wrapper_reachable s \<Longrightarrow> wrapper_inv s"
  unfolding wrapper_reachable_def using wrapper.reachable_good by blast

end
