(* ===== verification/Executor_Correct.thy ===== *)
theory Executor_Correct
  imports Native_Executor
begin

text \<open>
  What the executor promises its callers: the native session is destroyed once and not used afterwards, a
  committed mutation is never hidden by a cancellation, an operation cancelled in time never runs, and the
  shutdown ends with every caller answered.
\<close>

section \<open>What a step leaves alone\<close>

text \<open>An answered operation stays answered; one cancelled before its block begins never runs.\<close>

definition settled_op :: "'r wrapper \<Rightarrow> nat \<Rightarrow> 'r reply \<Rightarrow> bool \<Rightarrow> bool" where
  "settled_op s n a entered \<longleftrightarrow> (\<exists>x. ops s n = Some x \<and> op_point x = Resumed a \<and> op_ran x = entered)"

definition withdrawn_op :: "'r wrapper \<Rightarrow> nat \<Rightarrow> bool" where
  "withdrawn_op s n \<longleftrightarrow> (\<exists>x. ops s n = Some x \<and> \<not> op_ran x
     \<and> (op_point x = Queued \<and> cancelled (op_cancellation x) \<or> op_point x = Resumed Cancellation_error))"

lemma run_block_ops:
  assumes "run_block l n x r s = Some s'" and "ops s n = Some x"
  shows "m \<noteq> n \<Longrightarrow> ops s' m = ops s m" and "op_point x \<noteq> Resumed a"
    and "op_point x = Queued \<Longrightarrow> cancelled (op_cancellation x) \<Longrightarrow>
      ops s' n = Some (x\<lparr>op_point := Resumed Cancellation_error\<rparr>)"
  using assms by (auto simp: run_block_def cancellation_begin_def end_block_def put_op_def split: point.splits if_splits)

lemma work_ops:
  assumes "work l r s = Some s'"
  shows "ops s' = ops s \<or> (\<exists>n x. ops s n = Some x \<and> run_block l n x r s = Some s')"
  using assms by (auto simp: work_def end_block_def handle_destroy_def split: list.splits block.splits option.splits)

lemma shutdown_ops: "shutdown s = Some s' \<Longrightarrow> ops s' = ops s"
  by (auto simp: shutdown_def submit_block_def reader_close_def handle_wake_def split: shutdown_phase.splits)

lemma on_cancel_ops:
  "ops (on_cancel n s) m = (if m = n then map_option (\<lambda>x. x\<lparr>op_cancellation := (op_cancellation x)\<lparr>cancelled := True\<rparr>\<rparr>) (ops s n)
     else ops s m)"
  by (auto simp: on_cancel_def cancellation_cancel_def put_op_def handle_wake_def Let_def split: option.splits)

lemma perform_ops: "m \<noteq> n \<Longrightarrow> ops (perform l sem n c s) m = ops s m"
  by (simp add: perform_def submit_block_def put_op_def)

lemma step_op_cases:
  assumes "wrapper_step s t" and "ops s n = Some x"
  obtains "ops t n = Some x"
  | "ops t n = Some (x\<lparr>op_cancellation := (op_cancellation x)\<lparr>cancelled := True\<rparr>\<rparr>)"
  | l r where "run_block l n x r s = Some t"
  using assms(1)
proof cases
  case (step_perform m l sem c)
  with assms(2) have "m \<noteq> n" by auto
  with step_perform assms(2) that(1) show ?thesis by (simp add: perform_ops)
next
  case (step_cancel m)
  with assms(2) that(1,2) show ?thesis by (cases "m = n") (simp_all add: on_cancel_ops)
next
  case step_cancel_wake
  with assms(2) that(1) show ?thesis by (simp add: on_cancel_wake_def handle_wake_def split: if_splits)
next
  case (step_work l r)
  from work_ops [OF step_work] show ?thesis
  proof
    assume "ops t = ops s"
    with assms(2) that(1) show ?thesis by simp
  next
    assume "\<exists>m y. ops s m = Some y \<and> run_block l m y r s = Some t"
    then obtain m y where y: "ops s m = Some y" "run_block l m y r s = Some t" by blast
    show ?thesis
    proof (cases "m = n")
      case True
      with y assms(2) that(3) show ?thesis by simp
    next
      case False
      with run_block_ops(1) [OF y(2,1), of n] assms(2) that(1) show ?thesis by simp
    qed
  qed
next
  case step_close
  with assms(2) that(1) show ?thesis by (simp add: reader_close_def handle_wake_def split: if_splits)
next
  case step_down
  with shutdown_ops [OF this] assms(2) that(1) show ?thesis by simp
qed

lemma step_settled:
  assumes "settled_op s n a entered" and "wrapper_step s t"
  shows "settled_op t n a entered"
proof -
  obtain x where x: "ops s n = Some x" "op_point x = Resumed a" "op_ran x = entered"
    using assms(1) by (auto simp: settled_op_def)
  show ?thesis
    by (rule step_op_cases [OF assms(2) x(1)]) (use x run_block_ops(2) [OF _ x(1)] in \<open>auto simp: settled_op_def\<close>)
qed

lemma step_withdrawn:
  assumes "withdrawn_op s n" and "wrapper_step s t"
  shows "withdrawn_op t n"
proof -
  obtain x where x: "ops s n = Some x" "\<not> op_ran x"
      "op_point x = Queued \<and> cancelled (op_cancellation x) \<or> op_point x = Resumed Cancellation_error"
    using assms(1) by (auto simp: withdrawn_op_def)
  show ?thesis
  proof (rule step_op_cases [OF assms(2) x(1)])
    fix l r assume "run_block l n x r s = Some t"
    with run_block_ops(2,3) [OF this x(1)] x(2,3) show ?thesis by (auto simp: withdrawn_op_def)
  qed (use x in \<open>auto simp: withdrawn_op_def\<close>)
qed

section \<open>Progress\<close>

text \<open>The parts a block still has to run.\<close>

fun point_load :: "'r point \<Rightarrow> nat" where
  "point_load Queued = 6"
| "point_load Begun = 5"
| "point_load Holding = 4"
| "point_load Executing = 3"
| "point_load (Executed r) = 2"
| "point_load (Replied a) = 1"
| "point_load (Resumed a) = 0"

fun block_load :: "'r wrapper \<Rightarrow> block \<Rightarrow> nat" where
  "block_load s (Operation n) = (case ops s n of None \<Rightarrow> 0 | Some x \<Rightarrow> point_load (op_point x))"
| "block_load s Drain = 1"
| "block_load s Destroy = 1"

definition lane_load :: "'r wrapper \<Rightarrow> lane \<Rightarrow> nat" where
  "lane_load s l = sum_list (map (block_load s) (lane_queue s l))"

fun phase_left :: "shutdown_phase \<Rightarrow> nat" where
  "phase_left Open = 5"
| "phase_left Closed = 4"
| "phase_left Draining = 3"
| "phase_left Drained = 2"
| "phase_left Destroying = 1"
| "phase_left Destroyed = 0"

definition shutdown_load :: "'r wrapper \<Rightarrow> nat" where
  "shutdown_load s = 2 * phase_left (phase s) + lane_load s Calls + lane_load s Events"

text \<open>The steps of the queues and of the shutdown, without new operations.\<close>

definition own_step :: "'r wrapper \<Rightarrow> 'r wrapper \<Rightarrow> bool" where
  "own_step s t \<longleftrightarrow> (\<exists>l r. work l r s = Some t) \<or> shutdown s = Some t"

lemma own_step_wrapper: "own_step s t \<Longrightarrow> wrapper_step s t"
  unfolding own_step_def by (auto intro: step_work step_down)

lemma block_load_cong: "ops t = ops s \<Longrightarrow> block_load t = block_load s"
  by (rule ext, rename_tac b, case_tac b) simp_all

lemma sum_load_cong:
  "c \<notin> set q \<Longrightarrow> (\<And>b. b \<noteq> c \<Longrightarrow> f b = g b) \<Longrightarrow> sum_list (map f q) = sum_list (map g q)" for f g :: "'b \<Rightarrow> nat"
  by (induction q) auto

lemma run_block_load:
  assumes inv: "wrapper_inv s" and x: "ops s n = Some x" and head: "lane_queue s (op_lane x) = Operation n # bs"
    and run: "run_block (op_lane x) n x r s = Some s'"
  shows "phase s' = phase s" and "lane_load s' (op_lane x) < lane_load s (op_lane x)"
    and "l \<noteq> op_lane x \<Longrightarrow> lane_load s' l = lane_load s l"
proof -
  note D = wrapper_invD [OF inv]
  have others: "block_load s' b = block_load s b" if "b \<noteq> Operation n" for b
    using run_block_ops(1) [OF run x] that by (cases b) auto
  have fresh: "Operation n \<notin> set bs" using D(4) [of "op_lane x"] head by simp
  have tail: "sum_list (map (block_load s') bs) = sum_list (map (block_load s) bs)"
    using fresh others by (rule sum_load_cong)
  obtain y where y: "ops s' n = Some y" "point_load (op_point y) < point_load (op_point x)"
      "lane_queue s' = (if \<exists>a. op_point y = Resumed a then (lane_queue s)(op_lane x := bs) else lane_queue s)" "phase s' = phase s"
    using run head by (cases "op_point x")
      (auto simp: run_block_def cancellation_begin_def end_block_def put_op_def split: if_splits)
  show "phase s' = phase s" by (rule y(4))
  show "lane_load s' (op_lane x) < lane_load s (op_lane x)"
    using y(1-3) x head tail by (auto simp: lane_load_def)
  show "lane_load s' l = lane_load s l" if "l \<noteq> op_lane x"
  proof -
    have "Operation n \<notin> set (lane_queue s l)" using D(3) [of n l] x that by (simp add: queued_op_def)
    with y(3) that sum_load_cong [OF this others] show ?thesis by (auto simp: lane_load_def)
  qed
qed

lemma work_load:
  assumes inv: "wrapper_inv s" and run: "work l r s = Some s'"
  shows "shutdown_load s' < shutdown_load s"
proof -
  note D = wrapper_invD [OF inv]
  obtain b bs where head: "lane_queue s l = b # bs" using run by (cases "lane_queue s l") (auto simp: work_def)
  show ?thesis
  proof (cases b)
    case (Operation n)
    with head D(3) [of n l] obtain x where x: "ops s n = Some x" "l = op_lane x" by (auto simp: queued_op_def)
    have "lane_queue s (op_lane x) = Operation n # bs" "run_block (op_lane x) n x r s = Some s'"
      using head Operation run x by (simp_all add: work_def)
    note load = run_block_load [OF inv x(1) this]
    show ?thesis using load(1,2) load(3) [of Calls] load(3) [of Events] by (cases "op_lane x") (auto simp: shutdown_load_def)
  next
    case Drain
    with head run D(5) [of l] have "s' = end_block Events (s\<lparr>phase := Drained\<rparr>)" "phase s = Draining" "lane_queue s Events = Drain # bs"
      by (auto simp: work_def)
    then show ?thesis
      by (simp add: shutdown_load_def lane_load_def end_block_def block_load_cong [of "s\<lparr>phase := Drained, lane_queue := q\<rparr>" s for q])
  next
    case Destroy
    with head run D(6) [of l] have s': "s' = end_block Calls ((handle_destroy s)\<lparr>phase := Destroyed\<rparr>)" "phase s = Destroying"
        "lane_queue s Calls = Destroy # bs"
      by (auto simp: work_def)
    have "block_load s' = block_load s" by (rule block_load_cong) (simp add: s'(1) end_block_def handle_destroy_def)
    with s' show ?thesis by (simp add: shutdown_load_def lane_load_def end_block_def handle_destroy_def)
  qed
qed

lemma shutdown_step_load:
  assumes "shutdown s = Some s'"
  shows "shutdown_load s' < shutdown_load s"
proof -
  have "block_load s' = block_load s" by (rule block_load_cong [OF shutdown_ops [OF assms]])
  with assms show ?thesis
    by (cases "phase s") (auto simp: shutdown_def shutdown_load_def lane_load_def submit_block_def reader_close_def handle_wake_def)
qed

lemma own_steps_bounded: "wrapper_inv s \<Longrightarrow> (own_step ^^ k) s t \<Longrightarrow> wrapper_inv t \<and> k + shutdown_load t \<le> shutdown_load s"
proof (induction k arbitrary: t)
  case (Suc k)
  then obtain u where u: "(own_step ^^ k) s u" "own_step u t" by auto
  with Suc have inv: "wrapper_inv u" and load: "k + shutdown_load u \<le> shutdown_load s" by auto
  from u(2) inv have "shutdown_load t < shutdown_load u"
    unfolding own_step_def by (auto intro: work_load shutdown_step_load)
  with load wrapper_step_inv [OF inv own_step_wrapper [OF u(2)]] show ?case by simp
qed simp

lemma work_enabled:
  assumes inv: "wrapper_inv s" and "lane_queue s l \<noteq> []"
  shows "\<exists>s'. work l r s = Some s'"
proof -
  obtain b bs where head: "lane_queue s l = b # bs" using assms(2) by (cases "lane_queue s l") auto
  show ?thesis
  proof (cases b)
    case (Operation n)
    with head wrapper_invD(3) [OF inv, of n l] obtain x where "ops s n = Some x" "\<forall>a. op_point x \<noteq> Resumed a"
      by (auto simp: queued_op_def)
    with head Operation show ?thesis
      by (cases "op_point x") (auto simp: work_def run_block_def split: prod.splits)
  qed (use head in \<open>auto simp: work_def\<close>)
qed

lemma own_step_stuck:
  assumes inv: "wrapper_inv s" and stuck: "\<And>t. \<not> own_step s t"
  shows "phase s = Destroyed" and "lane_queue s l = []"
proof -
  have empty: "lane_queue s l = []" for l using work_enabled [OF inv] stuck unfolding own_step_def by blast
  then show "lane_queue s l = []" .
  have "shutdown s = None" using stuck unfolding own_step_def by (cases "shutdown s") auto
  moreover have "phase s \<noteq> Draining" "phase s \<noteq> Destroying"
    using wrapper_invD(5) [OF inv, of Events] wrapper_invD(6) [OF inv, of Calls] empty by auto
  ultimately show "phase s = Destroyed" by (cases "phase s") (auto simp: shutdown_def)
qed

section \<open>Properties\<close>

text \<open>
  C10: The native session is destroyed at most once and never used afterwards. In every interleaving of calls,
  cancellations, event reads and the shutdown, once the handle has given up its pointer no operation of either
  lane is inside a native call: the shutdown drains the lane of the reader before it destroys the session, and the
  destruction runs in the lane of the calls.
\<close>

theorem native_session_not_used_after_destroy:
  assumes "wrapper_reachable s"
  shows "destroys s = (if storage s then 0 else 1)
    \<and> (\<not> storage s \<longrightarrow> (\<forall>n x. ops s n = Some x \<longrightarrow> op_point x \<noteq> Executing))"
proof -
  note inv = wrapper_reachable_inv [OF assms]
  have "op_point x \<noteq> Executing" if "\<not> storage s" "ops s n = Some x" for n x
    using that wrapper_invD(8) [OF inv] wrapper_invD(10,11) [OF inv that(2)] by (cases "op_lane x") auto
  then show ?thesis using wrapper_invD(9) [OF inv] by blast
qed

text \<open>
  C13: Cancellation cannot hide a committed mutation, and every caller gets one answer. When an operation has been
  answered, a mutation whose native call was entered has been answered with the outcome of that call, a
  cancellation error means that the task was cancelled, and a shutdown error that nothing was executed; and the
  answer stays the one it was whatever happens later.
\<close>

theorem committed_outcome_delivered:
  assumes "wrapper_reachable s" and "ops s n = Some x" and "op_point x = Resumed a" and "wrapper_step\<^sup>*\<^sup>* s t"
  shows "(op_ran x \<and> op_semantics x = Mutation \<longrightarrow> (\<exists>r. a = Returned r))
    \<and> (a = Cancellation_error \<longrightarrow> cancelled (op_cancellation x)) \<and> (a = Shut_down_error \<longrightarrow> \<not> op_ran x)
    \<and> (\<exists>y. ops t n = Some y \<and> op_point y = Resumed a \<and> op_ran y = op_ran x)"
proof -
  have "op_inv x" by (rule wrapper_invD(1) [OF wrapper_reachable_inv [OF assms(1)] assms(2)])
  with assms(3) have ok: "reply_ok x a" by (simp add: op_inv_def)
  have "settled_op t n a (op_ran x)"
    using assms(4) by (induction rule: rtranclp_induct) (use assms(2,3) in \<open>auto simp: settled_op_def intro: step_settled [unfolded settled_op_def]\<close>)
  with ok show ?thesis by (cases a) (auto simp: settled_op_def)
qed

text \<open>
  C22: An operation cancelled before its block begins never reaches the native session: from then on it is still
  queued or was answered with the cancellation error, and its native call is never entered.
\<close>

theorem cancelled_before_start_never_runs:
  assumes "wrapper_reachable s" and "ops s n = Some x" and "op_point x = Queued" and "cancelled (op_cancellation x)"
    and "wrapper_step\<^sup>*\<^sup>* s t"
  shows "\<exists>y. ops t n = Some y \<and> \<not> op_ran y \<and> (op_point y = Queued \<or> op_point y = Resumed Cancellation_error)"
proof -
  have "op_inv x" by (rule wrapper_invD(1) [OF wrapper_reachable_inv [OF assms(1)] assms(2)])
  with assms(2-4) have "withdrawn_op s n" by (simp add: withdrawn_op_def op_inv_def)
  with assms(5) have "withdrawn_op t n" by (induction rule: rtranclp_induct) (auto intro: step_withdrawn)
  then show ?thesis by (auto simp: withdrawn_op_def)
qed

text \<open>
  C14: The shutdown terminates and leaves nobody waiting. From every reachable state the queues and the shutdown can
  take only finitely many steps, at most \<open>shutdown_load\<close>, as long as native calls return and nothing new is
  submitted; and where they can take none, the session is destroyed, exactly once, and every operation ever
  submitted has been answered.
\<close>

theorem shutdown_terminates:
  assumes "wrapper_reachable s" and "(own_step ^^ k) s t"
  shows "k \<le> shutdown_load s \<and> ((\<nexists>u. own_step t u) \<longrightarrow>
     phase t = Destroyed \<and> \<not> storage t \<and> destroys t = 1 \<and> (\<forall>n y. ops t n = Some y \<longrightarrow> (\<exists>a. op_point y = Resumed a)))"
proof -
  from own_steps_bounded [OF wrapper_reachable_inv [OF assms(1)] assms(2)]
  have inv: "wrapper_inv t" and bound: "k \<le> shutdown_load s" by auto
  have "phase t = Destroyed \<and> \<not> storage t \<and> destroys t = 1 \<and> (\<forall>n y. ops t n = Some y \<longrightarrow> (\<exists>a. op_point y = Resumed a))"
    if stuck: "\<nexists>u. own_step t u"
  proof -
    have phase: "phase t = Destroyed" and empty: "lane_queue t l = []" for l using own_step_stuck [OF inv] stuck by blast+
    have "\<exists>a. op_point y = Resumed a" if "ops t n = Some y" for n y
      using wrapper_invD(3) [OF inv, of n "op_lane y"] that empty by (auto simp: queued_op_def)
    with phase show ?thesis using wrapper_invD(8,9) [OF inv] by simp
  qed
  with bound show ?thesis by blast
qed

section \<open>Witnesses\<close>

text \<open>Running a lane for some steps, and the shutdown for one.\<close>

primrec works :: "nat \<Rightarrow> lane \<Rightarrow> 'r \<Rightarrow> 'r wrapper \<Rightarrow> 'r wrapper" where
  "works 0 l r s = s"
| "works (Suc k) l r s = (case work l r s of None \<Rightarrow> s | Some t \<Rightarrow> works k l r t)"

definition shut :: "'r wrapper \<Rightarrow> 'r wrapper" where
  "shut s = (case shutdown s of None \<Rightarrow> s | Some t \<Rightarrow> t)"

lemma wrapper_reach: "wrapper_reachable s \<Longrightarrow> wrapper_step s t \<Longrightarrow> wrapper_reachable t"
  unfolding wrapper_reachable_def by (rule rtranclp.rtrancl_into_rtrancl)

lemma reachable_new: "wrapper_reachable new_wrapper"
  by (simp add: wrapper_reachable_def)

lemma works_steps: "wrapper_step\<^sup>*\<^sup>* s (works k l r s)"
  by (induction k arbitrary: s) (auto split: option.splits intro: converse_rtranclp_into_rtranclp step_work)

lemma reachable_works: "wrapper_reachable s \<Longrightarrow> wrapper_reachable (works k l r s)"
  unfolding wrapper_reachable_def by (rule rtranclp_trans [OF _ works_steps])

lemma reachable_shut: "wrapper_reachable s \<Longrightarrow> wrapper_reachable (shut s)"
  by (auto simp: shut_def split: option.splits intro: wrapper_reach step_down)

definition sample_submitted :: "nat wrapper" where
  "sample_submitted = perform Calls Mutation 0 False new_wrapper"

text \<open>A mutation that is cancelled while it executes, then the shutdown.\<close>

definition sample_answered :: "nat wrapper" where
  "sample_answered = works 3 Calls 7 (on_cancel 0 (works 3 Calls 7 sample_submitted))"

definition sample_down :: "nat wrapper" where
  "sample_down = works 1 Calls 0 (shut (works 1 Events 0 (shut (shut sample_answered))))"

lemmas wrapper_eval = sample_submitted_def sample_answered_def sample_down_def perform_def submit_block_def end_block_def
  put_op_def new_wrapper_def work_def run_block_def cancellation_begin_def cancellation_finish_def cancellation_cancel_def
  new_cancellation_def on_cancel_def shut_def shutdown_def reader_close_def handle_wake_def handle_destroy_def numeral_3_eq_3

lemma sample_submitted_reachable: "wrapper_reachable sample_submitted"
  unfolding sample_submitted_def by (rule wrapper_reach [OF reachable_new step_perform]) (simp add: new_wrapper_def)

lemma sample_answered_reachable: "wrapper_reachable sample_answered"
  unfolding sample_answered_def
  by (intro reachable_works wrapper_reach [OF reachable_works [OF sample_submitted_reachable] step_cancel])

lemma sample_down_reachable: "wrapper_reachable sample_down"
  unfolding sample_down_def by (intro reachable_works reachable_shut sample_answered_reachable)

lemma sample_answered_op: "\<exists>x. ops sample_answered 0 = Some x \<and> op_point x = Resumed (Returned 7) \<and> op_ran x
    \<and> op_semantics x = Mutation \<and> cancelled (op_cancellation x)"
  by (simp add: wrapper_eval)

lemma sample_down_storage: "\<not> storage sample_down"
  by (simp add: wrapper_eval)

theorem native_session_not_used_after_destroy_witness: "destroys sample_down = 1"
  using native_session_not_used_after_destroy [OF sample_down_reachable] sample_down_storage by simp

theorem committed_outcome_delivered_witness:
  "\<exists>x r. ops sample_answered 0 = Some x \<and> cancelled (op_cancellation x) \<and> op_point x = Resumed (Returned r)"
proof -
  obtain x where x: "ops sample_answered 0 = Some x" "op_point x = Resumed (Returned 7)" "op_ran x" "op_semantics x = Mutation"
      "cancelled (op_cancellation x)"
    using sample_answered_op by blast
  from committed_outcome_delivered [OF sample_answered_reachable x(1,2) rtranclp.rtrancl_refl] x show ?thesis by blast
qed

theorem cancelled_before_start_never_runs_witness:
  "\<exists>y. ops (works 6 Calls 7 (on_cancel 0 sample_submitted)) 0 = Some y \<and> \<not> op_ran y"
proof -
  let ?s = "on_cancel 0 sample_submitted"
  have reach: "wrapper_reachable ?s" by (rule wrapper_reach [OF sample_submitted_reachable step_cancel])
  obtain x where "ops ?s 0 = Some x" "op_point x = Queued" "cancelled (op_cancellation x)"
    by (simp add: wrapper_eval)
  from cancelled_before_start_never_runs [OF reach this works_steps [of _ 6 Calls 7]] show ?thesis by blast
qed

theorem shutdown_terminates_witness: "phase sample_down = Destroyed \<and> destroys sample_down = 1"
proof -
  have "work l r sample_down = None" for l r by (cases l) (simp_all add: wrapper_eval)
  moreover have "shutdown sample_down = None" by (simp add: wrapper_eval)
  ultimately have "\<nexists>u. own_step sample_down u" by (simp add: own_step_def)
  with shutdown_terminates [OF sample_down_reachable, of 0 sample_down] show ?thesis by simp
qed

end
