(* ===== verification/Event_Reader.thy ===== *)
theory Event_Reader
  imports Session_Calls Native_Executor
begin

text \<open>
  The reader of events in the Swift wrapper (\<open>NativeEventReader.next\<close> in
  \<open>src/Sources/LibtorrentKit/NativeEventReader.swift\<close>) on top of \<open>ltkit_session_next_event\<close>: the operation it
  performs on its lane, and what it makes of the answer. The JSON decoder and the events of the wrapper
  are parameters: \<open>decode\<close> is \<open>JSONDecoder\<close> with \<open>envelope.event()\<close>, \<open>error_event\<close> builds \<open>TorrentEvent.error\<close>.
\<close>

section \<open>The operation\<close>

text \<open>What the operation makes of the code and the buffer of the native call: the event it returns.\<close>

definition read_event ::
  "(string \<Rightarrow> 'ev option) \<Rightarrow> (int \<Rightarrow> string \<Rightarrow> 'ev) \<Rightarrow> int \<Rightarrow> ltkit_buffer option \<Rightarrow> 'ev option" where
  "read_event decode error_event code out =
     (if code = LTKIT_ERROR_TIMED_OUT \<or> code = LTKIT_ERROR_SESSION_SHUT_DOWN then None
      else case (if code = LTKIT_OK then Option.bind out buffer_data else None) of
        None \<Rightarrow> Some (error_event code ''The native event could not be read.'')
      | Some bytes \<Rightarrow> (case decode bytes of
          None \<Rightarrow> Some (error_event LTKIT_ERROR_NATIVE_FAILURE ''The native event could not be decoded.'')
        | Some event \<Rightarrow> Some event))"

text \<open>
  The operation, given \<open>isClosed\<close> when it starts; its result is whether it closed the reader (which wakes the
  session) and the event.
\<close>

definition reader_operation ::
  "('h, 'e) env \<Rightarrow> (('h, 'e) ltkit_session \<Rightarrow> string list) \<Rightarrow> (('h, 'e) ltkit_session \<Rightarrow> ('h, 'e) ltkit_session)
     \<Rightarrow> (string \<Rightarrow> 'ev option) \<Rightarrow> (int \<Rightarrow> string \<Rightarrow> 'ev) \<Rightarrow> bool \<Rightarrow> ('h, 'e, bool \<times> 'ev option) session_prog" where
  "reader_operation E order between decode error_event is_closed =
     (if is_closed then return (False, None)
      else bind (ltkit_session_next_event E order between True 500 True) (\<lambda>(code, out).
        andthen (if code = LTKIT_ERROR_SESSION_SHUT_DOWN then ltkit_session_wake True else return ())
          (return (code = LTKIT_ERROR_SESSION_SHUT_DOWN, read_event decode error_event code out))))"

section \<open>The loop\<close>

text \<open>
  One turn of the loop of \<open>next\<close>, given \<open>isClosed\<close> and \<open>Task.isCancelled\<close> before the operation, its reply, and
  both again after it: whether the turn ends the stream, returns an event or is followed by another one, and
  whether the reader closes.
\<close>

datatype 'ev next_result = End_of_stream | Deliver 'ev | Again

definition next_turn ::
  "bool \<Rightarrow> bool \<Rightarrow> 'ev option reply \<Rightarrow> bool \<Rightarrow> bool \<Rightarrow> 'ev next_result \<times> bool" where
  "next_turn is_closed is_cancelled reply is_closed' is_cancelled' =
     (if is_closed \<or> is_cancelled then (End_of_stream, False)
      else case reply of
        Cancellation_error \<Rightarrow> (End_of_stream, False)
      | Shut_down_error \<Rightarrow> (End_of_stream, True)
      | Returned event \<Rightarrow>
          if is_closed' \<or> is_cancelled' then (End_of_stream, False)
          else case event of None \<Rightarrow> (Again, False) | Some event \<Rightarrow> (Deliver event, False))"

section \<open>Correctness\<close>

text \<open>The state in which the native call looks at the mailbox for the last time.\<close>

definition read_state ::
  "(('h, 'e) ltkit_session \<Rightarrow> ('h, 'e) ltkit_session) \<Rightarrow> string list \<Rightarrow> ('h, 'e) ltkit_session \<Rightarrow> ('h, 'e) ltkit_session" where
  "read_state between ks w = (if mailbox_front ks (events w) = None \<and> \<not> shutting_down w then between w else w)"

lemma next_event_no_event:
  assumes "shutting_down w \<or> mailbox_front ks (events w) = None"
  shows "ltkit_session_next_event E (\<lambda>_. ks) id True 0 True w
    = (Ret (if shutting_down w then LTKIT_ERROR_SESSION_SHUT_DOWN else LTKIT_ERROR_TIMED_OUT, None), w)"
  using assms
  by (auto simp: ltkit_session_next_event_def guarded_with_def wait_for_def event_woken_def prog_defs)

lemma next_event_shutdown_code:
  assumes "\<not> shutting_down w" and "session_inv W w" and "mailbox_front ks (events w) = Some json"
    and "ltkit_session_next_event E (\<lambda>_. ks) id True 0 True w = (Ret (code, out), w')"
  shows "code = LTKIT_OK \<and> out = Some \<lparr>buffer_data = (if json = [] then None else Some json), buffer_size = length json\<rparr>
      \<and> events w' = snd (mailbox_pop ks (events w))
    \<or> code = LTKIT_ERROR_ALLOCATION_LIMIT \<and> events w' = events w"
proof -
  have pop: "fst (mailbox_pop ks (events w)) = Ret ()" using assms(2) by (simp add: session_inv_def pop_outcome)
  obtain copied buffer e where copy: "copy_buffer E json (engine w) = ((copied, buffer), e)" by (metis surj_pair)
  then have "copied \<Longrightarrow> buffer = \<lparr>buffer_data = (if json = [] then None else Some json), buffer_size = length json\<rparr>"
    by (auto simp: copy_buffer_def empty_buffer_def Let_def split: if_splits prod.splits)
  with copy pop assms(1,3,4) show ?thesis
    by (auto simp: ltkit_session_next_event_def guarded_with_def system_call_def mailbox_call_def fail_def set_error_def
        prog_defs code_defs case_prod_beta split: if_splits)
qed

text \<open>What the stream shows for a document: the decoded event, or the error that stands for it.\<close>

definition shown :: "(string \<Rightarrow> 'ev option) \<Rightarrow> (int \<Rightarrow> string \<Rightarrow> 'ev) \<Rightarrow> string \<Rightarrow> 'ev" where
  "shown decode error_event json =
     (if json = [] then error_event LTKIT_OK ''The native event could not be read.''
      else case decode json of
        None \<Rightarrow> error_event LTKIT_ERROR_NATIVE_FAILURE ''The native event could not be decoded.''
      | Some event \<Rightarrow> event)"

lemma operation_accounts:
  assumes "session_inv W (read_state between ks w)"
    and "reader_operation E (\<lambda>_. ks) between decode error_event False w = (Ret (closing, event), w')"
  shows "(closing \<longleftrightarrow> shutting_down (read_state between ks w))
    \<and> ((\<exists>json. mailbox_front ks (events (read_state between ks w)) = Some json \<and> event = Some (shown decode error_event json)
          \<and> events w' = snd (mailbox_pop ks (events (read_state between ks w))) \<and> \<not> closing)
     \<or> events w' = events (read_state between ks w)
       \<and> (event = (if closing \<or> mailbox_front ks (events (read_state between ks w)) = None then None
            else Some (error_event LTKIT_ERROR_ALLOCATION_LIMIT ''The native event could not be read.''))))"
proof -
  let ?w = "read_state between ks w"
  have cut: "ltkit_session_next_event E (\<lambda>_. ks) between True 500 True w = ltkit_session_next_event E (\<lambda>_. ks) id True 0 True ?w"
    unfolding read_state_def by (rule next_event_cut) simp
  obtain code out w1 where call: "ltkit_session_next_event E (\<lambda>_. ks) between True 500 True w = (Ret (code, out), w1)"
    and read: "closing \<longleftrightarrow> code = LTKIT_ERROR_SESSION_SHUT_DOWN" "event = read_event decode error_event code out"
      "events w' = events w1"
    using assms(2) unfolding reader_operation_def
    by (auto simp: ltkit_session_wake_def notify_all_def prog_defs split: prod.splits outcome.splits if_splits)
  note run = call [unfolded cut]
  show ?thesis
  proof (cases "shutting_down ?w \<or> mailbox_front ks (events ?w) = None")
    case True
    with run read next_event_no_event [OF True, of E] show ?thesis
      by (auto simp: read_event_def code_defs split: if_splits)
  next
    case False
    then obtain json where json: "mailbox_front ks (events ?w) = Some json" and up: "\<not> shutting_down ?w" by auto
    from next_event_shutdown_code [OF up assms(1) json run] show ?thesis
    proof
      assume ok: "code = LTKIT_OK \<and> out = Some \<lparr>buffer_data = (if json = [] then None else Some json), buffer_size = length json\<rparr>
        \<and> events w1 = snd (mailbox_pop ks (events ?w))"
      then have "event = Some (shown decode error_event json)" "\<not> closing"
        using read(1,2) by (simp_all add: read_event_def shown_def code_defs split: option.split)
      with ok read(3) json up show ?thesis by simp
    next
      assume "code = LTKIT_ERROR_ALLOCATION_LIMIT \<and> events w1 = events ?w"
      with read json up show ?thesis by (simp add: read_event_def code_defs)
    qed
  qed
qed

text \<open>
  C21: What becomes of the events when they cross the language boundary. A turn of the stream whose operation was run
  either pops the event at the front of the mailbox or leaves the mailbox as it was. A popped event is delivered, decoded
  or replaced by an error when it cannot be decoded, unless the reader was closed or its task cancelled by the time the
  answer came back, or the executor answered with a cancellation: then the stream ends and the event is
  lost. When the mailbox is as it was, the stream ends, reports that there was no memory for the event, or goes
  on because there was nothing to read. The reader closes itself exactly when the session shuts down.
\<close>

theorem event_reader_accounts:
  fixes decode :: "string \<Rightarrow> 'ev option"
  assumes "session_inv W (read_state between ks w)"
    and "reader_operation E (\<lambda>_. ks) between decode error_event False w = (Ret (closing, event), w')"
    and "reply = Returned event \<or> reply = Cancellation_error" and "closing \<longrightarrow> is_closed"
  shows "(closing \<longleftrightarrow> shutting_down (read_state between ks w))
    \<and> (let front = mailbox_front ks (events (read_state between ks w));
           ended = (reply = Cancellation_error \<or> is_closed \<or> is_cancelled);
           turn = fst (next_turn False False reply is_closed is_cancelled)
       in (\<exists>json. front = Some json \<and> events w' = snd (mailbox_pop ks (events (read_state between ks w)))
             \<and> turn = (if ended then End_of_stream else Deliver (shown decode error_event json)))
        \<or> events w' = events (read_state between ks w)
          \<and> turn = (if ended then End_of_stream else if front = None then Again
               else Deliver (error_event LTKIT_ERROR_ALLOCATION_LIMIT ''The native event could not be read.'')))"
proof (cases "reply = Cancellation_error \<or> is_closed \<or> is_cancelled")
  case True
  then have "fst (next_turn False False reply is_closed is_cancelled) = End_of_stream"
    using assms(3) by (auto simp: next_turn_def)
  with True show ?thesis using operation_accounts [OF assms(1,2)] unfolding Let_def by metis
next
  case False
  with assms(3,4) have "reply = Returned event" "\<not> closing" "\<not> is_closed" "\<not> is_cancelled" by auto
  moreover then have "fst (next_turn False False reply is_closed is_cancelled) = (case event of None \<Rightarrow> Again | Some x \<Rightarrow> Deliver x)"
    by (simp add: next_turn_def split: option.split)
  ultimately show ?thesis using operation_accounts [OF assms(1,2)] by (cases event) (simp_all add: Let_def split: if_splits, blast)
qed

lemma sample_read:
  "\<exists>x w'. reader_operation sample_env (\<lambda>_. [''t'']) id Some (\<lambda>_ text. text) False sample_added = (Ret (False, Some x), w')
     \<and> mailbox_front [''t''] (events sample_added) = Some x \<and> x \<noteq> []"
  by (simp add: reader_operation_def read_event_def sample_added_def sample_add_eval ltkit_session_next_event_def
      guarded_with_def mailbox_front_def system_call_def copy_buffer_def metadata_event_def mailbox_pop_def code_defs)

text \<open>The same read, delivered and, cancelled after it, lost.\<close>

theorem event_reader_accounts_witness:
  "\<exists>x w'. reader_operation sample_env (\<lambda>_. [''t'']) id Some (\<lambda>_ text. text) False sample_added = (Ret (False, Some x), w')
     \<and> mailbox_front [''t''] (events sample_added) = Some x \<and> \<not> shutting_down sample_added
     \<and> fst (next_turn False False (Returned (Some x)) False False) = Deliver x
     \<and> fst (next_turn False False (Returned (Some x)) False True) = End_of_stream"
proof -
  have state: "read_state id [''t''] sample_added = sample_added" by (simp add: read_state_def)
  obtain x w' where run: "reader_operation sample_env (\<lambda>_. [''t'']) id Some (\<lambda>_ text. text) False sample_added
      = (Ret (False, Some x), w')" and x: "mailbox_front [''t''] (events sample_added) = Some x" "x \<noteq> []"
    using sample_read by blast
  have "session_inv {} (read_state id [''t''] sample_added)"
    unfolding state by (rule reachable_inv [OF sample_reachable sample_sound])
  from event_reader_accounts [OF this run, of "Returned (Some x)" False False] run x show ?thesis
    by (auto simp: state next_turn_def)
qed

end
