(* ===== verification/Swift_Requests.thy ===== *)
theory Swift_Requests
  imports Session_Machine "HOL-Library.FSet"
begin

text \<open>
  What the Swift wrapper does with the arguments and results of its methods before and after the native call: the
  validation of sources and of file indexes, the preparation of an \<open>add\<close>, and the error values
  (\<open>TorrentSource.swift\<close>, \<open>TorrentError.swift\<close> and \<open>TorrentSession.swift\<close> under \<open>src/Sources/LibtorrentKit\<close>).
  Foundation's URLs are parameters: \<open>valid_magnet\<close> is the test of scheme and query items, \<open>absolute_string\<close> the text of
  a URL. Texts are sequences of code points below 256, and case is ignored for the letters of ASCII.
\<close>

section \<open>Integers\<close>

text \<open>\<open>Int32(exactly:)\<close> and \<open>Int32(clamping:)\<close>.\<close>

definition int32_exactly :: "int \<Rightarrow> int option" where
  "int32_exactly x = (if - (2 ^ 31) \<le> x \<and> x < 2 ^ 31 then Some x else None)"

definition int32_clamping :: "int \<Rightarrow> int" where
  "int32_clamping x = max (- (2 ^ 31)) (min (2 ^ 31 - 1) x)"

section \<open>Sources and requests\<close>

datatype 'url TorrentSource = Magnet 'url | Torrent_data string

datatype ValidatedTorrentSource = Validated_magnet string | Validated_data string

definition validated :: "('url \<Rightarrow> bool) \<Rightarrow> ('url \<Rightarrow> string) \<Rightarrow> 'url TorrentSource \<Rightarrow> ValidatedTorrentSource option" where
  "validated valid_magnet absolute_string source = (case source of
       Magnet url \<Rightarrow> if valid_magnet url then Some (Validated_magnet (absolute_string url)) else None
     | Torrent_data data \<Rightarrow> if data \<noteq> [] \<and> length data \<le> 64 * 1024 * 1024 then Some (Validated_data data) else None)"

datatype TorrentCompletionPolicy = Stop_without_deleting_files | Seed

record TorrentRateLimits =
  downloadBytesPerSecond :: int
  uploadBytesPerSecond :: int

definition rate_limits :: "int \<Rightarrow> int \<Rightarrow> TorrentRateLimits" where
  "rate_limits download upload = \<lparr>downloadBytesPerSecond = max 0 download, uploadBytesPerSecond = max 0 upload\<rparr>"

text \<open>\<open>directory_is_file\<close> is \<open>downloadDirectory.isFileURL\<close>, \<open>directory_path\<close> its path; \<open>torrent_id\<close> is the text of the UUID.\<close>

record 'url TorrentAddRequest =
  torrent_id :: string
  torrent_source :: "'url TorrentSource"
  resumeData :: "string option"
  directory_is_file :: bool
  directory_path :: string
  selectedFileIndexes :: "int fset option"
  primaryFileIndex :: "int option"
  beginsPaused :: bool
  rateLimits :: TorrentRateLimits
  completionPolicy :: TorrentCompletionPolicy

section \<open>From a request to the native arguments\<close>

text \<open>A method throws an error with a code, stops the process at a trapping conversion, or passes its arguments on.\<close>

datatype 'a prepared = Throws int | Traps | Passes 'a

fun native_indexes :: "int list \<Rightarrow> int list option" where
  "native_indexes [] = Some []"
| "native_indexes (x # xs) =
     (if x < 0 then None
      else case int32_exactly x of None \<Rightarrow> None | Some value \<Rightarrow> map_option ((#) value) (native_indexes xs))"

text \<open>An empty buffer may have no address.\<close>

definition buffer_of :: "'a list \<Rightarrow> 'a c_array" where
  "buffer_of xs = (if xs = [] then Null 0 else Array xs)"

definition source_arguments :: "ValidatedTorrentSource \<Rightarrow> int \<times> char c_array" where
  "source_arguments source = (case source of Validated_magnet text \<Rightarrow> (0, buffer_of text) | Validated_data data \<Rightarrow> (1, buffer_of data))"

definition native_add :: "'url TorrentAddRequest \<Rightarrow> ValidatedTorrentSource \<Rightarrow> int list \<Rightarrow> int \<Rightarrow> add_request" where
  "native_add request source selected primary =
     \<lparr>rq_identifier = Some (torrent_id request), rq_source_kind = fst (source_arguments source),
      rq_source = snd (source_arguments source),
      rq_resume = (case resumeData request of None \<Rightarrow> Null 0 | Some data \<Rightarrow> buffer_of data),
      rq_directory = Some (directory_path request), rq_selected = buffer_of selected,
      rq_has_selection = (selectedFileIndexes request \<noteq> None), rq_primary = primary, rq_paused = beginsPaused request,
      rq_download_limit = int32_clamping (downloadBytesPerSecond (rateLimits request)),
      rq_upload_limit = int32_clamping (uploadBytesPerSecond (rateLimits request)),
      rq_policy = (if completionPolicy request = Seed then 1 else 0)\<rparr>"

definition primary_unselected :: "int option \<Rightarrow> int fset option \<Rightarrow> bool" where
  "primary_unselected primary selected = (case (primary, selected) of (Some p, Some S) \<Rightarrow> p |\<notin>| S | _ \<Rightarrow> False)"

text \<open>
  \<open>add\<close> after \<open>ensureRunning\<close> and before its operation is submitted. The arguments of the operation are those of the native
  call, but for the primary index, which is still a 64-bit number.
\<close>

definition submit_add ::
  "('url \<Rightarrow> bool) \<Rightarrow> ('url \<Rightarrow> string) \<Rightarrow> 'url TorrentAddRequest \<Rightarrow> add_request prepared" where
  "submit_add valid_magnet absolute_string request =
     (case validated valid_magnet absolute_string (torrent_source request) of
        None \<Rightarrow> Throws LTKIT_ERROR_INVALID_SOURCE
      | Some source \<Rightarrow>
          if \<not> directory_is_file request then Throws LTKIT_ERROR_INVALID_ARGUMENT
          else case native_indexes (sorted_list_of_fset (case selectedFileIndexes request of None \<Rightarrow> {||} | Some S \<Rightarrow> S)) of
            None \<Rightarrow> Throws LTKIT_ERROR_INVALID_FILE_INDEX
          | Some selected \<Rightarrow>
              if primary_unselected (primaryFileIndex request) (selectedFileIndexes request) then Throws LTKIT_ERROR_INVALID_FILE_INDEX
              else Passes (native_add request source selected (case primaryFileIndex request of None \<Rightarrow> -1 | Some p \<Rightarrow> p)))"

text \<open>When the operation runs: \<open>Int32(x)\<close> stops the process when \<open>x\<close> does not fit.\<close>

definition start_add :: "add_request \<Rightarrow> add_request prepared" where
  "start_add rq = (case int32_exactly (rq_primary rq) of None \<Rightarrow> Traps | Some primary \<Rightarrow> Passes (rq\<lparr>rq_primary := primary\<rparr>))"

text \<open>Both parts, up to the native call.\<close>

definition prepare_add ::
  "('url \<Rightarrow> bool) \<Rightarrow> ('url \<Rightarrow> string) \<Rightarrow> 'url TorrentAddRequest \<Rightarrow> add_request prepared" where
  "prepare_add valid_magnet absolute_string request =
     (case submit_add valid_magnet absolute_string request of Passes rq \<Rightarrow> start_add rq | stop \<Rightarrow> stop)"

lemma start_add_passes: "start_add rq = Passes rq' \<Longrightarrow> rq' = rq"
  by (auto simp: start_add_def int32_exactly_def split: option.splits if_splits)

text \<open>\<open>selectFiles\<close> up to the native call.\<close>

definition prepare_select :: "int fset \<Rightarrow> int option \<Rightarrow> (int c_array \<times> int) prepared" where
  "prepare_select selected primary =
     (case native_indexes (sorted_list_of_fset selected) of
        None \<Rightarrow> Throws LTKIT_ERROR_INVALID_FILE_INDEX
      | Some indexes \<Rightarrow>
          if primary_unselected primary (Some selected) then Throws LTKIT_ERROR_INVALID_FILE_INDEX
          else case int32_exactly (case primary of None \<Rightarrow> -1 | Some p \<Rightarrow> p) of
            None \<Rightarrow> Traps
          | Some p \<Rightarrow> Passes (buffer_of indexes, p))"

section \<open>Errors\<close>

text \<open>\<open>TorrentError.Code(native:)\<close>, by its raw value.\<close>

definition code_native :: "int \<Rightarrow> int" where
  "code_native native = (if native \<in> {1..16} then native else LTKIT_ERROR_UNKNOWN)"

text \<open>\<open>check\<close>: the code of the error it throws.\<close>

definition check_code :: "int \<Rightarrow> int option" where
  "check_code code = (if code = LTKIT_OK then None else Some (code_native code))"

text \<open>The first \<open>n\<close> characters; a carriage return and a line feed are one character.\<close>

fun prefix_characters :: "nat \<Rightarrow> string \<Rightarrow> string" where
  "prefix_characters 0 s = []"
| "prefix_characters n [] = []"
| "prefix_characters (Suc n) (c # d # s) =
     (if c = CHR 0x0D \<and> d = CHR 0x0A then c # d # prefix_characters n s else c # prefix_characters n (d # s))"
| "prefix_characters (Suc n) [c] = [c]"

definition lower_char :: "char \<Rightarrow> char" where
  "lower_char c = (if 65 \<le> (of_char c :: nat) \<and> (of_char c :: nat) \<le> 90 then char_of ((of_char c :: nat) + 32) else c)"

definition begins_with :: "string \<Rightarrow> string \<Rightarrow> bool" where
  "begins_with p s \<longleftrightarrow> length p \<le> length s \<and> take (length p) s = p"

fun contains :: "string \<Rightarrow> string \<Rightarrow> bool" where
  "contains p [] \<longleftrightarrow> p = []"
| "contains p (c # s) \<longleftrightarrow> begins_with p (c # s) \<or> contains p s"

definition contains_insensitive :: "string \<Rightarrow> string \<Rightarrow> bool" where
  "contains_insensitive p s \<longleftrightarrow> contains (map lower_char p) (map lower_char s)"

text \<open>\<open>CharacterSet.controlCharacters\<close>: the categories Cc and Cf, of which the soft hyphen is the only one below 256.\<close>

definition control_char :: "char \<Rightarrow> bool" where
  "control_char c \<longleftrightarrow> (let x = (of_char c :: nat) in x < 32 \<or> (127 \<le> x \<and> x < 160) \<or> x = 173)"

definition sensitive_patterns :: "string list" where
  "sensitive_patterns = [''magnet:?'', ''http://'', ''https://'', ''udp://'', ''peer='', ''passkey='']"

definition redacted :: string where
  "redacted = ''Sensitive diagnostic details were removed.''"

definition sanitize :: "string \<Rightarrow> string" where
  "sanitize input =
     (let limited = prefix_characters 512 input
      in if list_ex (\<lambda>p. contains_insensitive p limited) sensitive_patterns then redacted
         else filter (\<lambda>c. \<not> control_char c \<or> c = CHR 0x0A) limited)"

section \<open>Requests are accepted\<close>

lemma native_indexes_range: "native_indexes xs = (if \<forall>x\<in>set xs. 0 \<le> x \<and> x < 2 ^ 31 then Some xs else None)"
  by (induction xs) (auto simp: int32_exactly_def)

lemma sorted_list_of_fset_members [simp]: "set (sorted_list_of_fset S) = fset S"
  by (simp add: sorted_list_of_fset.rep_eq)

lemma buffer_of_simps [simp]:
  "c_count (buffer_of xs) = length xs" "c_items (buffer_of xs) = xs" "c_null (buffer_of xs) \<longleftrightarrow> xs = []"
  by (simp_all add: buffer_of_def)

lemma native_add_fields [simp]:
  "rq_identifier (native_add request source selected primary) = Some (torrent_id request)"
  "rq_source_kind (native_add request source selected primary) = fst (source_arguments source)"
  "rq_source (native_add request source selected primary) = snd (source_arguments source)"
  "rq_resume (native_add request source selected primary) = (case resumeData request of None \<Rightarrow> Null 0 | Some data \<Rightarrow> buffer_of data)"
  "rq_directory (native_add request source selected primary) = Some (directory_path request)"
  "rq_selected (native_add request source selected primary) = buffer_of selected"
  "rq_primary (native_add request source selected primary) = primary"
  "rq_download_limit (native_add request source selected primary) = int32_clamping (downloadBytesPerSecond (rateLimits request))"
  "rq_upload_limit (native_add request source selected primary) = int32_clamping (uploadBytesPerSecond (rateLimits request))"
  "rq_policy (native_add request source selected primary) = (if completionPolicy request = Seed then 1 else 0)"
  by (simp_all add: native_add_def)

lemma native_add_readable: "resume_readable (native_add request source selected primary)"
  by (simp add: resume_readable_def split: option.splits)

lemma prepare_add_passes:
  assumes "prepare_add valid_magnet absolute_string request = Passes rq"
  obtains source selected primary where "validated valid_magnet absolute_string (torrent_source request) = Some source"
    and "rq = native_add request source selected primary" and "- (2 ^ 31) \<le> primary" "primary < 2 ^ 31"
    and "primary = (case primaryFileIndex request of None \<Rightarrow> -1 | Some p \<Rightarrow> p)"
    and "selected = sorted_list_of_fset (case selectedFileIndexes request of None \<Rightarrow> {||} | Some S \<Rightarrow> S)"
    and "\<forall>k\<in>set selected. 0 \<le> k \<and> k < 2 ^ 31"
  using assms that
  by (auto simp: prepare_add_def submit_add_def start_add_def native_add_def native_indexes_range int32_exactly_def split: option.splits if_splits)

lemma submit_add_request:
  assumes "submit_add valid_magnet absolute_string request = Passes rq"
  shows "rq_identifier rq = Some (torrent_id request)" "resume_readable rq"
  using assms native_add_readable by (auto simp: submit_add_def split: option.splits if_splits)

text \<open>
  C24: Every \<open>add\<close> the wrapper passes on has native arguments of the right form. The source is one of the two kinds and
  within the limit of the bridge, the resume data can be read, the file indexes are distinct, sorted and fit 32
  bits, the rate limits are what was asked for as far as 32 bits go. What is left to the native check is only that the
  magnet link and the resume data are not too long, that at most 100000 files are selected and that the primary
  index is not below -1.
\<close>

theorem add_arguments_well_formed:
  assumes "prepare_add valid_magnet absolute_string request = Passes rq"
    and "torrent_id request \<noteq> []" "length (torrent_id request) \<le> 64"
    and "\<And>url. torrent_source request = Magnet url \<Longrightarrow> absolute_string url \<noteq> []"
  shows "(add_request_invalid True rq \<longleftrightarrow>
        (\<exists>url. torrent_source request = Magnet url \<and> length (absolute_string url) > kMaxSourceBytes)
        \<or> (\<exists>data. resumeData request = Some data \<and> length data > kMaxResumeBytes)
        \<or> (\<exists>S. selectedFileIndexes request = Some S \<and> fcard S > 100000)
        \<or> (\<exists>p. primaryFileIndex request = Some p \<and> p < -1))
    \<and> rq_source_kind rq \<in> {0, 1} \<and> resume_readable rq
    \<and> sorted (c_items (rq_selected rq)) \<and> distinct (c_items (rq_selected rq))
    \<and> (\<forall>k\<in>set (c_items (rq_selected rq)). 0 \<le> k \<and> k < 2 ^ 31)
    \<and> rq_download_limit rq \<le> 2 ^ 31 - 1 \<and> rq_upload_limit rq \<le> 2 ^ 31 - 1"
proof -
  from assms(1) obtain source selected primary
    where source: "validated valid_magnet absolute_string (torrent_source request) = Some source"
      and rq: "rq = native_add request source selected primary"
      and primary: "primary = (case primaryFileIndex request of None \<Rightarrow> -1 | Some p \<Rightarrow> p)"
      and selected: "selected = sorted_list_of_fset (case selectedFileIndexes request of None \<Rightarrow> {||} | Some S \<Rightarrow> S)"
      and range: "\<forall>k\<in>set selected. 0 \<le> k \<and> k < 2 ^ 31"
    by (rule prepare_add_passes)
  have kind: "source_arguments source = (case torrent_source request of Magnet url \<Rightarrow> (0, buffer_of (absolute_string url))
      | Torrent_data data \<Rightarrow> (1, buffer_of data))"
    using source by (auto simp: validated_def source_arguments_def split: TorrentSource.splits if_splits)
  have sizes: "snd (source_arguments source) \<noteq> buffer_of []" "c_count (snd (source_arguments source)) > kMaxSourceBytes \<longleftrightarrow>
      (\<exists>url. torrent_source request = Magnet url \<and> length (absolute_string url) > kMaxSourceBytes)"
    using source kind assms(4)
    by (auto simp: validated_def kMaxSourceBytes_def buffer_of_def split: TorrentSource.splits if_splits)
  have count: "length selected > 100000 \<longleftrightarrow> (\<exists>S. selectedFileIndexes request = Some S \<and> fcard S > 100000)"
    by (simp add: selected fcard.rep_eq sorted_list_of_fset.rep_eq split: option.splits)
  have low: "primary < -1 \<longleftrightarrow> (\<exists>p. primaryFileIndex request = Some p \<and> p < -1)"
    by (simp add: primary split: option.splits)
  have "\<not> c_null (snd (source_arguments source))" "c_count (snd (source_arguments source)) \<noteq> 0"
    using sizes(1) kind by (auto simp: buffer_of_def split: TorrentSource.splits if_splits)
  then have "add_request_invalid True rq \<longleftrightarrow> c_count (snd (source_arguments source)) > kMaxSourceBytes
      \<or> (\<exists>data. resumeData request = Some data \<and> length data > kMaxResumeBytes) \<or> length selected > 100000 \<or> primary < -1"
    using assms(2,3) by (auto simp: add_request_invalid_def rq split: option.splits)
  moreover have "fst (source_arguments source) \<in> {0, 1}" using kind by (simp split: TorrentSource.splits)
  moreover have "sorted selected" "distinct selected" by (simp_all add: selected sorted_list_of_fset.rep_eq)
  ultimately show ?thesis
    unfolding sizes(2) count low using range native_add_readable [of request source selected primary]
    by (simp add: rq int32_clamping_def)
qed

text \<open>
  C40: When its operation runs, an \<open>add\<close> that was not refused stops the process exactly when a primary file outside 32 bits is
  given without a selection; with a selection the primary file is in it and has been checked, and \<open>selectFiles\<close> never
  stops the process.
\<close>

theorem add_traps_iff:
  "(prepare_add valid_magnet absolute_string request = Traps \<longleftrightarrow>
      validated valid_magnet absolute_string (torrent_source request) \<noteq> None \<and> directory_is_file request
      \<and> selectedFileIndexes request = None
      \<and> (\<exists>p. primaryFileIndex request = Some p \<and> (p < - (2 ^ 31) \<or> 2 ^ 31 \<le> p)))
   \<and> prepare_select selected primary \<noteq> Traps"
proof
  show "prepare_select selected primary \<noteq> Traps"
  proof (cases "\<forall>x\<in>fset selected. 0 \<le> x \<and> x < 2 ^ 31")
    case True
    then have "int32_exactly p = Some p" if "p |\<in>| selected" for p using that by (force simp: int32_exactly_def)
    moreover have "int32_exactly (-1) = Some (-1)" by (simp add: int32_exactly_def)
    ultimately show ?thesis by (auto simp: prepare_select_def primary_unselected_def split: option.splits)
  qed (auto simp: prepare_select_def native_indexes_range)
  show "prepare_add valid_magnet absolute_string request = Traps \<longleftrightarrow>
      validated valid_magnet absolute_string (torrent_source request) \<noteq> None \<and> directory_is_file request
      \<and> selectedFileIndexes request = None
      \<and> (\<exists>p. primaryFileIndex request = Some p \<and> (p < - (2 ^ 31) \<or> 2 ^ 31 \<le> p))"
    by (force simp: prepare_add_def submit_add_def start_add_def native_indexes_range primary_unselected_def int32_exactly_def split: option.splits)
qed

section \<open>Errors are reported exactly and without secrets\<close>

lemma check_code_exact: "declared code \<Longrightarrow> check_code code = (if code = LTKIT_OK then None else Some code)"
  by (auto simp: check_code_def code_native_def declared_def code_defs)

lemma prefix_characters_set: "set (prefix_characters n s) \<subseteq> set s"
  by (induction n s rule: prefix_characters.induct) auto

lemma prefix_characters_visible: "length (filter (\<lambda>c. c \<noteq> CHR 0x0D) (prefix_characters n s)) \<le> n"
  by (induction n s rule: prefix_characters.induct) auto

lemma sanitize_length: "length (sanitize s) \<le> 512"
proof -
  let ?p = "prefix_characters 512 s"
  have "length (filter (\<lambda>c. \<not> control_char c \<or> c = CHR 0x0A) ?p) \<le> length (filter (\<lambda>c. c \<noteq> CHR 0x0D) ?p)"
    by (intro length_filter_conv_card [THEN order_eq_refl, THEN order_trans]) (auto simp: length_filter_conv_card control_char_def intro!: card_mono)
  also have "\<dots> \<le> 512" by (rule prefix_characters_visible)
  finally show ?thesis by (simp add: sanitize_def Let_def redacted_def)
qed

text \<open>
  C25: What \<open>sanitize\<close> promises of a diagnostic text. The result has at most 512 characters and no control characters but line
  feeds; a text without other control characters never leaves it with a magnet link, a tracker URL, a peer or a
  passkey. Control characters are removed after the search, though, so that a text with one inside a magnet link
  comes out with the link.
\<close>

theorem sanitize_guarantees:
  "length (sanitize s) \<le> 512
    \<and> (\<forall>c\<in>set (sanitize s). control_char c \<longrightarrow> c = CHR 0x0A)
    \<and> ((\<forall>c\<in>set s. control_char c \<longrightarrow> c = CHR 0x0A) \<longrightarrow> \<not> list_ex (\<lambda>p. contains_insensitive p (sanitize s)) sensitive_patterns)
    \<and> contains_insensitive ''magnet:?'' (sanitize (''mag'' @ CHR 0x01 # ''net:?xt=urn:btih:x''))"
proof (intro conjI impI)
  have clean: "\<not> list_ex (\<lambda>p. contains_insensitive p redacted) sensitive_patterns" "list_all (\<lambda>c. \<not> control_char c) redacted"
    by code_simp+
  show "length (sanitize s) \<le> 512" by (rule sanitize_length)
  show "\<forall>c\<in>set (sanitize s). control_char c \<longrightarrow> c = CHR 0x0A"
    using clean(2) by (auto simp: sanitize_def Let_def list_all_iff)
  show "contains_insensitive ''magnet:?'' (sanitize (''mag'' @ CHR 0x01 # ''net:?xt=urn:btih:x''))" by code_simp
  assume "\<forall>c\<in>set s. control_char c \<longrightarrow> c = CHR 0x0A"
  then have "filter (\<lambda>c. \<not> control_char c \<or> c = CHR 0x0A) (prefix_characters 512 s) = prefix_characters 512 s"
    using prefix_characters_set [of 512 s] by (auto intro!: filter_True)
  then show "\<not> list_ex (\<lambda>p. contains_insensitive p (sanitize s)) sensitive_patterns"
    using clean(1) by (simp add: sanitize_def Let_def)
qed

section \<open>Witnesses\<close>

definition sample_request :: "string TorrentAddRequest" where
  "sample_request = \<lparr>torrent_id = ''t'', torrent_source = Torrent_data ''x'', resumeData = None, directory_is_file = True,
     directory_path = ''/d'', selectedFileIndexes = Some {|0|}, primaryFileIndex = None, beginsPaused = False,
     rateLimits = rate_limits 0 0, completionPolicy = Stop_without_deleting_files\<rparr>"

lemma sample_prepared:
  "prepare_add (\<lambda>_. False) id sample_request = Passes (native_add sample_request (Validated_data ''x'') [0] (-1))"
proof -
  have "sorted_list_of_fset {|0 :: int|} = [0]" by (simp add: sorted_list_of_fset.rep_eq)
  then show ?thesis
    by (simp add: prepare_add_def submit_add_def start_add_def native_add_def sample_request_def validated_def primary_unselected_def int32_exactly_def)
qed

theorem add_arguments_well_formed_witness:
  "\<not> add_request_invalid True (native_add sample_request (Validated_data ''x'') [0] (-1))"
  using add_arguments_well_formed [OF sample_prepared] by (simp add: sample_request_def fcard.rep_eq)

theorem sanitize_guarantees_witness:
  "\<not> list_ex (\<lambda>p. contains_insensitive p (sanitize ''see HTTP://host'')) sensitive_patterns \<and> length (sanitize ''see HTTP://host'') \<le> 512"
proof -
  have "list_all (\<lambda>c. control_char c \<longrightarrow> c = CHR 0x0A) ''see HTTP://host''" by code_simp
  then have "\<forall>c\<in>set ''see HTTP://host''. control_char c \<longrightarrow> c = CHR 0x0A" unfolding list_all_iff .
  with sanitize_guarantees [of "''see HTTP://host''"] show ?thesis by blast
qed

end
