(* ===== verification/Session_Actor.thy ===== *)
theory Session_Actor
  imports Session_Lifecycle Swift_Requests
begin

text \<open>
  What the session actor of the Swift wrapper remembers of its torrents (\<open>identifiers\<close> and \<open>geometry\<close> in
  \<open>src/Sources/LibtorrentKit/TorrentSession.swift\<close>): the list \<open>checkpointAll\<close> works through and the cache of file layouts
  \<open>updateStreamingWindow\<close> checks its arguments with. The methods that change them suspend while the executor runs the
  native call, so other methods of the actor and other threads run between the native call and the update. \<open>'g\<close> is
  the type of the layouts (\<open>TorrentGeometry\<close>), \<open>decode\<close> the JSON decoder of the metadata.
\<close>

section \<open>The actor\<close>

datatype actor_call = Call_add add_request | Call_remove string bool | Call_metadata string

fun call_id :: "actor_call \<Rightarrow> string" where
  "call_id (Call_add rq) = the (rq_identifier rq)"
| "call_id (Call_remove i delete_files) = i"
| "call_id (Call_metadata i) = i"

text \<open>A call is submitted to the executor, or has run and its result waits to be taken up by the actor.\<close>

datatype progress = Submitted | Ran int "ltkit_buffer option"

text \<open>\<open>unlisted\<close> is history, not code: the torrents whose last answered \<open>add\<close> or accepted \<open>remove\<close> was an \<open>add\<close> that failed.\<close>

record 'g actor =
  is_shut_down :: bool
  identifiers :: "string set"
  geometry :: "string \<Rightarrow> 'g option"
  pending :: "nat \<Rightarrow> (actor_call \<times> progress) option"
  unlisted :: "string set"

definition new_actor :: "'g actor" where
  "new_actor = \<lparr>is_shut_down = False, identifiers = {}, geometry = (\<lambda>_. None), pending = (\<lambda>_. None), unlisted = {}\<rparr>"

text \<open>Up to the suspension; after a shutdown \<open>ensureRunning\<close> throws.\<close>

definition actor_submit :: "nat \<Rightarrow> actor_call \<Rightarrow> 'g actor \<Rightarrow> 'g actor" where
  "actor_submit n c a = (if is_shut_down a then a else a\<lparr>pending := (pending a)(n \<mapsto> (c, Submitted))\<rparr>)"

definition actor_add ::
  "('url \<Rightarrow> bool) \<Rightarrow> ('url \<Rightarrow> string) \<Rightarrow> nat \<Rightarrow> 'url TorrentAddRequest \<Rightarrow> 'g actor \<Rightarrow> 'g actor" where
  "actor_add valid_magnet absolute_string n request a = (case submit_add valid_magnet absolute_string request of
       Passes rq \<Rightarrow> actor_submit n (Call_add rq) a
     | _ \<Rightarrow> a)"

text \<open>
  The operation handed to the executor. While the metadata call waits, the lane of the calls is busy and \<open>between\<close> is what the
  other threads do.
\<close>

fun actor_native ::
  "('h, 'e) env \<Rightarrow> (('h, 'e) ltkit_session \<Rightarrow> ('h, 'e) ltkit_session) \<Rightarrow> actor_call
     \<Rightarrow> ('h, 'e, int \<times> ltkit_buffer option) session_prog" where
  "actor_native E between (Call_add rq) = bind (ltkit_session_add E True rq) (\<lambda>code. return (code, None))"
| "actor_native E between (Call_remove i delete_files) =
     bind (ltkit_session_remove E True (Some i) delete_files) (\<lambda>code. return (code, None))"
| "actor_native E between (Call_metadata i) = ltkit_session_metadata E between True (Some i) 30000 True"

text \<open>
  After the suspension: \<open>check\<close> throws on any code but \<open>LTKIT_OK\<close>, \<open>decodeJSON\<close> on an empty or malformed answer, and then
  the list and the layouts stay as they are.
\<close>

definition resume_add :: "string \<Rightarrow> 'g actor \<Rightarrow> 'g actor" where
  "resume_add i a = a\<lparr>identifiers := insert i (identifiers a), unlisted := unlisted a - {i}\<rparr>"

definition resume_remove :: "string \<Rightarrow> 'g actor \<Rightarrow> 'g actor" where
  "resume_remove i a = a\<lparr>identifiers := identifiers a - {i}, geometry := (geometry a)(i := None), unlisted := unlisted a - {i}\<rparr>"

definition resume_metadata :: "(string \<Rightarrow> 'g option) \<Rightarrow> string \<Rightarrow> ltkit_buffer option \<Rightarrow> 'g actor \<Rightarrow> 'g actor" where
  "resume_metadata decode i out a = (case Option.bind (Option.bind out buffer_data) decode of
       None \<Rightarrow> a
     | Some g \<Rightarrow> a\<lparr>geometry := (geometry a)(i \<mapsto> g)\<rparr>)"

definition resume_failed :: "actor_call \<Rightarrow> 'g actor \<Rightarrow> 'g actor" where
  "resume_failed c a = (case c of Call_add rq \<Rightarrow> a\<lparr>unlisted := insert (the (rq_identifier rq)) (unlisted a)\<rparr> | _ \<Rightarrow> a)"

definition actor_resume ::
  "(string \<Rightarrow> 'g option) \<Rightarrow> nat \<Rightarrow> actor_call \<Rightarrow> int \<Rightarrow> ltkit_buffer option \<Rightarrow> 'g actor \<Rightarrow> 'g actor" where
  "actor_resume decode n c code out a =
     (let a = a\<lparr>pending := (pending a)(n := None)\<rparr>
      in if check_code code \<noteq> None then resume_failed c a
         else case c of
           Call_add rq \<Rightarrow> resume_add (the (rq_identifier rq)) a
         | Call_remove i delete_files \<Rightarrow> resume_remove i a
         | Call_metadata i \<Rightarrow> resume_metadata decode i out a)"

lemmas actor_resume_defs = actor_resume_def resume_add_def resume_remove_def resume_metadata_def resume_failed_def Let_def

text \<open>\<open>isShutDown = true\<close>, and later \<open>geometry.removeAll()\<close>.\<close>

definition actor_shut_down :: "'g actor \<Rightarrow> 'g actor" where
  "actor_shut_down a = a\<lparr>is_shut_down := True\<rparr>"

definition actor_forget :: "'g actor \<Rightarrow> 'g actor" where
  "actor_forget a = a\<lparr>geometry := (\<lambda>_. None)\<rparr>"

definition known_identifiers :: "'g actor \<Rightarrow> string set" where
  "known_identifiers a = identifiers a"

section \<open>Interleavings\<close>

text \<open>
  A submitted call can be withdrawn by its cancellation or by the shutdown, and the result of a metadata call can be
  replaced by a cancellation error. An operation whose conversion traps ends the process, so it has no step. Everything else that
  happens to the session neither registers nor forgets a torrent (\<open>other_steps\<close>). Any number of calls can be pending, also
  of one torrent, and their results are taken up in any order.
\<close>

fun request_ok :: "actor_call \<Rightarrow> bool" where
  "request_ok (Call_add rq) \<longleftrightarrow> rq_identifier rq \<noteq> None \<and> resume_readable rq"
| "request_ok _ \<longleftrightarrow> True"

lemma submitted_request_ok: "submit_add valid_magnet absolute_string request = Passes rq \<Longrightarrow> request_ok (Call_add rq)"
  by (simp add: submit_add_request)

fun starts :: "actor_call \<Rightarrow> bool" where
  "starts (Call_add rq) \<longleftrightarrow> start_add rq = Passes rq"
| "starts _ \<longleftrightarrow> True"

definition same_torrents :: "('h, 'e) ltkit_session \<Rightarrow> ('h, 'e) ltkit_session \<Rightarrow> bool" where
  "same_torrents w w' \<longleftrightarrow> (\<forall>k. session_job w k = None \<longleftrightarrow> session_job w' k = None)"

inductive actor_step ::
  "('h, 'e) env \<Rightarrow> (rat \<Rightarrow> rat) \<Rightarrow> (string \<Rightarrow> 'g option) \<Rightarrow> 'g actor \<times> string set \<times> ('h, 'e) ltkit_session
     \<Rightarrow> 'g actor \<times> string set \<times> ('h, 'e) ltkit_session \<Rightarrow> bool"
  for E rnd decode where
  actor_submits: "request_ok c \<Longrightarrow> pending a n = None
    \<Longrightarrow> actor_step E rnd decode (a, W, w) (actor_submit n c a, W, w)"
| actor_withdraws: "pending a n = Some (c, p) \<Longrightarrow> p = Submitted \<or> c = Call_metadata i
    \<Longrightarrow> actor_step E rnd decode (a, W, w) (a\<lparr>pending := (pending a)(n := None)\<rparr>, W, w)"
| actor_runs: "pending a n = Some (c, Submitted) \<Longrightarrow> starts c \<Longrightarrow> (\<And>w. same_torrents w (between w))
    \<Longrightarrow> actor_native E between c w = (Ret (code, out), w')
    \<Longrightarrow> actor_step E rnd decode (a, W, w) (a\<lparr>pending := (pending a)(n \<mapsto> (c, Ran code out))\<rparr>, W, w')"
| actor_resumes: "pending a n = Some (c, Ran code out)
    \<Longrightarrow> actor_step E rnd decode (a, W, w) (actor_resume decode n c code out a, W, w)"
| actor_shuts_down: "actor_step E rnd decode (a, W, w) (actor_shut_down a, W, w)"
| actor_forgets: "is_shut_down a \<Longrightarrow> actor_step E rnd decode (a, W, w) (actor_forget a, W, w)"
| actor_other: "session_step E rnd (W, w) (W', w') \<Longrightarrow> same_torrents w w' \<Longrightarrow> actor_step E rnd decode (a, W, w) (a, W', w')"

inductive_cases actor_stepE: "actor_step E rnd decode (a, W, w) s"

definition actor_reachable ::
  "('h, 'e) env \<Rightarrow> (rat \<Rightarrow> rat) \<Rightarrow> (string \<Rightarrow> 'g option) \<Rightarrow> 'g actor \<Rightarrow> string set \<Rightarrow> ('h, 'e) ltkit_session \<Rightarrow> bool" where
  "actor_reachable E rnd decode a W w \<longleftrightarrow> (\<exists>e. (actor_step E rnd decode)\<^sup>*\<^sup>* (new_actor, {}, new_session e) (a, W, w))"

text \<open>
  The discipline of callers that wait for an \<open>add\<close>, \<open>remove\<close> or \<open>metadata\<close> of a torrent to return before they make the next
  of these calls for the same torrent.
\<close>

fun torrent_of :: "(actor_call \<times> progress) option \<Rightarrow> string option" where
  "torrent_of (Some (c, p)) = Some (call_id c)"
| "torrent_of None = None"

definition serial :: "(nat \<Rightarrow> (actor_call \<times> progress) option) \<Rightarrow> bool" where
  "serial calls \<longleftrightarrow> (\<forall>m n i. torrent_of (calls m) = Some i \<longrightarrow> torrent_of (calls n) = Some i \<longrightarrow> m = n)"

definition serial_step ::
  "('h, 'e) env \<Rightarrow> (rat \<Rightarrow> rat) \<Rightarrow> (string \<Rightarrow> 'g option) \<Rightarrow> 'g actor \<times> string set \<times> ('h, 'e) ltkit_session
     \<Rightarrow> 'g actor \<times> string set \<times> ('h, 'e) ltkit_session \<Rightarrow> bool" where
  "serial_step E rnd decode s t \<longleftrightarrow> actor_step E rnd decode s t \<and> serial (pending (fst t))"

definition serially_reachable ::
  "('h, 'e) env \<Rightarrow> (rat \<Rightarrow> rat) \<Rightarrow> (string \<Rightarrow> 'g option) \<Rightarrow> 'g actor \<Rightarrow> string set \<Rightarrow> ('h, 'e) ltkit_session \<Rightarrow> bool" where
  "serially_reachable E rnd decode a W w \<longleftrightarrow> (\<exists>e. (serial_step E rnd decode)\<^sup>*\<^sup>* (new_actor, {}, new_session e) (a, W, w))"

lemma actor_steps_reachable:
  "actor_reachable E rnd decode a W w \<Longrightarrow> actor_step E rnd decode (a, W, w) (a', W', w') \<Longrightarrow> actor_reachable E rnd decode a' W' w'"
  unfolding actor_reachable_def by (blast intro: rtranclp.rtrancl_into_rtrancl)

lemma serially_reachable_actor: "serially_reachable E rnd decode a W w \<Longrightarrow> actor_reachable E rnd decode a W w"
  unfolding serially_reachable_def actor_reachable_def
  by (metis (no_types, lifting) rtranclp_mono [THEN predicate2D] predicate2I serial_step_def)

section \<open>What the native calls leave behind\<close>

lemma remove_outcome:
  assumes "ltkit_session_remove E True (Some i) delete_files w = (Ret code, w')"
  shows "if code = LTKIT_OK then \<forall>k. session_job w' k = (if k = i then None else session_job w k) else jobs w' = jobs w"
  using assms
  by (auto simp: ltkit_session_remove_def guarded_def find_job_def bind_gets fail_def set_error_def prog_defs engine_call_def
      notify_all_def code_defs delete_conv' split: if_splits prod.splits sum.splits exn.splits outcome.splits option.splits)

text \<open>Programs that neither register nor forget a torrent.\<close>

definition conserves :: "('h, 'e, 'a) session_prog \<Rightarrow> bool" where
  "conserves p \<longleftrightarrow> (\<forall>w. same_torrents w (snd (p w)))"

lemma conserves_frames: "frames p \<Longrightarrow> conserves p"
  by (simp add: conserves_def frames_def same_torrents_def)

lemma conservesD: "conserves p \<Longrightarrow> p w = (r, w') \<Longrightarrow> same_torrents w w'"
  unfolding conserves_def by (metis snd_conv)

lemma same_torrents_trans: "same_torrents u v \<Longrightarrow> same_torrents v w \<Longrightarrow> same_torrents u w"
  by (simp add: same_torrents_def)

lemma conserves_bind: "conserves p \<Longrightarrow> (\<And>x. conserves (f x)) \<Longrightarrow> conserves (bind p f)"
  unfolding conserves_def bind_def
  by (auto split: prod.splits outcome.splits) (metis same_torrents_trans snd_conv)+

lemma conserves_andthen: "conserves p \<Longrightarrow> conserves q \<Longrightarrow> conserves (andthen p q)"
  unfolding andthen_def by (rule conserves_bind)

lemma conserves_if: "conserves p \<Longrightarrow> conserves q \<Longrightarrow> conserves (if b then p else q)"
  by simp

lemma conserves_option: "conserves p \<Longrightarrow> (\<And>x. conserves (f x)) \<Longrightarrow> conserves (case v of None \<Rightarrow> p | Some x \<Rightarrow> f x)"
  by (cases v) simp_all

lemma conserves_request: "(\<And>x. conserves (f x)) \<Longrightarrow> (\<And>g. conserves (h g)) \<Longrightarrow> conserves (case r of Answer x \<Rightarrow> f x | Wait g \<Rightarrow> h g)"
  by (cases r) simp_all

lemma conserves_pair: "(\<And>x y. conserves (f x y)) \<Longrightarrow> conserves (case p of (x, y) \<Rightarrow> f x y)"
  by (cases p) simp

lemma conserves_basic:
  "conserves (engine_call c)" "conserves (return x)" "conserves (fail code msg)" "conserves (fail_with code msg)"
  "conserves (gets f)" "conserves (find_job i)" "conserves (the_job j)" "conserves (system_call s)" "conserves (set_job j f')"
  by (auto simp: conserves_def same_torrents_def engine_call_def fail_def fail_with_def set_error_def find_job_def the_job_def
      system_call_def set_job_def prog_defs crash_def split: prod.splits sum.splits option.splits)

lemma conserves_respond: "conserves (respond E bytes msg)"
  unfolding respond_def by (intro conserves_bind conserves_pair conserves_if conserves_basic)

lemma guarded_jobs: "jobs (snd (guarded_with f p w)) = jobs (snd (p w))"
proof -
  have "jobs (snd (bind (guarded (throw x)) (\<lambda>c. return (f c)) w')) = jobs w'" for x w'
    by (cases x) (simp_all add: guarded_def fail_def set_error_def prog_defs)
  then show ?thesis by (auto simp: guarded_with_def split: prod.splits outcome.splits)
qed

lemma conserves_guarded: "conserves p \<Longrightarrow> conserves (guarded_with f p)"
  by (simp add: conserves_def same_torrents_def guarded_jobs)

lemma conserves_wait: "(\<And>w. same_torrents w (between w)) \<Longrightarrow> conserves (wait_for between ready)"
  by (simp add: conserves_def wait_for_def same_torrents_def)

lemmas conserves_intros = conserves_bind conserves_andthen conserves_if conserves_option conserves_pair conserves_request
  conserves_basic conserves_respond conserves_guarded

lemma conserves_metadata:
  assumes "\<And>w. same_torrents w (between w)"
  shows "conserves (ltkit_session_metadata E between True (Some i) timeout_ms True)"
  unfolding ltkit_session_metadata_def metadata_request_def metadata_resume_def metadata_answer_def metadata_json_def option.case
  by (intro conserves_intros conserves_wait assms)

lemma metadata_needs_torrent:
  assumes "ltkit_session_metadata E between True (Some i) timeout_ms True w = (Ret (LTKIT_OK, out), w')"
  shows "session_job w i \<noteq> None"
proof
  assume "session_job w i = None"
  with assms show False
    by (auto simp: ltkit_session_metadata_def guarded_with_def metadata_request_def find_job_def bind_gets fail_with_def fail_def
        set_error_def prog_defs code_defs split: if_splits)
qed

text \<open>The torrents the session has after a call that succeeded.\<close>

fun leaves_torrent :: "actor_call \<Rightarrow> bool" where
  "leaves_torrent (Call_remove i delete_files) \<longleftrightarrow> False"
| "leaves_torrent _ \<longleftrightarrow> True"

text \<open>An \<open>add\<close> that failed may have registered its torrent all the same.\<close>

fun may_register :: "actor_call \<Rightarrow> bool" where
  "may_register (Call_add rq) \<longleftrightarrow> True"
| "may_register _ \<longleftrightarrow> False"

lemma add_outcome:
  assumes "ltkit_session_add E True rq w = (Ret code, w')" and "rq_identifier rq = Some i"
  shows "code = LTKIT_OK \<Longrightarrow> session_job w' i \<noteq> None" "k \<noteq> i \<Longrightarrow> session_job w' k = session_job w k"
    "session_job w i \<noteq> None \<Longrightarrow> session_job w' i \<noteq> None"
proof -
  assume "code = LTKIT_OK"
  with add_accepted(2) [OF _ assms(2)] assms(1) obtain v where "jobs w' = AList.update i v (jobs w)" by blast
  then show "session_job w' i \<noteq> None" by simp
qed (use add_jobs_at [OF assms(1)] assms(2) in auto)

lemma native_outcome:
  assumes "request_ok c" and "\<And>w. same_torrents w (between w)" and "actor_native E between c w = (Ret (code, out), w')"
  shows "if k = call_id c \<and> code = LTKIT_OK then session_job w' k = None \<longleftrightarrow> \<not> leaves_torrent c
    else if k = call_id c \<and> may_register c then session_job w k \<noteq> None \<longrightarrow> session_job w' k \<noteq> None
    else session_job w' k = None \<longleftrightarrow> session_job w k = None"
proof (cases c)
  case (Call_add rq)
  with assms(1) obtain i where i: "rq_identifier rq = Some i" by auto
  from Call_add assms(3) have run: "ltkit_session_add E True rq w = (Ret code, w')"
    by (auto simp: prog_defs split: prod.splits outcome.splits)
  from add_outcome [OF run i] Call_add i show ?thesis by simp
next
  case (Call_remove i delete_files)
  with assms(3) have "ltkit_session_remove E True (Some i) delete_files w = (Ret code, w')"
    by (auto simp: prog_defs split: prod.splits outcome.splits)
  from remove_outcome [OF this] Call_remove show ?thesis by (auto split: if_splits)
next
  case (Call_metadata i)
  with assms(3) have run: "ltkit_session_metadata E between True (Some i) 30000 True w = (Ret (code, out), w')" by simp
  from conservesD [OF conserves_metadata [OF assms(2)] run] metadata_needs_torrent [of E between i 30000 w out w'] run Call_metadata
  show ?thesis by (auto simp: same_torrents_def)
qed

section \<open>The invariant\<close>

text \<open>The calls of a torrent that have run and whose results wait for the actor, each with whether it succeeded.\<close>

fun result_of :: "(actor_call \<times> progress) option \<Rightarrow> string \<Rightarrow> (actor_call \<times> bool) set" where
  "result_of (Some (c, Ran code out)) i = (if call_id c = i then {(c, code = LTKIT_OK)} else {})"
| "result_of _ i = {}"

definition awaited :: "(nat \<Rightarrow> (actor_call \<times> progress) option) \<Rightarrow> string \<Rightarrow> (actor_call \<times> bool) set" where
  "awaited calls i = (\<Union>n. result_of (calls n) i)"

lemma awaited_update:
  "awaited calls i \<subseteq> awaited (calls(n := x)) i \<union> result_of (calls n) i"
  "awaited (calls(n := x)) i \<subseteq> awaited calls i \<union> result_of x i"
  "result_of x i \<subseteq> awaited (calls(n := x)) i"
  unfolding awaited_def by (auto split: if_splits)

text \<open>At most one call of a torrent is pending, and it was well-formed.\<close>

definition calls_ok :: "(nat \<Rightarrow> (actor_call \<times> progress) option) \<Rightarrow> bool" where
  "calls_ok calls \<longleftrightarrow> serial calls \<and> (\<forall>n c p. calls n = Some (c, p) \<longrightarrow> request_ok c)"

lemma serialD: "serial calls \<Longrightarrow> torrent_of (calls m) = Some i \<Longrightarrow> torrent_of (calls n) = Some i \<Longrightarrow> m = n"
  unfolding serial_def by blast

lemma calls_okD: "calls_ok calls \<Longrightarrow> calls n = Some (c, p) \<Longrightarrow> request_ok c"
  unfolding calls_ok_def by blast

lemma calls_ok_update:
  assumes "calls_ok calls" and "\<And>c p. x = Some (c, p) \<Longrightarrow> request_ok c"
    and "\<And>m i. torrent_of x = Some i \<Longrightarrow> torrent_of (calls m) = Some i \<Longrightarrow> m = n"
  shows "calls_ok (calls(n := x))"
  unfolding calls_ok_def serial_def
proof (intro conjI allI impI)
  fix m k i assume "torrent_of ((calls(n := x)) m) = Some i" "torrent_of ((calls(n := x)) k) = Some i"
  then show "m = k" using assms(1,3) unfolding calls_ok_def serial_def by (cases "m = n"; cases "k = n") auto
next
  fix m c p assume "(calls(n := x)) m = Some (c, p)"
  then show "request_ok c" using assms(2) calls_okD [OF assms(1)] by (cases "m = n") auto
qed

lemma calls_ok_single: "calls_ok calls \<Longrightarrow> calls n = Some (c, p) \<Longrightarrow> torrent_of (calls m) = Some (call_id c) \<Longrightarrow> m = n"
  unfolding calls_ok_def by (metis serialD torrent_of.simps(1))

lemma calls_ok_progress:
  assumes "calls_ok calls" and "calls n = Some (c, p)"
  shows "calls_ok (calls(n \<mapsto> (c, q)))" "calls_ok (calls(n := None))"
proof -
  show "calls_ok (calls(n \<mapsto> (c, q)))"
    using calls_ok_single [OF assms] by (intro calls_ok_update assms(1)) (auto intro: calls_okD [OF assms])
qed (intro calls_ok_update assms(1); simp)

lemma result_of_torrent: "d \<in> result_of x i \<Longrightarrow> torrent_of x = Some i"
  by (cases "(x, i)" rule: result_of.cases) (auto split: if_splits)

lemma awaited_pending:
  assumes "calls_ok calls" and "calls n = Some (c, p)"
  shows "awaited calls (call_id c) = result_of (Some (c, p)) (call_id c)"
  using calls_ok_single [OF assms] result_of_torrent unfolding awaited_def assms(2) [symmetric] by blast

text \<open>
  If the successful result of a call waits, the session has the torrent or not as the call says; if none of an \<open>add\<close> or
  \<open>remove\<close> waits, the list is right, but for the torrents of failed \<open>add\<close>s. A layout is kept only for a torrent the
  session has, or whose removal the actor has not yet taken up.
\<close>

definition torrent_ok :: "'g actor \<Rightarrow> ('h, 'e) ltkit_session \<Rightarrow> string \<Rightarrow> bool" where
  "torrent_ok a w i \<longleftrightarrow>
     (\<forall>c. (c, True) \<in> awaited (pending a) i \<longrightarrow> (session_job w i \<noteq> None \<longleftrightarrow> leaves_torrent c))
   \<and> ((\<forall>c. (c, True) \<in> awaited (pending a) i \<longrightarrow> c = Call_metadata i) \<longrightarrow>
        (i \<in> identifiers a \<longrightarrow> session_job w i \<noteq> None)
      \<and> (session_job w i \<noteq> None \<longrightarrow> i \<in> identifiers a \<or> i \<in> unlisted a \<or> (\<exists>rq. (Call_add rq, False) \<in> awaited (pending a) i)))
   \<and> ((\<forall>c. (c, True) \<in> awaited (pending a) i \<longrightarrow> leaves_torrent c) \<longrightarrow> geometry a i \<noteq> None \<longrightarrow> session_job w i \<noteq> None)"

definition actor_inv :: "'g actor \<Rightarrow> ('h, 'e) ltkit_session \<Rightarrow> bool" where
  "actor_inv a w \<longleftrightarrow> calls_ok (pending a) \<and> (\<forall>i. torrent_ok a w i)"

lemma torrent_ok_awaited:
  assumes "torrent_ok a w i" and "awaited (pending a') i = awaited (pending a) i"
    and "i \<in> identifiers a' \<longleftrightarrow> i \<in> identifiers a" and "i \<in> unlisted a' \<longleftrightarrow> i \<in> unlisted a"
    and "geometry a' i = geometry a i" and "session_job w' i = None \<longleftrightarrow> session_job w i = None"
  shows "torrent_ok a' w' i"
  using assms unfolding torrent_ok_def by simp

lemma awaited_same:
  "result_of x i = {} \<Longrightarrow> result_of (calls n) i = {} \<Longrightarrow> awaited (calls(n := x)) i = awaited calls i"
  using awaited_update [where calls = calls and i = i and n = n and x = x] by blast

lemma awaited_removed:
  assumes "calls_ok calls" and "calls n = Some (c, p)"
  shows "awaited (calls(n := None)) (call_id c) = {}"
  using calls_ok_single [OF assms] result_of_torrent unfolding awaited_def by (auto split: if_splits)

lemma inv_submit:
  assumes inv: "actor_inv a w" and "request_ok c" and free: "pending a n = None" and "serial (pending (actor_submit n c a))"
  shows "actor_inv (actor_submit n c a) w"
proof (cases "is_shut_down a")
  case False
  have "calls_ok ((pending a)(n \<mapsto> (c, Submitted)))"
    using inv assms(2,4) False unfolding actor_inv_def calls_ok_def actor_submit_def by auto
  moreover have "torrent_ok (a\<lparr>pending := (pending a)(n \<mapsto> (c, Submitted))\<rparr>) w i" for i
    by (rule torrent_ok_awaited [of a w i]) (use inv in \<open>simp_all add: actor_inv_def awaited_same free\<close>)
  ultimately show ?thesis using False by (simp add: actor_submit_def actor_inv_def)
qed (use inv in \<open>simp add: actor_submit_def\<close>)

lemma inv_withdraw:
  assumes inv: "actor_inv a w" and c: "pending a n = Some (c, p)" and p: "p = Submitted \<or> c = Call_metadata k"
  shows "actor_inv (a\<lparr>pending := (pending a)(n := None)\<rparr>) w"
proof -
  have ok: "calls_ok (pending a)" using inv by (simp add: actor_inv_def)
  have "torrent_ok (a\<lparr>pending := (pending a)(n := None)\<rparr>) w i" for i
  proof (cases "i = call_id c")
    case True
    have "awaited (pending a) i \<subseteq> {Call_metadata i} \<times> UNIV" using awaited_pending [OF ok c] True p by (cases p) auto
    moreover have "torrent_ok a w i" using inv by (simp add: actor_inv_def)
    ultimately show ?thesis using awaited_removed [OF ok c] True unfolding torrent_ok_def by auto
  next
    case False
    then have "result_of (pending a n) i = {}" using c by (cases p) auto
    with inv show ?thesis by - (rule torrent_ok_awaited [of a w i], simp_all add: actor_inv_def awaited_same)
  qed
  with calls_ok_progress(2) [OF ok c] show ?thesis by (simp add: actor_inv_def)
qed

lemma inv_run:
  assumes inv: "actor_inv a w" and c: "pending a n = Some (c, Submitted)"
    and between: "\<And>w. same_torrents w (between w)" and run: "actor_native E between c w = (Ret (code, out), w')"
  shows "actor_inv (a\<lparr>pending := (pending a)(n \<mapsto> (c, Ran code out))\<rparr>) w'" (is "actor_inv ?a w'")
proof -
  have ok: "calls_ok (pending a)" using inv by (simp add: actor_inv_def)
  note out = native_outcome [OF calls_okD [OF ok c] between run]
  have meta: "c = Call_metadata k \<Longrightarrow> code = LTKIT_OK \<Longrightarrow> session_job w k \<noteq> None" for k
    using run metadata_needs_torrent [of E between k 30000 w out w'] by simp
  have "torrent_ok ?a w' i" for i
  proof (cases "i = call_id c")
    case True
    have "awaited (pending ?a) i = {(c, code = LTKIT_OK)}"
      using awaited_pending [where n = n and c = c and p = "Ran code out", OF calls_ok_progress(1) [OF ok c]] True by simp
    moreover have "torrent_ok a w i" "awaited (pending a) i = {}"
      using inv awaited_pending [OF ok c] True by (simp_all add: actor_inv_def)
    ultimately show ?thesis using out [of i] True meta [of i] unfolding torrent_ok_def by (cases c) (auto split: if_splits)
  next
    case False
    then have "awaited (pending ?a) i = awaited (pending a) i" by (auto simp: awaited_same c)
    moreover have "torrent_ok a w i" using inv by (simp add: actor_inv_def)
    ultimately show ?thesis using out [of i] False by - (rule torrent_ok_awaited [of a w i], auto)
  qed
  with calls_ok_progress(1) [OF ok c] show ?thesis by (simp add: actor_inv_def)
qed

lemma inv_resume:
  assumes inv: "actor_inv a w" and c: "pending a n = Some (c, Ran code out)"
  shows "actor_inv (actor_resume decode n c code out a) w" (is "actor_inv ?a w")
proof -
  have ok: "calls_ok (pending a)" using inv by (simp add: actor_inv_def)
  have pend: "pending ?a = (pending a)(n := None)"
    by (simp add: actor_resume_defs split: actor_call.splits option.splits)
  have "torrent_ok ?a w i" for i
  proof (cases "i = call_id c")
    case True
    then have "awaited (pending a) i = {(c, code = LTKIT_OK)}" using awaited_pending [OF ok c] by simp
    moreover have "awaited (pending ?a) i = {}" using awaited_removed [OF ok c] True pend by simp
    moreover have "torrent_ok a w i" using inv by (simp add: actor_inv_def)
    ultimately show ?thesis
      using True unfolding torrent_ok_def
      by (cases c) (auto simp: actor_resume_defs check_code_def split: option.splits if_splits)
  next
    case False
    then have "awaited (pending ?a) i = awaited (pending a) i" by (auto simp: awaited_same c pend)
    moreover have "i \<in> identifiers ?a \<longleftrightarrow> i \<in> identifiers a" "i \<in> unlisted ?a \<longleftrightarrow> i \<in> unlisted a" "geometry ?a i = geometry a i"
      using False by (cases c; auto simp: actor_resume_defs check_code_def split: option.splits)+
    moreover have "torrent_ok a w i" using inv by (simp add: actor_inv_def)
    ultimately show ?thesis by - (rule torrent_ok_awaited [of a w i], simp_all)
  qed
  with calls_ok_progress(2) [OF ok c] show ?thesis by (simp add: actor_inv_def pend)
qed

lemma inv_same: "actor_inv a w \<Longrightarrow> same_torrents w w' \<Longrightarrow> actor_inv a w'"
  unfolding actor_inv_def same_torrents_def torrent_ok_def by simp

lemma inv_shut_down: "actor_inv a w \<Longrightarrow> actor_inv (actor_shut_down a) w" "actor_inv a w \<Longrightarrow> actor_inv (actor_forget a) w"
  by (simp_all add: actor_inv_def torrent_ok_def actor_shut_down_def actor_forget_def)

lemma serial_step_inv:
  assumes "serial_step E rnd decode (a, W, w) (a', W', w')" and inv: "actor_inv a w"
  shows "actor_inv a' w'"
proof -
  from assms(1) have step: "actor_step E rnd decode (a, W, w) (a', W', w')" and "serial (pending a')"
    by (simp_all add: serial_step_def)
  from step show ?thesis
  proof cases
    case (actor_submits c n)
    then show ?thesis using inv_submit [OF inv] \<open>serial (pending a')\<close> by blast
  next
    case (actor_withdraws n c p i)
    then show ?thesis using inv_withdraw [OF inv] by blast
  next
    case (actor_runs n c between code out)
    then show ?thesis using inv_run [OF inv] by blast
  next
    case (actor_resumes n c code out)
    then show ?thesis using inv_resume [OF inv] by blast
  qed (use inv inv_same inv_shut_down in auto)
qed

interpretation actor: inductive_invariant "\<lambda>s. \<exists>e. s = (new_actor, {}, new_session e)" "serial_step E rnd decode"
    "\<lambda>(a, W, w). actor_inv a w" for E rnd decode
proof
  fix s :: "'a actor \<times> string set \<times> ('b, 'c) ltkit_session" assume "\<exists>e. s = (new_actor, {}, new_session e)"
  then show "case s of (a, W, w) \<Rightarrow> actor_inv a w"
    by (auto simp: actor_inv_def torrent_ok_def calls_ok_def serial_def new_actor_def new_session_def awaited_def)
qed (auto dest: serial_step_inv)

text \<open>The steps of the session that are neither an \<open>add\<close> nor a \<open>remove\<close> are among those of \<open>actor_other\<close>.\<close>

lemma tracks_same:
  assumes "tracks E w w'"
  shows "same_torrents w w'"
  unfolding same_torrents_def
proof
  fix k
  have "rel_option (evolves E) (session_job w k) (session_job w' k)" using assms by (simp add: tracks_def)
  then show "session_job w k = None \<longleftrightarrow> session_job w' k = None" by (cases "session_job w k"; cases "session_job w' k") auto
qed

lemma other_steps:
  assumes "sound_engine E rnd" and "session_inv W w" and "session_step E rnd (W, w) (W', w')"
  shows "same_torrents w w' \<or> (\<exists>c code. changes_list c \<and> run_call E rnd c w = (Ret code, w'))"
  using session_step_tracks [OF assms] tracks_same by blast

section \<open>Properties\<close>

text \<open>
  C15: What the actor remembers agrees with the native session, in every interleaving in which callers wait for the
  \<open>add\<close>, \<open>remove\<close> and \<open>metadata\<close> calls of a torrent one after the other, whatever is cancelled, fails or is shut down in between
  and whatever libtorrent does. A torrent with no such call pending that is on the list is in the session, so \<open>checkpointAll\<close>
  asks for none that is gone; one that is in the session is on the list, so that it is not left out, unless its \<open>add\<close>
  was reported as failed; and no layout outlives its torrent, so a later torrent with the same identifier is not
  judged by the files of an earlier one.
\<close>

theorem actor_knows_torrents:
  assumes "serially_reachable E rnd decode a W w" and "\<And>n c p. pending a n = Some (c, p) \<Longrightarrow> call_id c \<noteq> i"
  shows "(i \<in> known_identifiers a \<longrightarrow> session_job w i \<noteq> None)
    \<and> (session_job w i \<noteq> None \<longrightarrow> i \<in> known_identifiers a \<or> i \<in> unlisted a)
    \<and> (geometry a i \<noteq> None \<longrightarrow> session_job w i \<noteq> None)"
proof -
  from assms(1) obtain e where "(serial_step E rnd decode)\<^sup>*\<^sup>* (new_actor, {}, new_session e) (a, W, w)"
    unfolding serially_reachable_def by blast
  with actor.reachable_good [of "(new_actor, {}, new_session e)" E rnd decode "(a, W, w)"]
  have "torrent_ok a w i" by (auto simp: actor_inv_def)
  moreover have "awaited (pending a) i = {}"
    unfolding awaited_def using assms(2) by (fastforce dest: result_of_torrent elim!: torrent_of.elims)
  ultimately show ?thesis by (auto simp: torrent_ok_def known_identifiers_def)
qed

text \<open>
  C28: Without that discipline a layout can outlive its torrent. When a \<open>metadata\<close> and a \<open>remove\<close> of one torrent are in flight
  together and the actor takes up the result of the \<open>remove\<close> first, the layout is put back after it was cleared: the
  torrent is gone and not listed, but its layout is cached, and it stays so when a torrent is added under the same identifier.
\<close>

theorem late_layout_survives_removal:
  assumes "actor_reachable E rnd decode a W w" and "m \<noteq> n"
    and "pending a m = Some (Call_metadata i, Submitted)" and "pending a n = Some (Call_remove i delete_files, Submitted)"
    and "\<And>w. same_torrents w (between w)" and "actor_native E between (Call_metadata i) w = (Ret (LTKIT_OK, Some out), w1)"
    and "buffer_data out = Some json" and "decode json = Some g"
    and "actor_native E between (Call_remove i delete_files) w1 = (Ret (LTKIT_OK, None), w2)"
  shows "\<exists>a'. actor_reachable E rnd decode a' W w2 \<and> pending a' = (pending a)(m := None, n := None)
    \<and> session_job w2 i = None \<and> i \<notin> known_identifiers a' \<and> geometry a' i = Some g
    \<and> (\<forall>k rq code buffer. geometry (actor_resume decode k (Call_add rq) code buffer a') i = Some g)"
proof -
  let ?a1 = "a\<lparr>pending := (pending a)(m \<mapsto> (Call_metadata i, Ran LTKIT_OK (Some out)))\<rparr>"
  let ?a2 = "?a1\<lparr>pending := (pending ?a1)(n \<mapsto> (Call_remove i delete_files, Ran LTKIT_OK None))\<rparr>"
  let ?a3 = "actor_resume decode n (Call_remove i delete_files) LTKIT_OK None ?a2"
  let ?a4 = "actor_resume decode m (Call_metadata i) LTKIT_OK (Some out) ?a3"
  have "actor_reachable E rnd decode ?a1 W w1"
    by (rule actor_steps_reachable [OF assms(1) actor_runs [OF assms(3) _ assms(5,6)]]) simp
  then have "actor_reachable E rnd decode ?a2 W w2"
    by (rule actor_steps_reachable [OF _ actor_runs [OF _ _ assms(5,9)]]) (use assms(2,4) in simp_all)
  then have "actor_reachable E rnd decode ?a3 W w2"
    by (rule actor_steps_reachable [OF _ actor_resumes]) simp
  then have "actor_reachable E rnd decode ?a4 W w2"
    by (rule actor_steps_reachable [OF _ actor_resumes]) (use assms(2) in \<open>simp add: actor_resume_defs check_code_def\<close>)
  moreover have "ltkit_session_remove E True (Some i) delete_files w1 = (Ret LTKIT_OK, w2)"
    using assms(9) by (auto simp: prog_defs split: prod.splits outcome.splits)
  then have "session_job w2 i = None" using remove_outcome by fastforce
  ultimately show ?thesis
    using assms(2,7,8) by (intro exI [of _ ?a4]) (auto simp: actor_resume_defs check_code_def known_identifiers_def fun_upd_twist)
qed

text \<open>
  C39: An \<open>add\<close> that fails can have added the torrent. When libtorrent answers the first question for the metadata of the new
  torrent and throws at the second, the call reports an error although the torrent is registered and downloads; the
  actor does not put it on its list, so \<open>checkpointAll\<close> leaves it out.
\<close>

theorem failed_add_registers:
  assumes "\<not> add_request_invalid True rq" and "rq_identifier rq = Some i" and "\<not> shutting_down w" and "session_job w i = None"
    and "can_add i (events w)" and "path_rooted (the (rq_directory rq))" and "rq_source_kind rq = 1" and "c_count (rq_resume rq) = 0"
    and "lt_load_torrent_buffer E (c_items (rq_source rq)) (engine w) = (Inr (Some params), e1)"
    and "initial_priorities E rq (desired_of E rq (prepare_params rq params)) (prepare_params rq params) = Some ps"
    and "lt_add_torrent E ((prepare_params rq params)\<lparr>ap_file_priorities := ps\<rparr>) e1 = (Inr (Some h), e2)"
    and "lt_torrent_file E h e2 = (Inr info, e3)" and "lt_torrent_file E h e3 = (Inl x, e4)"
  shows "\<exists>code w'. actor_native E between (Call_add rq) w = (Ret (code, None), w') \<and> code \<noteq> LTKIT_OK \<and> session_job w' i \<noteq> None
     \<and> identifiers (actor_resume decode n (Call_add rq) code None a) = identifiers a"
proof -
  have add: "mailbox_add (asserts E) i (events w) = (Ret (), put_Job i new_Job (events w))"
    using assms(5) by (simp add: mailbox_add_def can_add_def)
  have whole: "ltkit_session_add E True rq w = guarded (add_admitted E i rq) w"
    using assms(1-6) by (simp add: ltkit_session_add_def guarded_def bind_gets Let_def)
  obtain w1 where "add_admitted E i rq w = (Throw x, w1)" "session_job w1 i \<noteq> None"
    using assms(7-13) add
    by (simp add: add_admitted_def parse_source_def add_parsed_def register_torrent_def engine_call_def mailbox_call_def prog_defs
        Let_def)
  with whole obtain code w' where "ltkit_session_add E True rq w = (Ret code, w')" "code \<noteq> LTKIT_OK" "session_job w' i \<noteq> None"
    by (cases x) (auto simp: guarded_def fail_def set_error_def prog_defs code_defs)
  then show ?thesis by (auto simp: prog_defs actor_resume_defs check_code_def)
qed

section \<open>Witnesses\<close>

text \<open>The torrent of \<open>sample_added\<close>, added by the actor.\<close>

definition sample_actor :: "unit actor" where
  "sample_actor = new_actor\<lparr>identifiers := {''t''}\<rparr>"

lemma sample_actor_reachable: "serially_reachable sample_env (\<lambda>x. x) decode sample_actor {} sample_added"
proof -
  let ?step = "serial_step sample_env (\<lambda>x. x) decode" and ?w = "new_session sample_disk"
  let ?a = "actor_submit 0 (Call_add sample_add) (new_actor :: unit actor)"
  let ?b = "?a\<lparr>pending := (pending ?a)(0 \<mapsto> (Call_add sample_add, Ran LTKIT_OK None))\<rparr>"
  have add: "ltkit_session_add sample_env True sample_add ?w = (Ret LTKIT_OK, sample_added)"
    using sample_add_runs by (simp add: sample_added_def prod_eq_iff)
  have "?step (new_actor, {}, ?w) (?a, {}, ?w)"
    unfolding serial_step_def by (intro conjI actor_submits)
      (simp_all add: new_actor_def sample_add_def resume_readable_def actor_submit_def serial_def)
  moreover have "?step (?a, {}, ?w) (?b, {}, sample_added)"
    unfolding serial_step_def by (intro conjI actor_runs [where between = "\<lambda>w. w"])
      (use add in \<open>simp_all add: actor_submit_def new_actor_def same_torrents_def bind_def return_def serial_def start_add_def
        int32_exactly_def sample_add_def\<close>)
  moreover have last: "actor_resume decode 0 (Call_add sample_add) LTKIT_OK None ?b = sample_actor"
    by (simp add: actor_resume_defs check_code_def sample_actor_def actor_submit_def new_actor_def sample_add_def fun_upd_idem)
  have "actor_step sample_env (\<lambda>x. x) decode (?b, {}, sample_added) (sample_actor, {}, sample_added)"
    unfolding last [symmetric] by (rule actor_resumes) simp
  then have "?step (?b, {}, sample_added) (sample_actor, {}, sample_added)"
    by (simp add: serial_step_def serial_def sample_actor_def new_actor_def)
  ultimately show ?thesis
    unfolding serially_reachable_def by (metis (no_types, lifting) rtranclp.rtrancl_into_rtrancl rtranclp.rtrancl_refl)
qed

theorem actor_knows_torrents_witness:
  "''t'' \<in> known_identifiers sample_actor \<and> session_job sample_added ''t'' \<noteq> None"
  using actor_knows_torrents [OF sample_actor_reachable [of "\<lambda>_. None"], of "''t''"]
  by (simp add: sample_actor_def new_actor_def known_identifiers_def)

lemma sample_metadata_call:
  "\<exists>out json w1. actor_native sample_env (\<lambda>w. w) (Call_metadata ''t'') sample_added = (Ret (LTKIT_OK, Some out), w1)
     \<and> buffer_data out = Some json \<and> jobs w1 = jobs sample_added"
proof -
  obtain md where md: "metadata_document sample_env sample_info [4, 0] [5, 0] = Some md" "md \<noteq> []"
    using sample_metadata by blast
  have j: "\<exists>v. session_job sample_added ''t'' = Some v \<and> \<not> stopped v \<and> metadata_ready v \<and> handle v = 1"
    by (simp add: sample_added_def sample_add_eval new_job_def)
  then show ?thesis
    by (auto simp: ltkit_session_metadata_def guarded_with_def metadata_request_def find_job_def bind_gets metadata_answer_def
      metadata_json_def the_job_def engine_call_def respond_def system_call_def copy_buffer_def prog_defs md)
qed

theorem late_layout_survives_removal_witness:
  "\<exists>a' w2. actor_reachable sample_env (\<lambda>x. x) (\<lambda>_. Some ()) a' {} w2 \<and> session_job w2 ''t'' = None
     \<and> ''t'' \<notin> known_identifiers a' \<and> geometry a' ''t'' = Some ()"
proof -
  let ?a = "actor_submit 1 (Call_remove ''t'' False) (actor_submit 0 (Call_metadata ''t'') sample_actor)"
  obtain out json w1 where run: "actor_native sample_env (\<lambda>w. w) (Call_metadata ''t'') sample_added = (Ret (LTKIT_OK, Some out), w1)"
    and json: "buffer_data out = Some json" and w1: "jobs w1 = jobs sample_added"
    using sample_metadata_call by blast
  from w1 sample_added_job obtain w2 where
    remove: "actor_native sample_env (\<lambda>w. w) (Call_remove ''t'' False) w1 = (Ret (LTKIT_OK, None), w2)"
    by (auto simp: ltkit_session_remove_def guarded_def find_job_def bind_gets prog_defs engine_call_def notify_all_def new_checkpoint_def)
  have "actor_reachable sample_env (\<lambda>x. x) (\<lambda>_. Some ()) ?a {} sample_added"
    by (rule actor_steps_reachable [OF actor_steps_reachable [OF serially_reachable_actor [OF sample_actor_reachable]]];
      rule actor_submits) (simp_all add: actor_submit_def sample_actor_def new_actor_def)
  from late_layout_survives_removal [OF this _ _ _ _ run json _ remove, where m = 0 and n = 1] show ?thesis
    by (auto simp: actor_submit_def sample_actor_def new_actor_def same_torrents_def)
qed

text \<open>An engine that loses the torrent between the two questions.\<close>

definition flaky_env :: "(nat, sample_os) env" where
  "flaky_env = sample_env\<lparr>lt_torrent_file := (\<lambda>h e. if os_next e = 3 then (Inr (Some sample_info), e\<lparr>os_next := 4\<rparr>)
     else (Inl Std_Exception, e))\<rparr>"

theorem failed_add_registers_witness:
  "\<exists>code w'. actor_native flaky_env (\<lambda>w. w) (Call_add sample_add) (new_session sample_disk) = (Ret (code, None), w')
     \<and> code \<noteq> LTKIT_OK \<and> session_job w' ''t'' \<noteq> None"
proof -
  have "initial_priorities flaky_env sample_add (desired_of flaky_env sample_add (prepare_params sample_add sample_params))
      (prepare_params sample_add sample_params) = Some [4, 0]" by code_simp
  note run = failed_add_registers [OF sample_add_valid _ _ _ _ _ _ _ _ this, of "''t''" "new_session sample_disk"
      sample_disk 1 sample_disk "Some sample_info" "sample_disk\<lparr>os_next := 4\<rparr>" Std_Exception "sample_disk\<lparr>os_next := 4\<rparr>"
      "\<lambda>w. w" "\<lambda>_. None :: unit option" 0 new_actor]
  have "\<exists>code w'. actor_native flaky_env (\<lambda>w. w) (Call_add sample_add) (new_session sample_disk) = (Ret (code, None), w')
     \<and> code \<noteq> LTKIT_OK \<and> session_job w' ''t'' \<noteq> None
     \<and> identifiers (actor_resume (\<lambda>_. None :: unit option) 0 (Call_add sample_add) code None new_actor) = identifiers (new_actor :: unit actor)"
    by (rule run) (simp_all add: sample_add_def flaky_env_def new_session_def can_add_def empty_mailbox_def max_jobs_def
        path_rooted_def sample_disk_def)
  then show ?thesis by blast
qed

end
