(* ===== verification/Spec2Isabelle.thy ===== *)
theory Spec2Isabelle
  imports Event_Mailbox Disk_Checkpoint Selected_Payload Bridge_Text Checkpoint_Correct Session_Calls Exported_Interface Piece_Completion
    Session_Lifecycle Alert_Thread Executor_Correct Event_Reader Session_Actor
begin

text \<open>
  Verification of the native bridge of LibtorrentKit (\<open>src/Native\<close>) and of the threads of its Swift wrapper that
  call it (\<open>src/Sources/LibtorrentKit\<close>).

  \<^bold>\<open>The program.\<close> LibtorrentKit wraps the BitTorrent library libtorrent for Swift. The bridge is a C
  interface (\<open>include/LibtorrentNative.h\<close>) implemented in \<open>src/LibtorrentNative.cpp\<close>. A session keeps a
  libtorrent engine, one job per torrent and a mailbox of events, all under one recursive mutex. Callers
  enter through the exported functions; one alert thread takes the engine's alerts and drives metadata,
  completion and checkpoints. Three headers hold the parts with their own state: \<open>EventMailbox.hpp\<close> (bounded,
  per-torrent ordered events), \<open>DiskCheckpoint.hpp\<close> (the phases of one checkpoint) and
  \<open>SelectedPayload.hpp\<close> (are the selected files on disk). The Swift wrapper calls the bridge from two serial queues,
  one for the methods of the session actor (\<open>NativeSessionExecutor.swift\<close>) and one for the stream of events
  (\<open>NativeEventReader.swift\<close>), and destroys the session in \<open>TorrentSession.shutdown\<close>.

  \<^bold>\<open>How programs are modelled\<close> (\<open>Prelude\<close>). A C++ function is a function from a state to an outcome and a
  state. An outcome is a returned value, a thrown exception of one of the three classes \<open>guarded\<close>
  distinguishes, or the end of the process by a failed assertion, by \<open>std::terminate\<close> or by undefined
  behaviour (a dangling reference, a write outside a vector, an overflow). Loops are structural recursions, so
  these definitions are total and no fuel is needed; only the endless loop of the alert thread is a partial
  function, whose value is \<open>None\<close> when it does not end. \<open>hoare\<close> triples exclude undefined behaviour and have weakest
  precondition rules (\<open>wp\<close>).

  \<^bold>\<open>What is a parameter.\<close> libtorrent, the POSIX calls, the allocator and \<open>is_regular_file\<close>, \<open>setenv\<close> and
  thread creation are fields of the record \<open>env\<close> or arguments: each call takes the state of the outside world
  and may return anything, throw anything and change that state. Hypotheses on them are named: \<open>lawful\<close>
  (file layouts name pieces of the torrent, and piece counts fit an \<open>int\<close> with room for seven more),
  \<open>laid_out\<close> (the pieces of a file are where its bytes are, and sizes fit their types), \<open>posix_laws\<close> and \<open>rounding\<close>
  (\<open>long double\<close> rounds monotonically and is exact on small integers). \<open>Sample_Engine\<close> is a concrete engine that satisfies them; the
  witnesses run on it. The iteration order of an \<open>unordered_map\<close> is an argument.

  \<^bold>\<open>The theories.\<close>
  \<^item> \<open>Event_Channel\<close>: the contract of an event channel as a locale, with its lemmas.
  \<^item> \<open>Event_Mailbox\<close>: \<open>EventMailbox.hpp\<close>, every operation; its invariant and capacity, the one-shot
    lifecycle events, draining, and the interpretation of the channel locale, which gives FIFO order per torrent.
  \<^item> \<open>Disk_Checkpoint\<close>: \<open>DiskCheckpoint.hpp\<close>; the order of the two replies and exclusiveness.
  \<^item> \<open>Selected_Payload\<close>: \<open>SelectedPayload.hpp\<close>; soundness and completeness of the check on disk.
  \<^item> \<open>Bridge_Text\<close>: \<open>json_escape\<close>, \<open>safe_relative_path\<close>, \<open>status_json\<close> and the event payloads; what a
    JSON reader gets back, and containment of paths.
  \<^item> \<open>Session_State\<close>, \<open>Completion\<close>, \<open>Session_API\<close>: the session's records, its internal functions and the
    alert thread, and the exported functions, in the order of the source.
  \<^item> \<open>Session_Invariant\<close>: the invariant of a session and triples about one job (\<open>job_triple\<close>, with the rules
    \<open>job_wp\<close>), which also say that the other torrents stay as they are.
  \<^item> \<open>Selection\<close>: what \<open>apply_selection\<close> computes. \<open>Completion_Correct\<close>: the alert thread keeps the invariant,
    and what the end of a completion can lead to. \<open>API_Correct\<close>: every exported function keeps the invariant.
  \<^item> \<open>Streaming\<close>: \<open>ltkit_session_update_streaming_window\<close>: the window covers the buffers, deadlines are ordered
    and fit. \<open>PieceWindowPlan.make\<close> of the Swift wrapper computes the same window; \<open>Session_Calls\<close> compares it with the call.
  \<^item> \<open>Session_Machine\<close>: callers and alert thread together, as a step relation whose steps are the critical
    sections of the mutex; the locale of inductive invariants is interpreted on it. Every reachable session is
    consistent, and every critical section returns a declared code.
  \<^item> \<open>Exported_Interface\<close>: the exported functions with all the arguments a C caller can pass, null pointers included, and
    with their waits; each returns a declared code and leaves a reachable session.
  \<^item> \<open>Checkpoint_Correct\<close>, \<open>Session_Calls\<close>, \<open>Piece_Completion\<close>: checkpoints from the caller's side; add, select,
    remove and event delivery branch by branch; the completion bitset and its Swift reader.
  \<^item> \<open>Job_Lifecycle\<close>, \<open>Session_Lifecycle\<close>: the abstract life cycle of a torrent (downloading, waiting for a caller's
    checkpoint, first and second disk fence, halted, published) and the proof that the session refines it: every
    step of the machine follows its arrows. Hence a publication is final, is made only with the files on
    disk, and the stage changes at most four times.
  \<^item> \<open>Alert_Thread\<close>: the loop of the alert thread; it ends after a shutdown.
  \<^item> \<open>Native_Executor\<close>, \<open>Executor_Correct\<close>: the Swift queues, the cancellation of operations, the native handle and the
    shutdown, as a step relation cut at the locks and around the native call. The session is destroyed once and not
    used afterwards, committed outcomes are delivered, cancelled operations do not run, the shutdown ends.
  \<^item> \<open>Event_Reader\<close>: one read of the event stream on top of \<open>ltkit_session_next_event\<close>; what becomes of
    the event at the front of the mailbox, and when it is lost.
  \<^item> \<open>Swift_Requests\<close>: what the wrapper does with requests and results around the native call: sources, file indexes,
    the arguments of \<open>add\<close> and \<open>selectFiles\<close>, error codes, the sanitizing of texts. Accepted requests have well-formed
    native arguments; when \<open>add\<close> stops the process; what sanitized texts do not contain.
  \<^item> \<open>Session_Actor\<close>: the list of torrents and the cache of layouts of the session actor, whose methods suspend around the
    native call. With one call at a time per torrent both agree with the native session in every interleaving, but for
    torrents whose \<open>add\<close> was reported as failed; without this discipline a layout can outlive its torrent.

  \<^bold>\<open>Concurrency.\<close> A function that holds the mutex throughout is one step. \<open>condition.wait_for\<close> frees the
  mutex: the model of a waiting call takes what the other threads do meanwhile as the argument \<open>between\<close>, and
  the lemmas \<open>metadata_cut\<close>, \<open>next_event_cut\<close> and \<open>checkpoint_cut\<close> split the calls at that point into steps of the
  machine. \<open>notified\<close> counts \<open>notify_all\<close>. The set in a machine state holds the torrents whose checkpoint is
  claimed; a claim is given back by the second half of the call, and stays for good when the first half was left
  by an exception.

  \<^bold>\<open>Integers.\<close> Repetition counts and the wake generation are words; indexes are narrowed to 32 bits where the code
  narrows them. Sizes libtorrent reports are integers; \<open>laid_out\<close> bounds them. The sum \<open>count + 7\<close> for the
  bitset overflows in the model where it does in the code; \<open>lawful\<close> bounds the piece counts libtorrent reports.

  \<^bold>\<open>Not modelled.\<close> \<open>ltkit_buffer_free\<close> (one call of \<open>std::free\<close>); allocation failures of C++ containers and
  strings inside the bridge, other than as exceptions of the calls above; what a caller still inside a call sees
  after \<open>ltkit_session_destroy\<close> has freed the session, which \<open>Executor_Correct\<close> shows the wrapper never lets happen;
  of the Swift wrapper the methods that only forward their arguments to a native function modelled here, the decoding of
  JSON by Foundation (a parameter of \<open>Event_Reader\<close> and \<open>Session_Actor\<close>), its URLs (parameters of \<open>Swift_Requests\<close>), texts
  beyond code point 255, and the destruction of a handle by \<open>deinit\<close>; tests, the harness application and the build.
\<close>

end
